(* ===== verification/Roo_Prelude.thy ===== *)
theory Roo_Prelude
  imports Main "HOL-Library.Word" "HOL-Library.List_Lexorder" "HOL-Library.Sublist"
begin

text \<open>
  Shared vocabulary of the development: the Go types the program is written in (bytes, slices,
  strings, machine integers), its error values and panics, decimal formatting, little-endian
  64-bit integers, and the generic facts on sorted and prefix-closed lists that the components use.

  A Go \<open>string\<close> is a HOL \<open>string\<close> whose characters are its bytes; a Go \<open>[]byte\<close> is a \<open>slice\<close>,
  where \<open>None\<close> is the nil slice and \<open>Some bs\<close> a non-nil slice with content \<open>bs\<close>.
\<close>

unbundle bit_operations_syntax

named_theorems go_simps \<open>unfolding rules for the Go library functions\<close>

type_synonym byte = "8 word"
type_synonym bytes = "8 word list"
type_synonym slice = "bytes option"
type_synonym uint64 = "64 word"

section \<open>Errors, panics\<close>

text \<open>
  Sentinel errors the code compares against have a constructor of their own; every other error is
  its message. \<open>Panic\<close> is a run-time panic: a nil dereference, a failed type assertion, an index
  out of range or an explicit call of \<open>panic\<close>. \<open>Fatal\<close> errors end the process and are modelled
  where they occur.
\<close>

datatype error = Errorf string | ErrNotFound | ErrCacheMiss

datatype 'a outcome = Ok 'a | Err error | Panic string

fun is_Ok :: "'a outcome \<Rightarrow> bool" where
  "is_Ok (Ok _) = True"
| "is_Ok _ = False"

fun is_Panic :: "'a outcome \<Rightarrow> bool" where
  "is_Panic (Panic _) = True"
| "is_Panic _ = False"

primrec map_outcome2 :: "('a \<Rightarrow> 'b) \<Rightarrow> 'a outcome \<Rightarrow> 'b outcome" where
  "map_outcome2 f (Ok a) = Ok (f a)"
| "map_outcome2 f (Err e) = Err e"
| "map_outcome2 f (Panic p) = Panic p"

section \<open>Slices and strings\<close>

definition str_bytes :: "string \<Rightarrow> bytes" where
  "str_bytes s = map of_char s"

definition bytes_str :: "bytes \<Rightarrow> string" where
  "bytes_str bs = map (\<lambda>b. char_of (unat b)) bs"

definition slice_bytes :: "slice \<Rightarrow> bytes" where
  "slice_bytes s = (case s of None \<Rightarrow> [] | Some bs \<Rightarrow> bs)"

definition slice_len :: "slice \<Rightarrow> nat" where
  "slice_len s = length (slice_bytes s)"

lemma slice_bytes_simps [simp]: "slice_bytes None = []" "slice_bytes (Some bs) = bs"
  by (simp_all add: slice_bytes_def)

lemma slice_len_simps [simp]: "slice_len None = 0" "slice_len (Some bs) = length bs"
  by (simp_all add: slice_len_def)

lemma of_char_char_of_byte [simp]: "of_char (char_of (unat (b :: byte))) = b"
proof -
  have "unat b < 256" using unsigned_less [of b, where ?'a = nat] by simp
  then have "(of_char (char_of (unat b)) :: nat) = unat b" by simp
  then have "(of_nat (of_char (char_of (unat b))) :: byte) = of_nat (unat b)"
    by (rule arg_cong)
  then show ?thesis by (simp only: of_nat_of_char of_nat_unat ucast_id)
qed

lemma unat_of_char [simp]: "unat (of_char c :: byte) = of_char c"
proof -
  have "(of_char c :: nat) < 256" by simp
  then have "unat (of_nat (of_char c) :: byte) = of_char c" by (subst unat_of_nat) simp
  then show ?thesis by (simp add: of_nat_of_char)
qed

lemma bytes_str_str_bytes [simp]: "bytes_str (str_bytes s) = s"
  by (induction s) (simp_all add: bytes_str_def str_bytes_def)

lemma str_bytes_bytes_str [simp]: "str_bytes (bytes_str bs) = bs"
  by (induction bs) (simp_all add: bytes_str_def str_bytes_def)

lemma str_bytes_eq_iff [simp]: "str_bytes s = str_bytes t \<longleftrightarrow> s = t"
  by (metis bytes_str_str_bytes)

lemma bytes_str_eq_iff [simp]: "bytes_str s = bytes_str t \<longleftrightarrow> s = t"
  by (metis str_bytes_bytes_str)

lemma str_bytes_simps [simp]:
  "str_bytes [] = []" "str_bytes (c # s) = of_char c # str_bytes s"
  "str_bytes (s @ t) = str_bytes s @ str_bytes t"
  by (simp_all add: str_bytes_def)

lemma bytes_str_simps [simp]:
  "bytes_str [] = []" "bytes_str (b # bs) = char_of (unat b) # bytes_str bs"
  "bytes_str (bs @ cs) = bytes_str bs @ bytes_str cs"
  by (simp_all add: bytes_str_def)

lemma length_str_bytes [simp]: "length (str_bytes s) = length s"
  by (simp add: str_bytes_def)

lemma length_bytes_str [simp]: "length (bytes_str bs) = length bs"
  by (simp add: bytes_str_def)

lemma str_bytes_eq_Nil [simp]: "str_bytes s = [] \<longleftrightarrow> s = []"
  by (simp add: str_bytes_def)

lemma inj_str_bytes: "inj str_bytes"
  by (simp add: inj_def)

lemma prefix_str_bytes [simp]: "prefix (str_bytes s) (str_bytes t) \<longleftrightarrow> prefix s t"
proof
  assume "prefix (str_bytes s) (str_bytes t)"
  then obtain zs where "str_bytes t = str_bytes s @ zs" by (auto simp: prefix_def)
  then have "t = s @ bytes_str zs"
    by (metis bytes_str_simps(3) bytes_str_str_bytes)
  then show "prefix s t" by simp
qed (auto simp: prefix_def)

section \<open>Decimal numbers\<close>

definition digit_char :: "nat \<Rightarrow> char" where
  "digit_char d = char_of (48 + d)"

fun show_nat :: "nat \<Rightarrow> string" where
  "show_nat n = (if n < 10 then [digit_char n] else show_nat (n div 10) @ [digit_char (n mod 10)])"

declare show_nat.simps [simp del]

text \<open>\<open>fmt.Sprintf("%d", i)\<close> and \<open>strconv.Itoa\<close>.\<close>

definition show_int :: "int \<Rightarrow> string" where
  "show_int i = (if i < 0 then CHR ''-'' # show_nat (nat (- i)) else show_nat (nat i))"

text \<open>\<open>strconv.FormatUint(w, 10)\<close>.\<close>

definition show_uint64 :: "uint64 \<Rightarrow> string" where
  "show_uint64 w = show_nat (unat w)"

text \<open>\<open>fmt.Sprintf("%0wd", i)\<close>: zero padding to width \<open>w\<close>, after the sign.\<close>

definition zero_pad :: "nat \<Rightarrow> string \<Rightarrow> string" where
  "zero_pad w s = replicate (w - length s) (CHR ''0'') @ s"

definition show_int_pad :: "nat \<Rightarrow> int \<Rightarrow> string" where
  "show_int_pad w i =
     (if i < 0 then CHR ''-'' # zero_pad (w - 1) (show_nat (nat (- i)))
      else zero_pad w (show_nat (nat i)))"

definition is_digit :: "char \<Rightarrow> bool" where
  "is_digit c \<longleftrightarrow> 48 \<le> (of_char c :: nat) \<and> (of_char c :: nat) \<le> 57"

definition digit_val :: "char \<Rightarrow> nat" where
  "digit_val c = of_char c - 48"

definition digits_val :: "string \<Rightarrow> nat" where
  "digits_val s = foldl (\<lambda>n c. 10 * n + digit_val c) 0 s"

text \<open>
  \<open>strconv.ParseUint(s, 10, 64)\<close>: digits only, at least one, and a value that fits.
\<close>

definition parse_uint64 :: "string \<Rightarrow> uint64 option" where
  "parse_uint64 s =
     (if s \<noteq> [] \<and> list_all is_digit s \<and> digits_val s < 2 ^ 64
      then Some (of_nat (digits_val s)) else None)"

lemma digit_val_digit_char [simp]: "d < 10 \<Longrightarrow> digit_val (digit_char d) = d"
  by (simp add: digit_val_def digit_char_def)

lemma is_digit_digit_char [simp]: "d < 10 \<Longrightarrow> is_digit (digit_char d)"
  by (simp add: is_digit_def digit_char_def)

lemma digits_val_snoc [simp]: "digits_val (s @ [c]) = 10 * digits_val s + digit_val c"
  by (simp add: digits_val_def)

lemma digits_val_show_nat [simp]: "digits_val (show_nat n) = n"
proof (induction n rule: show_nat.induct)
  case (1 n)
  show ?case
  proof (cases "n < 10")
    case True
    then show ?thesis
      by (simp add: show_nat.simps [of n] digits_val_def)
  next
    case False
    with "1.IH" show ?thesis by (simp add: show_nat.simps [of n])
  qed
qed

lemma show_nat_digits: "list_all is_digit (show_nat n)"
proof (induction n rule: show_nat.induct)
  case (1 n)
  then show ?case
    by (cases "n < 10") (simp_all add: show_nat.simps [of n])
qed

lemma show_nat_neq_Nil [simp]: "show_nat n \<noteq> []"
  by (subst show_nat.simps) simp

lemma show_nat_inj [simp]: "show_nat m = show_nat n \<longleftrightarrow> m = n"
  by (metis digits_val_show_nat)

lemma parse_show_uint64 [simp]: "parse_uint64 (show_uint64 w) = Some w"
proof -
  have "unat w < 2 ^ 64" using unsigned_less [of w, where ?'a = nat] by simp
  then show ?thesis
    by (simp add: parse_uint64_def show_uint64_def show_nat_digits)
qed

lemma show_uint64_inj [simp]: "show_uint64 v = show_uint64 w \<longleftrightarrow> v = w"
  by (simp add: show_uint64_def word_unat_eq_iff)

text \<open>The digits of a number below \<open>10 ^ w\<close>, padded to width \<open>w\<close>, from the least one up.\<close>

fun fix_digits :: "nat \<Rightarrow> nat \<Rightarrow> string" where
  "fix_digits 0 n = []"
| "fix_digits (Suc w) n = fix_digits w (n div 10) @ [digit_char (n mod 10)]"

lemma length_fix_digits [simp]: "length (fix_digits w n) = w"
  by (induction w arbitrary: n) simp_all

lemma digit_char_0 [simp]: "digit_char 0 = CHR ''0''"
  by code_simp

lemma fix_digits_0: "fix_digits w 0 = replicate w (CHR ''0'')"
proof (induction w)
  case (Suc w)
  have "replicate w (CHR ''0'') @ [CHR ''0''] = CHR ''0'' # replicate w (CHR ''0'')"
    by (rule replicate_append_same)
  with Suc show ?case by (simp add: digit_char_0)
qed simp

lemma length_show_nat_le: "n < 10 ^ w \<Longrightarrow> 0 < w \<Longrightarrow> length (show_nat n) \<le> w"
proof (induction n arbitrary: w rule: show_nat.induct)
  case (1 n)
  show ?case
  proof (cases "n < 10")
    case True
    with "1.prems" show ?thesis by (simp add: show_nat.simps [of n])
  next
    case False
    obtain v where v: "w = Suc v" using "1.prems" by (cases w) auto
    with False "1.prems" have "0 < v" by (cases v) auto
    have "n div 10 < 10 ^ v" using "1.prems" v by (simp add: less_mult_imp_div_less mult.commute)
    with "1.IH" [OF False] \<open>0 < v\<close> v False show ?thesis by (simp add: show_nat.simps [of n])
  qed
qed

lemma zero_pad_show_nat: "n < 10 ^ w \<Longrightarrow> 0 < w \<Longrightarrow> zero_pad w (show_nat n) = fix_digits w n"
proof (induction n arbitrary: w rule: show_nat.induct)
  case (1 n)
  obtain v where v: "w = Suc v" using "1.prems" by (cases w) auto
  show ?case
  proof (cases "n < 10")
    case True
    then show ?thesis
      by (simp add: v zero_pad_def show_nat.simps [of n] fix_digits_0)
  next
    case False
    with "1.prems" v have "0 < v" by (cases v) auto
    moreover from "1.prems" v have "n div 10 < 10 ^ v"
      by (simp add: less_mult_imp_div_less mult.commute)
    ultimately have "zero_pad v (show_nat (n div 10)) = fix_digits v (n div 10)"
      using "1.IH" [OF False] by blast
    with False v show ?thesis
      by (simp add: zero_pad_def show_nat.simps [of n])
  qed
qed

section \<open>Little-endian 64-bit integers\<close>

text \<open>\<open>binary.LittleEndian.PutUint64\<close> and \<open>binary.LittleEndian.Uint64\<close>.\<close>

fun le_put :: "nat \<Rightarrow> uint64 \<Rightarrow> bytes" where
  "le_put 0 w = []"
| "le_put (Suc n) w = ucast w # le_put n (drop_bit 8 w)"

definition le64_put :: "uint64 \<Rightarrow> bytes" where
  "le64_put w = le_put 8 w"

fun le_bytes_word :: "bytes \<Rightarrow> uint64" where
  "le_bytes_word [] = 0"
| "le_bytes_word (b # bs) = ucast b OR push_bit 8 (le_bytes_word bs)"

text \<open>\<open>Uint64\<close> indexes bytes 0 to 7 and panics on a shorter slice.\<close>

definition le64_get :: "bytes \<Rightarrow> uint64 option" where
  "le64_get bs = (if length bs < 8 then None else Some (le_bytes_word (take 8 bs)))"

lemma length_le_put [simp]: "length (le_put n w) = n"
  by (induction n arbitrary: w) simp_all

lemma length_le64_put [simp]: "length (le64_put w) = 8"
  by (simp add: le64_put_def)

lemma le_bytes_word_le_put: "le_bytes_word (le_put n w) = take_bit (8 * n) w"
proof (induction n arbitrary: w)
  case (Suc n)
  show ?case
    by (rule bit_word_eqI) (auto simp: Suc bit_simps)
qed simp

lemma le_bytes_word_put: "le_bytes_word (le64_put w) = w"
  by (simp add: le64_put_def le_bytes_word_le_put take_bit_word_eq_self)

lemma le64_get_put [simp]: "le64_get (le64_put w @ bs) = Some w"
  by (simp add: le64_get_def le_bytes_word_put)

lemma le64_get_put_Nil [simp]: "le64_get (le64_put w) = Some w"
  using le64_get_put [of w "[]"] by simp

end
