(* ===== verification/Go_Text.thy ===== *)
theory Go_Text
  imports Roo_Prelude
begin

text \<open>
  The parts of Go's \<open>unicode/utf8\<close>, \<open>strings\<close> and \<open>encoding/base64\<close> packages that the program
  reaches: decoding and encoding of runes (used by \<open>fmt\<close>'s \<open>%c\<close> verb and by \<open>encoding/json\<close>),
  splitting and trimming of strings, and the standard base64 alphabet (the JSON form of a \<open>[]byte\<close>).
\<close>

section \<open>Runes and UTF-8\<close>

abbreviation byte_at :: "char \<Rightarrow> nat" where
  "byte_at c \<equiv> of_char c"

definition rune_error :: nat where
  "rune_error = 65533"

text \<open>\<open>utf8.AppendRune\<close>: surrogates and values above \<open>MaxRune\<close> become U+FFFD.\<close>

definition norm_rune :: "nat \<Rightarrow> nat" where
  "norm_rune r = (if r > 1114111 \<or> (55296 \<le> r \<and> r \<le> 57343) then rune_error else r)"

definition encode_rune :: "nat \<Rightarrow> string" where
  "encode_rune r0 = (let r = norm_rune r0 in
     if r < 128 then [char_of r]
     else if r < 2048 then [char_of (192 + r div 64), char_of (128 + r mod 64)]
     else if r < 65536 then
       [char_of (224 + r div 4096), char_of (128 + r div 64 mod 64), char_of (128 + r mod 64)]
     else [char_of (240 + r div 262144), char_of (128 + r div 4096 mod 64),
           char_of (128 + r div 64 mod 64), char_of (128 + r mod 64)])"

text \<open>The verb \<open>%c\<close> applied to a rune, an \<open>int32\<close>.\<close>

definition show_rune :: "int \<Rightarrow> string" where
  "show_rune i = (if i < 0 then encode_rune rune_error else encode_rune (nat i))"

definition in_range :: "nat \<Rightarrow> nat \<Rightarrow> char \<Rightarrow> bool" where
  "in_range lo hi c \<longleftrightarrow> lo \<le> byte_at c \<and> byte_at c \<le> hi"

abbreviation is_cont :: "char \<Rightarrow> bool" where
  "is_cont c \<equiv> in_range 128 191 c"

text \<open>
  The range of the second byte, by the first byte: overlong forms, surrogates and values above
  U+10FFFF are excluded by it.
\<close>

definition second_ok :: "nat \<Rightarrow> char \<Rightarrow> bool" where
  "second_ok b0 c =
     (if b0 = 224 then in_range 160 191 c
      else if b0 = 237 then in_range 128 159 c
      else if b0 = 240 then in_range 144 191 c
      else if b0 = 244 then in_range 128 143 c
      else is_cont c)"

text \<open>The payload bits of two, three and four byte forms.\<close>

definition rune2 :: "nat \<Rightarrow> char \<Rightarrow> nat" where
  "rune2 b0 c1 = b0 mod 32 * 64 + byte_at c1 mod 64"

definition rune3 :: "nat \<Rightarrow> char \<Rightarrow> char \<Rightarrow> nat" where
  "rune3 b0 c1 c2 = b0 mod 16 * 4096 + byte_at c1 mod 64 * 64 + byte_at c2 mod 64"

definition rune4 :: "nat \<Rightarrow> char \<Rightarrow> char \<Rightarrow> char \<Rightarrow> nat" where
  "rune4 b0 c1 c2 c3 =
     b0 mod 8 * 262144 + byte_at c1 mod 64 * 4096 + byte_at c2 mod 64 * 64 + byte_at c3 mod 64"

text \<open>
  \<open>utf8.DecodeRuneInString\<close> on a non-empty string: the rune and its width; \<open>(RuneError, 1)\<close> for
  an invalid encoding.
\<close>

definition decode_rune :: "string \<Rightarrow> nat \<times> nat" where
  "decode_rune s = (let bad = (rune_error, 1) in
     case s of [] \<Rightarrow> (rune_error, 0)
     | c0 # s1 \<Rightarrow> (let b0 = byte_at c0 in
         if b0 < 128 then (b0, 1)
         else if b0 < 194 \<or> 244 < b0 then bad
         else case s1 of [] \<Rightarrow> bad
         | c1 # s2 \<Rightarrow>
             if \<not> second_ok b0 c1 then bad
             else if b0 < 224 then (rune2 b0 c1, 2)
             else case s2 of [] \<Rightarrow> bad
             | c2 # s3 \<Rightarrow>
                 if \<not> is_cont c2 then bad
                 else if b0 < 240 then (rune3 b0 c1 c2, 3)
                 else case s3 of [] \<Rightarrow> bad
                 | c3 # _ \<Rightarrow>
                     if \<not> is_cont c3 then bad
                     else (rune4 b0 c1 c2 c3, 4)))"

text \<open>What decoding every rune and encoding it again yields: invalid bytes become U+FFFD.\<close>

fun utf8_coerce :: "string \<Rightarrow> string" where
  "utf8_coerce [] = []"
| "utf8_coerce (c # cs) =
     (let (r, n) = decode_rune (c # cs) in encode_rune r @ utf8_coerce (drop (n - 1) cs))"

definition utf8_ok :: "string \<Rightarrow> bool" where
  "utf8_ok s \<longleftrightarrow> utf8_coerce s = s"

definition is_ascii :: "string \<Rightarrow> bool" where
  "is_ascii s \<longleftrightarrow> list_all (\<lambda>c. byte_at c < 128) s"

section \<open>strings.Split\<close>

text \<open>\<open>strings.Split(s, sep)\<close> for a one-byte separator: always at least one part.\<close>

fun split_on :: "char \<Rightarrow> string \<Rightarrow> string list" where
  "split_on d [] = [[]]"
| "split_on d (c # cs) =
     (if c = d then [] # split_on d cs
      else (case split_on d cs of [] \<Rightarrow> [[c]] | p # ps \<Rightarrow> (c # p) # ps))"

definition join_with :: "char \<Rightarrow> string list \<Rightarrow> string" where
  "join_with d ps = (case ps of [] \<Rightarrow> [] | p # qs \<Rightarrow> p @ concat (map (\<lambda>q. d # q) qs))"

section \<open>Base64\<close>

text \<open>The \<open>n\<close>-th character of the standard alphabet A--Z, a--z, 0--9, +, /.\<close>

definition b64_char :: "nat \<Rightarrow> char" where
  "b64_char n = (let k = n mod 64 in
     if k < 26 then char_of (65 + k)
     else if k < 52 then char_of (71 + k)
     else if k < 62 then char_of (k - 4)
     else if k = 62 then CHR ''+'' else CHR ''/'')"

definition b64_val :: "char \<Rightarrow> nat option" where
  "b64_val c = (let b = byte_at c in
     if 65 \<le> b \<and> b \<le> 90 then Some (b - 65)
     else if 97 \<le> b \<and> b \<le> 122 then Some (b - 71)
     else if 48 \<le> b \<and> b \<le> 57 then Some (b + 4)
     else if b = 43 then Some 62
     else if b = 47 then Some 63
     else None)"

text \<open>\<open>base64.StdEncoding.EncodeToString\<close>.\<close>

fun b64_encode :: "bytes \<Rightarrow> string" where
  "b64_encode [] = []"
| "b64_encode [a] = (let n = unat a * 16 in
     [b64_char (n div 64), b64_char n, CHR ''='', CHR ''=''])"
| "b64_encode [a, b] = (let n = (unat a * 256 + unat b) * 4 in
     [b64_char (n div 4096), b64_char (n div 64), b64_char n, CHR ''=''])"
| "b64_encode (a # b # c # bs) = (let n = (unat a * 256 + unat b) * 256 + unat c in
     b64_char (n div 262144) # b64_char (n div 4096) # b64_char (n div 64) # b64_char n
       # b64_encode bs)"

text \<open>
  \<open>base64.StdEncoding.Decode\<close>: carriage returns and newlines are skipped; the padding bits of the
  last quantum are not checked (the encoding is not strict).
\<close>

fun b64_quanta :: "string \<Rightarrow> bytes option" where
  "b64_quanta [] = Some []"
| "b64_quanta [a, b, c, d] =
     (case (b64_val a, b64_val b) of
        (Some w, Some x) \<Rightarrow>
          if c = CHR ''='' \<and> d = CHR ''='' then Some [of_nat ((w * 64 + x) div 16)]
          else (case b64_val c of
            None \<Rightarrow> None
          | Some y \<Rightarrow>
              if d = CHR ''='' then
                (let n = ((w * 64 + x) * 64 + y) div 4 in Some [of_nat (n div 256), of_nat n])
              else (case b64_val d of
                None \<Rightarrow> None
              | Some z \<Rightarrow> (let n = ((w * 64 + x) * 64 + y) * 64 + z in
                  Some [of_nat (n div 65536), of_nat (n div 256), of_nat n])))
      | _ \<Rightarrow> None)"
| "b64_quanta (a # b # c # d # s) =
     (case (b64_val a, b64_val b, b64_val c, b64_val d) of
        (Some w, Some x, Some y, Some z) \<Rightarrow>
          (let n = ((w * 64 + x) * 64 + y) * 64 + z in
           case b64_quanta s of None \<Rightarrow> None
           | Some bs \<Rightarrow> Some (of_nat (n div 65536) # of_nat (n div 256) # of_nat n # bs))
      | _ \<Rightarrow> None)"
| "b64_quanta _ = None"

definition b64_decode :: "string \<Rightarrow> bytes option" where
  "b64_decode s = b64_quanta (filter (\<lambda>c. c \<noteq> CHR 0x0A \<and> c \<noteq> CHR 0x0D) s)"

section \<open>Facts on runes\<close>

text \<open>Six-bit groups: a number is the sum of its base-64 digits.\<close>

lemma b64_digits2: "n div 64 mod 64 * 64 + n mod 64 = n mod (4096 :: nat)"
  using mod_mult2_eq [of n 64 64] by simp

lemma b64_digits3:
  "(n div 4096 mod 64 * 64 + n div 64 mod 64) * 64 + n mod 64 = n mod (262144 :: nat)"
  using mod_mult2_eq [of n 64 4096] b64_digits2 [of "n div 64"] by (simp add: div_mult2_eq [symmetric])

lemma b64_digits4:
  "((n div 262144 mod 64 * 64 + n div 4096 mod 64) * 64 + n div 64 mod 64) * 64 + n mod 64
     = n mod (16777216 :: nat)"
  using mod_mult2_eq [of n 64 262144] b64_digits3 [of "n div 64"]
  by (simp add: div_mult2_eq [symmetric])

lemma cont_mod: "(128 + m mod 64) mod 64 = m mod (64 :: nat)"
  using mod_mult_self4 [of 64 2 "m mod 64"] by simp

lemma encode_rune_neq_Nil [simp]: "encode_rune r \<noteq> []"
  by (simp add: encode_rune_def Let_def)

lemma norm_rune_idem [simp]: "norm_rune (norm_rune r) = norm_rune r"
  by (simp add: norm_rune_def rune_error_def)

lemma norm_rune_bounds:
  "norm_rune r \<le> 1114111" "\<not> (55296 \<le> norm_rune r \<and> norm_rune r \<le> 57343)"
  by (simp_all add: norm_rune_def rune_error_def)

lemma encode_rune_norm [simp]: "encode_rune (norm_rune r) = encode_rune r"
  by (simp add: encode_rune_def)

lemma encode_rune_ascii: "byte_at c < 128 \<Longrightarrow> encode_rune (byte_at c) = [c]"
  by (simp add: encode_rune_def norm_rune_def)

lemma decode_rune_ascii [simp]: "byte_at c < 128 \<Longrightarrow> decode_rune (c # cs) = (byte_at c, 1)"
  by (simp add: decode_rune_def Let_def)

text \<open>The range of the second byte excludes overlong forms, surrogates and too large values.\<close>

lemma rune_second_bounds:
  fixes a b c d r :: nat
  shows "(a * 64 + b) * 64 + c = r \<Longrightarrow> c < 64 \<Longrightarrow> 2048 \<le> r \<Longrightarrow> a = 0 \<Longrightarrow> 32 \<le> b"
    and "(a * 64 + b) * 64 + c = r \<Longrightarrow> b < 64 \<Longrightarrow> c < 64 \<Longrightarrow> \<not> (55296 \<le> r \<and> r \<le> 57343) \<Longrightarrow>
      a = 13 \<Longrightarrow> b \<le> 31"
    and "((a * 64 + b) * 64 + c) * 64 + d = r \<Longrightarrow> c < 64 \<Longrightarrow> d < 64 \<Longrightarrow> 65536 \<le> r \<Longrightarrow> a = 0 \<Longrightarrow> 16 \<le> b"
    and "((a * 64 + b) * 64 + c) * 64 + d = r \<Longrightarrow> r \<le> 1114111 \<Longrightarrow> a = 4 \<Longrightarrow> b \<le> 15"
  by simp_all

lemma decode_rune2:
  "2 \<le> a \<Longrightarrow> a < 32 \<Longrightarrow> b < 64 \<Longrightarrow>
   decode_rune (char_of (192 + a) # char_of (128 + b) # s) = (a * 64 + b, 2)"
  using mod_mult_self4 [of 32 6 a] mod_mult_self4 [of 64 2 b]
  by (auto simp: decode_rune_def second_ok_def in_range_def Let_def rune2_def rune3_def rune4_def)

lemma decode_rune3:
  "a < 16 \<Longrightarrow> b < 64 \<Longrightarrow> c < 64 \<Longrightarrow> (a = 0 \<Longrightarrow> 32 \<le> b) \<Longrightarrow> (a = 13 \<Longrightarrow> b \<le> 31) \<Longrightarrow>
   decode_rune (char_of (224 + a) # char_of (128 + b) # char_of (128 + c) # s)
     = (a * 4096 + b * 64 + c, 3)"
  using mod_mult_self4 [of 16 14 a] mod_mult_self4 [of 64 2 b] mod_mult_self4 [of 64 2 c]
  by (auto simp: decode_rune_def second_ok_def in_range_def Let_def rune2_def rune3_def rune4_def)

lemma decode_rune4:
  "a < 5 \<Longrightarrow> b < 64 \<Longrightarrow> c < 64 \<Longrightarrow> d < 64 \<Longrightarrow> (a = 0 \<Longrightarrow> 16 \<le> b) \<Longrightarrow> (a = 4 \<Longrightarrow> b \<le> 15) \<Longrightarrow>
   decode_rune (char_of (240 + a) # char_of (128 + b) # char_of (128 + c) # char_of (128 + d) # s)
     = (a * 262144 + b * 4096 + c * 64 + d, 4)"
  using mod_mult_self4 [of 8 30 a] mod_mult_self4 [of 64 2 b] mod_mult_self4 [of 64 2 c]
    mod_mult_self4 [of 64 2 d]
  by (auto simp: decode_rune_def second_ok_def in_range_def Let_def rune2_def rune3_def rune4_def)

text \<open>Decoding what \<open>AppendRune\<close> wrote gives back the rune and its width, whatever follows.\<close>

lemma decode_encode_rune4:
  fixes r :: nat
  assumes "65536 \<le> r" "r \<le> 1114111" and abc: "a = r div 4096" "b = r div 64 mod 64" "c = r mod 64"
  shows "decode_rune (char_of (240 + a div 64) # char_of (128 + a mod 64) # char_of (128 + b) # char_of (128 + c) # s) = (r, 4)"
proof -
  define e f where ef: "e = a div 64" "f = a mod 64"
  have "a < 320" using assms(2) by (simp add: abc less_mult_imp_div_less)
  then have lt: "e < 5" "f < 64" "b < 64" "c < 64" by (simp_all add: ef abc less_mult_imp_div_less)
  have "r < 16777216" "e < 64" using assms(2) lt(1) by simp_all
  then have d: "((e * 64 + f) * 64 + b) * 64 + c = r"
    using b64_digits4 [of r] by (simp add: ef abc div_mult2_eq [symmetric])
  have "decode_rune (char_of (240 + e) # char_of (128 + f) # char_of (128 + b) # char_of (128 + c) # s)
      = (e * 262144 + f * 4096 + b * 64 + c, 4)"
    using rune_second_bounds(3,4) [OF d] assms(1,2) lt by (intro decode_rune4) simp_all
  moreover have "e * 262144 + f * 4096 + b * 64 + c = r" using d by simp
  ultimately show ?thesis unfolding ef by simp
qed

lemma decode_encode_rune:
  "decode_rune (encode_rune r0 @ s) = (norm_rune r0, length (encode_rune r0))"
proof -
  define r where "r = norm_rune r0"
  have bnd: "r \<le> 1114111" "\<not> (55296 \<le> r \<and> r \<le> 57343)"
    by (simp_all only: r_def norm_rune_bounds) (simp add: norm_rune_bounds)
  define a b c where abc: "a = r div 4096" "b = r div 64 mod 64" "c = r mod 64"
  have lt: "b < 64" "c < 64" by (simp_all add: abc)
  have enc: "encode_rune r0 = (if r < 128 then [char_of r]
      else if r < 2048 then [char_of (192 + r div 64), char_of (128 + c)]
      else if r < 65536 then [char_of (224 + a), char_of (128 + b), char_of (128 + c)]
      else [char_of (240 + a div 64), char_of (128 + a mod 64), char_of (128 + b), char_of (128 + c)])"
    by (simp add: encode_rune_def r_def [symmetric] abc div_mult2_eq [symmetric])
  consider "r < 128" | "128 \<le> r" "r < 2048" | "2048 \<le> r" "r < 65536" | "65536 \<le> r"
    by linarith
  then show ?thesis
  proof cases
    case 1
    then show ?thesis
      by (simp add: enc decode_rune_def r_def [symmetric])
  next
    case 2
    have "2 \<le> r div 64" "r div 64 < 32" using 2 by auto
    then have "decode_rune (char_of (192 + r div 64) # char_of (128 + c) # s) = (r div 64 * 64 + c, 2)"
      using lt by (intro decode_rune2)
    with 2 show ?thesis by (simp add: enc r_def [symmetric] abc)
  next
    case 3
    have "a < 16" using 3 by (simp add: abc less_mult_imp_div_less)
    moreover have d: "(a * 64 + b) * 64 + c = r"
      using b64_digits3 [of r] 3 \<open>a < 16\<close> by (simp add: abc)
    ultimately have "decode_rune (char_of (224 + a) # char_of (128 + b) # char_of (128 + c) # s)
        = (a * 4096 + b * 64 + c, 3)"
      using rune_second_bounds(1,2) [OF d] 3 bnd(2) lt by (intro decode_rune3) simp_all
    with 3 d show ?thesis by (simp add: enc r_def [symmetric])
  next
    case 4
    then show ?thesis using decode_encode_rune4 [OF _ bnd(1) abc, of s] by (simp add: enc r_def [symmetric])
  qed
qed

text \<open>Coercion is the identity on what it produced, and on ASCII text.\<close>

lemma utf8_coerce_encode_rune: "utf8_coerce (encode_rune r @ s) = encode_rune r @ utf8_coerce s"
proof -
  obtain c cs where c: "encode_rune r = c # cs"
    by (cases "encode_rune r") simp_all
  have "decode_rune (c # cs @ s) = (norm_rune r, Suc (length cs))"
    using decode_encode_rune [of r s] c by simp
  then have "utf8_coerce (c # cs @ s) = encode_rune (norm_rune r) @ utf8_coerce s" by simp
  then show ?thesis by (simp add: c del: utf8_coerce.simps)
qed

lemma utf8_coerce_idem [simp]: "utf8_coerce (utf8_coerce s) = utf8_coerce s"
  by (induction s rule: utf8_coerce.induct)
    (simp_all add: utf8_coerce_encode_rune split: prod.splits)

lemma utf8_ok_coerce [simp]: "utf8_ok (utf8_coerce s)"
  by (simp add: utf8_ok_def)

lemma utf8_ok_Nil [simp]: "utf8_ok []"
  by (simp add: utf8_ok_def)

text \<open>Valid strings are the concatenations of encoded runes, so they can be joined freely.\<close>

lemma utf8_coerce_runes: "\<exists>rs. utf8_coerce s = concat (map encode_rune rs)"
proof (induction s rule: utf8_coerce.induct)
  case 1
  show ?case by (intro exI [of _ "[]"]) simp
next
  case (2 c cs)
  obtain r n where rn: "decode_rune (c # cs) = (r, n)" by fastforce
  obtain rs where "utf8_coerce (drop (n - 1) cs) = concat (map encode_rune rs)"
    using 2 [OF rn [symmetric] refl] by blast
  with rn have "utf8_coerce (c # cs) = concat (map encode_rune (r # rs))" by simp
  then show ?case by blast
qed

lemma utf8_coerce_append: "utf8_ok s \<Longrightarrow> utf8_coerce (s @ t) = s @ utf8_coerce t"
proof -
  assume "utf8_ok s"
  then obtain rs where s: "s = concat (map encode_rune rs)" using utf8_coerce_runes [of s] by (auto simp: utf8_ok_def)
  show ?thesis unfolding s by (induction rs) (simp_all add: utf8_coerce_encode_rune)
qed

lemma utf8_ok_append [simp]: "utf8_ok s \<Longrightarrow> utf8_ok (s @ t) \<longleftrightarrow> utf8_ok t"
  by (simp add: utf8_ok_def utf8_coerce_append)

lemma utf8_ok_encode_rune [simp]: "utf8_ok (encode_rune r)"
  using utf8_coerce_encode_rune [of r "[]"] by (simp add: utf8_ok_def)

lemma utf8_ok_show_rune [simp]: "utf8_ok (show_rune i)"
  by (simp add: show_rune_def)

lemma utf8_coerce_ascii_Cons [simp]:
  "byte_at c < 128 \<Longrightarrow> utf8_coerce (c # cs) = c # utf8_coerce cs"
  by (simp add: encode_rune_ascii)

lemma utf8_coerce_ascii_append: "is_ascii s \<Longrightarrow> utf8_coerce (s @ t) = s @ utf8_coerce t"
  by (induction s) (simp_all add: is_ascii_def del: utf8_coerce.simps)

lemma utf8_ok_ascii: "is_ascii s \<Longrightarrow> utf8_ok s"
  using utf8_coerce_ascii_append [of s "[]"] by (simp add: utf8_ok_def)

lemma utf8_ok_ascii_append: "is_ascii s \<Longrightarrow> utf8_ok (s @ t) \<longleftrightarrow> utf8_ok t"
  by (simp add: utf8_ok_def utf8_coerce_ascii_append)

text \<open>
  A successful decoding depends on the bytes it consumed only: the first \<open>n\<close> bytes, followed by
  anything, decode the same way.
\<close>

lemma decode_rune_simps:
  "decode_rune (c0 # s1) = (let b0 = byte_at c0 in
     if b0 < 128 then (b0, 1)
     else if b0 < 194 \<or> 244 < b0 then (rune_error, 1)
     else case s1 of [] \<Rightarrow> (rune_error, 1)
     | c1 # s2 \<Rightarrow>
         if \<not> second_ok b0 c1 then (rune_error, 1)
         else if b0 < 224 then (rune2 b0 c1, 2)
         else case s2 of [] \<Rightarrow> (rune_error, 1)
         | c2 # s3 \<Rightarrow>
             if \<not> is_cont c2 then (rune_error, 1)
             else if b0 < 240 then (rune3 b0 c1 c2, 3)
             else case s3 of [] \<Rightarrow> (rune_error, 1)
             | c3 # s4 \<Rightarrow> if \<not> is_cont c3 then (rune_error, 1) else (rune4 b0 c1 c2 c3, 4))"
  by (simp add: decode_rune_def Let_def cong: list.case_cong if_cong)

lemma decode_rune_take:
  assumes "decode_rune (c0 # s1) = (r, n)" "\<not> (r = rune_error \<and> n = 1)"
  shows "decode_rune (take n (c0 # s1) @ t) = (r, n) \<and> 1 \<le> n \<and> n \<le> length (c0 # s1)"
proof (cases s1)
  case Nil
  with assms show ?thesis by (auto simp: decode_rune_simps Let_def split: if_split_asm)
next
  case (Cons c1 s2)
  note s1 = Cons
  show ?thesis
  proof (cases s2)
    case Nil
    with s1 assms show ?thesis by (auto simp: decode_rune_simps Let_def split: if_split_asm)
  next
    case (Cons c2 s3)
    with s1 assms show ?thesis
      by (cases s3) (auto simp: decode_rune_simps Let_def split: if_split_asm)
  qed
qed

section \<open>Facts on splitting\<close>

lemma split_on_neq_Nil [simp]: "split_on d s \<noteq> []"
  by (cases s) (auto split: list.splits)

lemma split_on_no_sep: "d \<notin> set s \<Longrightarrow> split_on d s = [s]"
  by (induction s) auto

lemma split_on_append_sep: "d \<notin> set p \<Longrightarrow> split_on d (p @ d # s) = p # split_on d s"
  by (induction p) auto

lemma split_on_parts: "p \<in> set (split_on d s) \<Longrightarrow> d \<notin> set p"
  by (induction s arbitrary: p) (fastforce split: if_splits list.splits)+

lemma join_split [simp]: "join_with d (split_on d s) = s"
proof (induction s)
  case (Cons c s)
  then show ?case
    by (auto simp: join_with_def split: list.splits)
qed (simp add: join_with_def)

section \<open>Facts on base64\<close>

lemma b64_val_char: "b64_val (b64_char n) = Some (n mod 64)"
proof -
  define k where "k = n mod 64"
  have "k < 64" by (simp add: k_def)
  then consider "k < 26" | "26 \<le> k" "k < 52" | "52 \<le> k" "k < 62" | "k = 62" | "k = 63"
    by linarith
  then show ?thesis
    by cases (auto simp: b64_char_def b64_val_def k_def [symmetric] Let_def)
qed

lemma b64_val_specials [simp]:
  "b64_val (CHR ''='') = None" "b64_val (CHR 0x0A) = None" "b64_val (CHR 0x0D) = None"
  "b64_val (CHR 0x22) = None" "b64_val (CHR 0x5C) = None"
  by code_simp+

lemma b64_char_neq [simp]:
  "b64_char n \<noteq> CHR ''=''" "b64_char n \<noteq> CHR 0x0A" "b64_char n \<noteq> CHR 0x0D"
  by (metis b64_val_char b64_val_specials option.distinct(1))+

lemma unat_byte_less [simp]: "unat (b :: byte) < 256"
  using unsigned_less [of b, where ?'a = nat] by simp

lemma of_nat_byte_mod: "n mod 256 = unat b \<Longrightarrow> (of_nat n :: byte) = b"
  by (simp add: word_unat_eq_iff unsigned_of_nat take_bit_eq_mod)

lemma less_byte_pair:
  "x < 256 \<Longrightarrow> y < 256 \<Longrightarrow> x * 256 + y < (65536 :: nat)"
  "p < 65536 \<Longrightarrow> y < 256 \<Longrightarrow> p * 256 + y < (16777216 :: nat)"
  by simp_all

lemma byte_split: "z < 256 \<Longrightarrow> (p * 256 + z) div 256 = p \<and> (p * 256 + z) mod 256 = (z :: nat)"
  by simp

lemma b64_quanta_pad1:
  "b64_val p = Some w \<Longrightarrow> b64_val q = Some x \<Longrightarrow> b64_val r = Some y \<Longrightarrow>
   (w * 64 + x) * 64 + y = n \<Longrightarrow>
   b64_quanta [p, q, r, CHR ''=''] = Some [of_nat (n div 4 div 256), of_nat (n div 4)]"
  by (cases "r = CHR ''=''") (simp_all add: Let_def)

lemma b64_quanta_full:
  "b64_val p = Some w \<Longrightarrow> b64_val q = Some x \<Longrightarrow> b64_val r = Some y \<Longrightarrow> b64_val t = Some z \<Longrightarrow>
   ((w * 64 + x) * 64 + y) * 64 + z = n \<Longrightarrow> b64_quanta s = Some bs \<Longrightarrow>
   b64_quanta (p # q # r # t # s)
     = Some (of_nat (n div 65536) # of_nat (n div 256) # of_nat n # bs)"
  by (cases "t = CHR ''=''"; cases s) (simp_all add: Let_def)

lemma b64_quanta_triple:
  fixes a b c :: byte
  assumes "n = (unat a * 256 + unat b) * 256 + unat c" "b64_quanta s = Some bs"
  shows "b64_quanta (b64_char (n div 262144) # b64_char (n div 4096) # b64_char (n div 64) # b64_char n # s) = Some (a # b # c # bs)"
proof -
  have "n < 16777216" unfolding assms(1) by (intro less_byte_pair unat_byte_less)
  then have "n mod 16777216 = n" by simp
  then have dig: "((n div 262144 mod 64 * 64 + n div 4096 mod 64) * 64 + n div 64 mod 64) * 64 + n mod 64 = n"
    using b64_digits4 [of n] by simp
  have n: "n div 256 = unat a * 256 + unat b" "n mod 256 = unat c"
    using byte_split [OF unat_byte_less, of "unat a * 256 + unat b" c] unfolding assms(1) by blast+
  have "n div 65536 = unat a" "n div 256 mod 256 = unat b"
    using byte_split [OF unat_byte_less, of "unat a" b] div_mult2_eq [of n 256 256] by (simp_all add: n)
  then have "(of_nat (n div 65536) :: byte) = a" "(of_nat (n div 256) :: byte) = b" "(of_nat n :: byte) = c"
    using n by (simp_all only: of_nat_byte_mod of_nat_unat ucast_id)
  with assms(2) show ?thesis
    using b64_quanta_full [OF b64_val_char b64_val_char b64_val_char b64_val_char dig] by simp
qed

lemma b64_quanta_encode: "b64_quanta (b64_encode bs) = Some bs"
proof (induction bs rule: b64_encode.induct)
  case (2 a)
  define n where "n = unat a * 16"
  have "n mod 4096 = n" by (simp add: n_def)
  then have "n div 64 mod 64 * 64 + n mod 64 = n" using b64_digits2 [of n] by simp
  then show ?case
    by (simp add: Let_def b64_val_char n_def [symmetric]) (simp add: n_def)
next
  case (3 a b)
  define n where "n = (unat a * 256 + unat b) * 4"
  have "n < 262144"
    using less_byte_pair(1) [OF unat_byte_less [of a] unat_byte_less [of b]] by (simp add: n_def)
  then have "n mod 262144 = n" by simp
  then have "(n div 4096 mod 64 * 64 + n div 64 mod 64) * 64 + n mod 64 = n"
    using b64_digits3 [of n] by simp
  moreover have "n div 4 div 256 = unat a" "n div 4 mod 256 = unat b"
    by (simp_all add: n_def)
  ultimately have "b64_quanta [b64_char (n div 4096), b64_char (n div 64), b64_char n, CHR ''='']
      = Some [a, b]"
    using b64_quanta_pad1 [OF b64_val_char b64_val_char b64_val_char, of "n div 4096" "n div 64" n n]
    by (simp add: of_nat_byte_mod del: b64_quanta.simps)
  then show ?case
    by (simp only: b64_encode.simps Let_def n_def [symmetric])
next
  case (4 a b c bs)
  then have "b64_quanta (b64_encode bs) = Some bs" by (simp add: Let_def)
  from b64_quanta_triple [OF refl this] show ?case by (simp only: b64_encode.simps Let_def)
qed simp

end
