(* ===== verification/Go_Json.thy ===== *)
theory Go_Json
  imports Go_Text
begin

text \<open>
  The text format of Go's \<open>encoding/json\<close> package, in which every command travels through the Raft
  log and every record is written to a snapshot: the syntax tree, the compact printer of
  \<open>json.Marshal\<close> (with its HTML-safe escaping and its replacement of invalid UTF-8), and the
  scanner and string decoder behind \<open>json.Unmarshal\<close>. Printing and then parsing gives back the
  tree, with every string coerced to valid UTF-8 (\<open>json_parse_print\<close>).

  The decoder's limit of 10000 nested values is not modelled.
\<close>

datatype json =
    JNull
  | JBool bool
  | JNum string
  | JStr string
  | JArr "json list"
  | JObj "(string \<times> json) list"

section \<open>Printing\<close>

definition hex_char :: "nat \<Rightarrow> char" where
  "hex_char n = (if n < 10 then char_of (48 + n) else char_of (87 + n))"

text \<open>The escape of one ASCII byte by \<open>appendString\<close> with \<open>escapeHTML\<close> set.\<close>

definition esc_ascii :: "char \<Rightarrow> string" where
  "esc_ascii c = (let b = byte_at c in
     if b = 34 \<or> b = 92 then [CHR 0x5C, c]
     else if b = 8 then [CHR 0x5C, CHR ''b'']
     else if b = 12 then [CHR 0x5C, CHR ''f'']
     else if b = 10 then [CHR 0x5C, CHR ''n'']
     else if b = 13 then [CHR 0x5C, CHR ''r'']
     else if b = 9 then [CHR 0x5C, CHR ''t'']
     else if b < 32 \<or> b = 60 \<or> b = 62 \<or> b = 38 then
       [CHR 0x5C, CHR ''u'', CHR ''0'', CHR ''0'', hex_char (b div 16), hex_char (b mod 16)]
     else [c])"

definition esc_fffd :: string where
  "esc_fffd = CHR 0x5C # ''ufffd''"

fun quote_body :: "string \<Rightarrow> string" where
  "quote_body [] = []"
| "quote_body (c # cs) =
     (if byte_at c < 128 then esc_ascii c @ quote_body cs
      else let (r, n) = decode_rune (c # cs) in
        (if r = rune_error \<and> n = 1 then esc_fffd
         else if r = 8232 then CHR 0x5C # ''u2028''
         else if r = 8233 then CHR 0x5C # ''u2029''
         else take n (c # cs)) @ quote_body (drop (n - 1) cs))"

definition json_quote :: "string \<Rightarrow> string" where
  "json_quote s = CHR 0x22 # quote_body s @ [CHR 0x22]"

fun json_print :: "json \<Rightarrow> string"
  and print_elems :: "json list \<Rightarrow> string"
  and print_members :: "(string \<times> json) list \<Rightarrow> string" where
  "json_print JNull = ''null''"
| "json_print (JBool b) = (if b then ''true'' else ''false'')"
| "json_print (JNum n) = n"
| "json_print (JStr s) = json_quote s"
| "json_print (JArr vs) =
     (if vs = [] then ''[]'' else CHR ''['' # print_elems vs)"
| "json_print (JObj kvs) =
     (if kvs = [] then ''{}'' else CHR ''{'' # print_members kvs)"
| "print_elems [] = '']''"
| "print_elems (v # vs) = json_print v @ (if vs = [] then '']'' else CHR '','' # print_elems vs)"
| "print_members [] = ''}''"
| "print_members ((k, v) # kvs) =
     json_quote k @ CHR '':'' # json_print v @ (if kvs = [] then ''}'' else CHR '','' # print_members kvs)"

section \<open>Scanning\<close>

definition is_ws :: "char \<Rightarrow> bool" where
  "is_ws c \<longleftrightarrow> byte_at c \<in> {9, 10, 13, 32}"

definition skip_ws :: "string \<Rightarrow> string" where
  "skip_ws s = dropWhile is_ws s"

definition hex_val :: "char \<Rightarrow> nat option" where
  "hex_val c = (let b = byte_at c in
     if 48 \<le> b \<and> b \<le> 57 then Some (b - 48)
     else if 97 \<le> b \<and> b \<le> 102 then Some (b - 87)
     else if 65 \<le> b \<and> b \<le> 70 then Some (b - 55)
     else None)"

definition hex4 :: "string \<Rightarrow> (nat \<times> string) option" where
  "hex4 s = (case s of
     a # b # c # d # r \<Rightarrow>
       (case (hex_val a, hex_val b, hex_val c, hex_val d) of
          (Some w, Some x, Some y, Some z) \<Rightarrow> Some (((w * 16 + x) * 16 + y) * 16 + z, r)
        | _ \<Rightarrow> None)
   | _ \<Rightarrow> None)"

text \<open>The part of a \<open>\u\<close> escape after the first four digits: surrogate pairs are combined.\<close>

definition unescape_u :: "nat \<Rightarrow> string \<Rightarrow> string \<times> string" where
  "unescape_u r s =
     (if 55296 \<le> r \<and> r \<le> 57343 then
        (case s of
           p # q # s' \<Rightarrow>
             if p = CHR 0x5C \<and> q = CHR ''u'' then
               (case hex4 s' of
                  Some (r2, s'') \<Rightarrow>
                    if r \<le> 56319 \<and> 56320 \<le> r2 \<and> r2 \<le> 57343
                    then (encode_rune ((r - 55296) * 1024 + (r2 - 56320) + 65536), s'')
                    else (encode_rune rune_error, s)
                | None \<Rightarrow> (encode_rune rune_error, s))
             else (encode_rune rune_error, s)
         | _ \<Rightarrow> (encode_rune rune_error, s))
      else (encode_rune r, s))"

text \<open>One element of a string literal: the bytes it stands for and the rest of the input.\<close>

definition str_step :: "string \<Rightarrow> (string \<times> string) option" where
  "str_step s = (case s of [] \<Rightarrow> None
     | c # r \<Rightarrow>
         if c = CHR 0x5C then
           (case r of [] \<Rightarrow> None
            | e # r' \<Rightarrow>
                if e = CHR 0x22 \<or> e = CHR 0x5C \<or> e = CHR ''/'' then Some ([e], r')
                else if e = CHR ''b'' then Some ([CHR 0x08], r')
                else if e = CHR ''f'' then Some ([CHR 0x0C], r')
                else if e = CHR ''n'' then Some ([CHR 0x0A], r')
                else if e = CHR ''r'' then Some ([CHR 0x0D], r')
                else if e = CHR ''t'' then Some ([CHR 0x09], r')
                else if e = CHR ''u'' then
                  (case hex4 r' of None \<Rightarrow> None | Some (x, r'') \<Rightarrow> Some (unescape_u x r''))
                else None)
         else if c = CHR 0x22 \<or> byte_at c < 32 then None
         else let (x, n) = decode_rune s in Some (encode_rune x, drop (n - 1) r))"

lemma str_step_length: "str_step s = Some (out, r) \<Longrightarrow> length r < length s"
  by (auto simp: str_step_def hex4_def unescape_u_def Let_def
      split: list.splits if_splits option.splits prod.splits)

text \<open>A string literal after its opening quote: its value and what follows the closing quote.\<close>

function parse_str :: "string \<Rightarrow> (string \<times> string) option" where
  "parse_str s = (case s of [] \<Rightarrow> None
     | c # r \<Rightarrow>
         if c = CHR 0x22 then Some ([], r)
         else (case str_step s of None \<Rightarrow> None
           | Some (out, r') \<Rightarrow>
               (case parse_str r' of None \<Rightarrow> None | Some (x, r'') \<Rightarrow> Some (out @ x, r''))))"
  by pat_completeness auto
termination
  by (relation "measure length") (auto dest: str_step_length)

declare parse_str.simps [simp del]

definition span_digits :: "string \<Rightarrow> string \<times> string" where
  "span_digits s = (takeWhile is_digit s, dropWhile is_digit s)"

definition parse_frac :: "string \<Rightarrow> (string \<times> string) option" where
  "parse_frac s = (case s of
     c # r \<Rightarrow> if c = CHR ''.'' then
                (let (ds, r') = span_digits r in if ds = [] then None else Some (c # ds, r'))
              else Some ([], s)
   | [] \<Rightarrow> Some ([], s))"

definition parse_exp :: "string \<Rightarrow> (string \<times> string) option" where
  "parse_exp s = (case s of
     c # r \<Rightarrow> if c = CHR ''e'' \<or> c = CHR ''E'' then
                (let (sg, r1) = (case r of
                       d # r2 \<Rightarrow> if d = CHR ''+'' \<or> d = CHR ''-'' then ([d], r2) else ([], r)
                     | [] \<Rightarrow> ([], r));
                     (ds, r') = span_digits r1
                 in if ds = [] then None else Some (c # sg @ ds, r'))
              else Some ([], s)
   | [] \<Rightarrow> Some ([], s))"

definition parse_int_part :: "string \<Rightarrow> (string \<times> string) option" where
  "parse_int_part s = (case s of
     c # r \<Rightarrow> if c = CHR ''0'' then Some ([c], r)
              else if is_digit c then Some (span_digits s) else None
   | [] \<Rightarrow> None)"

definition parse_number :: "string \<Rightarrow> (string \<times> string) option" where
  "parse_number s =
     (let (sg, s1) = (case s of
            c # r \<Rightarrow> if c = CHR ''-'' then ([c], r) else ([], s) | [] \<Rightarrow> ([], s))
      in case parse_int_part s1 of None \<Rightarrow> None
         | Some (i, s2) \<Rightarrow> (case parse_frac s2 of None \<Rightarrow> None
           | Some (f, s3) \<Rightarrow> (case parse_exp s3 of None \<Rightarrow> None
             | Some (e, s4) \<Rightarrow> Some (sg @ i @ f @ e, s4))))"

definition strip_prefix :: "string \<Rightarrow> string \<Rightarrow> string option" where
  "strip_prefix p s = (if take (length p) s = p then Some (drop (length p) s) else None)"

text \<open>
  The value scanner. The fuel bounds the depth of the recursion; \<open>json_parse\<close> supplies twice the
  length of the input, which is always enough (\<open>parse_fuel_enough\<close>).
\<close>

fun parse_value :: "nat \<Rightarrow> string \<Rightarrow> (json \<times> string) option"
  and parse_elems :: "nat \<Rightarrow> string \<Rightarrow> (json list \<times> string) option"
  and parse_members :: "nat \<Rightarrow> string \<Rightarrow> ((string \<times> json) list \<times> string) option" where
  "parse_value 0 s = None"
| "parse_value (Suc f) s = (case skip_ws s of [] \<Rightarrow> None
     | c # r \<Rightarrow>
         if c = CHR 0x22 then map_option (apfst JStr) (parse_str r)
         else if c = CHR ''{'' then
           (case strip_prefix ''}'' (skip_ws r) of
              Some r' \<Rightarrow> Some (JObj [], r')
            | None \<Rightarrow> map_option (apfst JObj) (parse_members f r))
         else if c = CHR ''['' then
           (case strip_prefix '']'' (skip_ws r) of
              Some r' \<Rightarrow> Some (JArr [], r')
            | None \<Rightarrow> map_option (apfst JArr) (parse_elems f r))
         else if c = CHR ''t'' then map_option (Pair (JBool True)) (strip_prefix ''rue'' r)
         else if c = CHR ''f'' then map_option (Pair (JBool False)) (strip_prefix ''alse'' r)
         else if c = CHR ''n'' then map_option (Pair JNull) (strip_prefix ''ull'' r)
         else map_option (apfst JNum) (parse_number (c # r)))"
| "parse_elems 0 s = None"
| "parse_elems (Suc f) s = (case parse_value f s of None \<Rightarrow> None
     | Some (v, r) \<Rightarrow> (case skip_ws r of [] \<Rightarrow> None
         | c # r' \<Rightarrow>
             if c = CHR '']'' then Some ([v], r')
             else if c = CHR '','' then map_option (apfst (Cons v)) (parse_elems f r')
             else None))"
| "parse_members 0 s = None"
| "parse_members (Suc f) s = (case strip_prefix [CHR 0x22] (skip_ws s) of None \<Rightarrow> None
     | Some s1 \<Rightarrow> (case parse_str s1 of None \<Rightarrow> None
         | Some (k, s2) \<Rightarrow> (case strip_prefix '':'' (skip_ws s2) of None \<Rightarrow> None
             | Some s3 \<Rightarrow> (case parse_value f s3 of None \<Rightarrow> None
                 | Some (v, r) \<Rightarrow> (case skip_ws r of [] \<Rightarrow> None
                     | c # r' \<Rightarrow>
                         if c = CHR ''}'' then Some ([(k, v)], r')
                         else if c = CHR '','' then map_option (apfst (Cons (k, v))) (parse_members f r')
                         else None)))))"

definition json_parse :: "string \<Rightarrow> json option" where
  "json_parse s = (case parse_value (2 * length s + 2) s of
     Some (v, r) \<Rightarrow> if skip_ws r = [] then Some v else None
   | None \<Rightarrow> None)"

section \<open>Strings survive printing and parsing\<close>

lemma char_of_byte_at: "byte_at c = n \<Longrightarrow> c = char_of n"
  using char_of_char [of c, where ?'a = nat] by simp

lemma char_of_escaped:
  "char_of (34 :: nat) = CHR 0x22" "char_of (92 :: nat) = CHR 0x5C" "char_of (8 :: nat) = CHR 0x08"
  "char_of (12 :: nat) = CHR 0x0C" "char_of (10 :: nat) = CHR 0x0A" "char_of (13 :: nat) = CHR 0x0D"
  "char_of (9 :: nat) = CHR 0x09"
  by code_simp+

lemma hex_val_char: "n < 16 \<Longrightarrow> hex_val (hex_char n) = Some n"
  by (cases "n < 10") (simp_all add: hex_val_def hex_char_def Let_def)

lemma str_step_u:
  "a < 16 \<Longrightarrow> b < 16 \<Longrightarrow> a * 16 + b < 128 \<Longrightarrow>
   str_step ([CHR 0x5C, CHR ''u'', CHR ''0'', CHR ''0'', hex_char a, hex_char b] @ s)
     = Some (encode_rune (a * 16 + b), s)"
  using hex_val_char [of a] hex_val_char [of b]
  by (simp add: str_step_def hex4_def hex_val_def [of "CHR ''0''"] unescape_u_def)

lemma str_step_esc_ascii:
  assumes "byte_at c < 128"
  shows "str_step (esc_ascii c @ s) = Some ([c], s)"
proof -
  consider "byte_at c \<in> {34, 92, 8, 12, 10, 13, 9}"
    | "byte_at c \<notin> {34, 92, 8, 12, 10, 13, 9}" "byte_at c < 32 \<or> byte_at c \<in> {60, 62, 38}"
    | "byte_at c \<notin> {34, 92, 8, 12, 10, 13, 9}" "\<not> (byte_at c < 32 \<or> byte_at c \<in> {60, 62, 38})"
    by blast
  then show ?thesis
  proof cases
    case 1
    then show ?thesis
      by (auto dest!: char_of_byte_at simp: char_of_escaped esc_ascii_def str_step_def)
  next
    case 2
    then have "esc_ascii c = [CHR 0x5C, CHR ''u'', CHR ''0'', CHR ''0'',
        hex_char (byte_at c div 16), hex_char (byte_at c mod 16)]"
      by (auto simp: esc_ascii_def Let_def)
    moreover have "byte_at c div 16 < 16" "byte_at c mod 16 < 16"
      "byte_at c div 16 * 16 + byte_at c mod 16 = byte_at c"
      using assms by (simp_all add: less_mult_imp_div_less)
    ultimately show ?thesis
      using str_step_u [of "byte_at c div 16" "byte_at c mod 16" s] assms encode_rune_ascii [OF assms]
      by simp
  next
    case 3
    then have "esc_ascii c = [c]" by (auto simp: esc_ascii_def)
    moreover have "c \<noteq> CHR 0x5C" "c \<noteq> CHR 0x22" using 3 by auto
    ultimately show ?thesis using 3 assms encode_rune_ascii [OF assms]
      by (simp add: str_step_def)
  qed
qed

lemma hd_esc_ascii: "esc_ascii c \<noteq> [] \<and> hd (esc_ascii c) \<noteq> CHR 0x22"
  by (auto simp: esc_ascii_def Let_def)

lemma parse_str_step:
  assumes "str_step s = Some (out, r)" "s \<noteq> []" "hd s \<noteq> CHR 0x22"
  shows "parse_str s = map_option (apfst (append out)) (parse_str r)"
  using assms
  by (cases s) (auto simp: parse_str.simps [of s] parse_str.simps [of "_ # _"] split: option.splits)

lemma str_step_utf8:
  assumes "\<not> byte_at c < 128" "decode_rune (c # cs) = (r, n)" "\<not> (r = rune_error \<and> n = 1)"
  shows "str_step (take n (c # cs) @ s) = Some (encode_rune r, s)"
proof -
  from decode_rune_take [OF assms(2,3), of s]
  have d: "decode_rune (take n (c # cs) @ s) = (r, n)" and n: "1 \<le> n" "n \<le> length (c # cs)"
    by blast+
  from n obtain m where m: "n = Suc m" by (cases n) auto
  have c: "c \<noteq> CHR 0x5C" "c \<noteq> CHR 0x22" "\<not> byte_at c < 32" using assms(1) by auto
  show ?thesis using c d n by (simp add: m str_step_def)
qed

lemma str_step_u4:
  "str_step (esc_fffd @ s) = Some (encode_rune rune_error, s)"
  "str_step ((CHR 0x5C # ''u2028'') @ s) = Some (encode_rune 8232, s)"
  "str_step ((CHR 0x5C # ''u2029'') @ s) = Some (encode_rune 8233, s)"
  by (simp_all add: esc_fffd_def str_step_def hex4_def hex_val_def unescape_u_def rune_error_def)

lemma parse_str_quote_body:
  "parse_str (quote_body s @ CHR 0x22 # rest) = Some (utf8_coerce s, rest)"
proof (induction s rule: quote_body.induct)
  case 1
  then show ?case by (simp add: parse_str.simps)
next
  case (2 c cs)
  show ?case
  proof (cases "byte_at c < 128")
    case True
    have "parse_str (esc_ascii c @ quote_body cs @ CHR 0x22 # rest)
        = map_option (apfst (append [c])) (parse_str (quote_body cs @ CHR 0x22 # rest))"
      using hd_esc_ascii [of c]
      by (intro parse_str_step str_step_esc_ascii True) (simp_all add: hd_append)
    with True "2.IH"(1) show ?thesis by (simp del: utf8_coerce.simps)
  next
    case False
    obtain r n where d: "decode_rune (c # cs) = (r, n)" by fastforce
    define out where "out = (if r = rune_error \<and> n = 1 then esc_fffd
         else if r = 8232 then CHR 0x5C # ''u2028''
         else if r = 8233 then CHR 0x5C # ''u2029''
         else take n (c # cs))"
    let ?X = "quote_body (drop (n - 1) cs) @ CHR 0x22 # rest"
    have "str_step (out @ ?X) = Some (encode_rune r, ?X)"
      using str_step_utf8 [OF False d] str_step_u4 by (auto simp: out_def)
    moreover have "out @ ?X \<noteq> []" "hd (out @ ?X) \<noteq> CHR 0x22"
      using False decode_rune_take [OF d] by (auto simp: out_def esc_fffd_def hd_append take_Cons')
    ultimately have "parse_str (out @ ?X) = map_option (apfst (append (encode_rune r))) (parse_str ?X)"
      by (intro parse_str_step)
    with "2.IH"(2) [OF False d [symmetric] refl] show ?thesis
      using False d by (simp add: out_def)
  qed
qed

section \<open>The fuel of the scanner is enough\<close>

lemma skip_ws_length: "length (skip_ws s) \<le> length s"
  by (simp add: skip_ws_def length_dropWhile_le)

lemma skip_ws_Cons: "skip_ws s = c # r \<Longrightarrow> length r < length s"
  using skip_ws_length [of s] by simp

lemma strip_prefix_length: "strip_prefix p s = Some r \<Longrightarrow> length r \<le> length s"
  by (auto simp: strip_prefix_def split: if_splits)

lemma strip_prefix_length_less: "strip_prefix (c # p) s = Some r \<Longrightarrow> length r < length s"
  by (auto simp: strip_prefix_def split: if_splits) (cases s; simp)

lemma parse_str_length: "parse_str s = Some (x, r) \<Longrightarrow> length r < length s"
proof (induction s arbitrary: x r rule: parse_str.induct)
  case (1 s)
  then show ?case
    by (fastforce simp: parse_str.simps [of s] split: list.splits if_splits option.splits
        dest: str_step_length)
qed

lemma span_digits_length: "span_digits s = (ds, r) \<Longrightarrow> length r \<le> length s \<and> (ds \<noteq> [] \<longrightarrow> length r < length s)"
proof -
  have "length s = length (takeWhile is_digit s) + length (dropWhile is_digit s)"
    by (metis length_append takeWhile_dropWhile_id)
  then show "span_digits s = (ds, r) \<Longrightarrow> ?thesis"
    by (auto simp: span_digits_def)
qed

lemma parse_int_part_length: "parse_int_part s = Some (i, r) \<Longrightarrow> length r < length s"
  by (auto simp: parse_int_part_def span_digits_def length_dropWhile_le less_Suc_eq_le
      split: list.splits if_splits)

lemma parse_frac_length: "parse_frac s = Some (i, r) \<Longrightarrow> length r \<le> length s"
  by (auto simp: parse_frac_def split: list.splits if_splits prod.splits dest!: span_digits_length)

lemma parse_exp_length: "parse_exp s = Some (i, r) \<Longrightarrow> length r \<le> length s"
  by (auto simp: parse_exp_def Let_def split: list.splits if_splits prod.splits dest!: span_digits_length)

lemma parse_number_length: "parse_number s = Some (n, r) \<Longrightarrow> length r < length s"
  by (auto simp: parse_number_def split: list.splits if_splits prod.splits option.splits
      dest!: parse_int_part_length parse_frac_length parse_exp_length)

lemmas scan_lengths =
  skip_ws_Cons strip_prefix_length_less parse_str_length parse_number_length

text \<open>Every production consumes input.\<close>

lemma parse_length:
  "parse_value f s = Some (v, r) \<Longrightarrow> length r < length s"
  "parse_elems f s = Some (vs, r) \<Longrightarrow> length r < length s"
  "parse_members f s = Some (kvs, r) \<Longrightarrow> length r < length s"
proof (induction f arbitrary: s v vs kvs r)
  case 0
  {
    case 1 then show ?case by simp
  next
    case 2 then show ?case by simp
  next
    case 3 then show ?case by simp
  }
next
  case (Suc f)
  {
    case 1
    then obtain c t where c: "skip_ws s = c # t" by (auto split: list.splits)
    have t: "length t < length s" by (rule skip_ws_Cons [OF c])
    have w: "length (skip_ws t) \<le> length t" by (rule skip_ws_length)
    from 1 c consider x where "parse_str t = Some (x, r)" | "strip_prefix ''}'' (skip_ws t) = Some r"
      | m where "parse_members f t = Some (m, r)" | "strip_prefix '']'' (skip_ws t) = Some r"
      | e where "parse_elems f t = Some (e, r)" | "strip_prefix ''rue'' t = Some r"
      | "strip_prefix ''alse'' t = Some r" | "strip_prefix ''ull'' t = Some r"
      | n where "parse_number (c # t) = Some (n, r)"
      by (auto split: if_splits option.splits)
    then show ?case
      using t w
      by cases (auto dest: parse_str_length strip_prefix_length_less Suc.IH parse_number_length)
  next
    case 2
    then obtain v t c u where "parse_value f s = Some (v, t)" "skip_ws t = c # u"
      and u: "r = u \<or> (\<exists>e. parse_elems f u = Some (e, r))"
      by (auto split: option.splits list.splits if_splits)
    then have "length t < length s" "length u < length t"
      by (auto dest: Suc.IH skip_ws_Cons)
    with u show ?case by (auto dest: Suc.IH)
  next
    case 3
    then obtain s1 k s2 s3 v t c u where "strip_prefix [CHR 0x22] (skip_ws s) = Some s1"
      "parse_str s1 = Some (k, s2)" "strip_prefix '':'' (skip_ws s2) = Some s3"
      "parse_value f s3 = Some (v, t)" "skip_ws t = c # u"
      and u: "r = u \<or> (\<exists>e. parse_members f u = Some (e, r))"
      by (auto split: option.splits list.splits if_splits)
    then have "length s1 < length (skip_ws s)" "length s2 < length s1"
      "length s3 < length (skip_ws s2)" "length t < length s3" "length u < length t"
      by (auto dest: Suc.IH scan_lengths)
    then have "length u < length s"
      using skip_ws_length [of s] skip_ws_length [of s2] by linarith
    with u show ?case by (auto dest: Suc.IH)
  }
qed

text \<open>Beyond twice the length of the input, the amount of fuel does not matter.\<close>

lemma parse_fuel_enough:
  "2 * length s + 1 \<le> f \<Longrightarrow> 2 * length s + 1 \<le> g \<Longrightarrow> parse_value f s = parse_value g s"
  "2 * length s + 2 \<le> f \<Longrightarrow> 2 * length s + 2 \<le> g \<Longrightarrow> parse_elems f s = parse_elems g s"
  "2 * length s + 2 \<le> f \<Longrightarrow> 2 * length s + 2 \<le> g \<Longrightarrow> parse_members f s = parse_members g s"
proof (induction f arbitrary: s g)
  case 0
  {
    case 1 then show ?case by simp
  next
    case 2 then show ?case by simp
  next
    case 3 then show ?case by simp
  }
next
  case (Suc f)
  {
    case 1
    then obtain g' where g: "g = Suc g'" by (cases g) auto
    show ?case
    proof (cases "skip_ws s")
      case (Cons c t)
      then have "length t < length s" by (rule skip_ws_Cons)
      then have "parse_elems f t = parse_elems g' t" "parse_members f t = parse_members g' t"
        using 1 by (intro Suc.IH; simp add: g)+
      with Cons show ?thesis by (simp add: g split: option.split)
    qed (simp add: g)
  next
    case 2
    then obtain g' where g: "g = Suc g'" by (cases g) auto
    have v: "parse_value f s = parse_value g' s"
      using 2 by (intro Suc.IH) (simp_all add: g)
    have "parse_elems f u = parse_elems g' u" if "parse_value g' s = Some (x, t)" "skip_ws t = c # u"
      for x t c u
      using 2 parse_length(1) [OF that(1)] skip_ws_Cons [OF that(2)]
      by (intro Suc.IH) (simp_all add: g)
    then show ?case
      by (auto simp: g v split: option.splits list.splits)
  next
    case 3
    then obtain g' where g: "g = Suc g'" by (cases g) auto
    have l: "length s3 < length s" if "strip_prefix [CHR 0x22] (skip_ws s) = Some s1"
        "parse_str s1 = Some (k, s2)" "strip_prefix '':'' (skip_ws s2) = Some s3" for s1 k s2 s3
      using that skip_ws_length [of s] skip_ws_length [of s2] by (fastforce dest: scan_lengths)
    have v: "parse_value f s3 = parse_value g' s3" if "length s3 < length s" for s3
      using 3 that by (intro Suc.IH) (simp_all add: g)
    have m: "parse_members f u = parse_members g' u"
      if "length s3 < length s" "parse_value g' s3 = Some (x, t)" "skip_ws t = c # u" for s3 x t c u
      using 3 that parse_length(1) [OF that(2)] skip_ws_Cons [OF that(3)]
      by (intro Suc.IH) (simp_all add: g)
    show ?case
      by (auto simp: g v [OF l] dest: m [OF l] split: option.splits list.splits)
  }
qed

section \<open>Printing and parsing are inverse\<close>

fun json_coerce :: "json \<Rightarrow> json" where
  "json_coerce (JStr s) = JStr (utf8_coerce s)"
| "json_coerce (JArr vs) = JArr (map json_coerce vs)"
| "json_coerce (JObj kvs) = JObj (map (\<lambda>(k, v). (utf8_coerce k, json_coerce v)) kvs)"
| "json_coerce v = v"

text \<open>The only number literals that are printed are decimal integers.\<close>

fun json_ints :: "json \<Rightarrow> bool" where
  "json_ints (JNum n) \<longleftrightarrow> (\<exists>i. n = show_int i)"
| "json_ints (JArr vs) \<longleftrightarrow> (\<forall>v\<in>set vs. json_ints v)"
| "json_ints (JObj kvs) \<longleftrightarrow> (\<forall>(k, v)\<in>set kvs. json_ints v)"
| "json_ints v \<longleftrightarrow> True"

definition delim :: "string \<Rightarrow> bool" where
  "delim r \<longleftrightarrow> (case r of [] \<Rightarrow> True | c # _ \<Rightarrow> c = CHR '','' \<or> c = CHR '']'' \<or> c = CHR ''}'')"

lemma delim_simps [simp]:
  "delim []" "delim (CHR '','' # r)" "delim (CHR '']'' # r)" "delim (CHR ''}'' # r)"
  by (simp_all add: delim_def)

lemma delim_Cons: "delim (c # r) \<Longrightarrow> c = CHR '','' \<or> c = CHR '']'' \<or> c = CHR ''}''"
  by (simp add: delim_def)

lemma digit_char_zero_iff: "d < 10 \<Longrightarrow> digit_char d = CHR ''0'' \<longleftrightarrow> d = 0"
  by (metis digit_char_0 digit_val_digit_char zero_less_numeral)

lemma hd_show_nat: "0 < n \<Longrightarrow> hd (show_nat n) \<noteq> CHR ''0''"
proof (induction n rule: show_nat.induct)
  case (1 n)
  show ?case
  proof (cases "n < 10")
    case True
    with "1.prems" show ?thesis by (simp add: show_nat.simps [of n] digit_char_zero_iff)
  next
    case False
    then have "0 < n div 10" by simp
    with "1.IH" [OF False] False show ?thesis by (simp add: show_nat.simps [of n] hd_append)
  qed
qed

lemma span_digits_append:
  "list_all is_digit ds \<Longrightarrow> r = [] \<or> \<not> is_digit (hd r) \<Longrightarrow> span_digits (ds @ r) = (ds, r)"
  by (induction ds) (auto simp: span_digits_def list_all_iff dropWhile_eq_self_iff takeWhile_eq_Nil_iff)

lemma parse_int_part_show_nat:
  assumes "r = [] \<or> \<not> is_digit (hd r)"
  shows "parse_int_part (show_nat n @ r) = Some (show_nat n, r)"
proof (cases "n = 0")
  case True
  then show ?thesis by (simp add: show_nat.simps parse_int_part_def)
next
  case False
  obtain c t where c: "show_nat n = c # t" by (cases "show_nat n") simp_all
  have "is_digit c" using show_nat_digits [of n] by (simp add: c)
  moreover have "c \<noteq> CHR ''0''" using hd_show_nat [of n] False by (simp add: c)
  moreover have "span_digits (show_nat n @ r) = (show_nat n, r)"
    by (rule span_digits_append [OF show_nat_digits assms])
  ultimately show ?thesis by (simp add: parse_int_part_def c)
qed

lemma delim_not_digit: "delim r \<Longrightarrow> r = [] \<or> \<not> is_digit (hd r)"
  by (cases r) (auto simp: is_digit_def dest: delim_Cons)

lemma parse_number_show_int: "delim r \<Longrightarrow> parse_number (show_int i @ r) = Some (show_int i, r)"
proof -
  assume r: "delim r"
  then have "parse_frac r = Some ([], r)" "parse_exp r = Some ([], r)"
    by (auto simp: parse_frac_def parse_exp_def split: list.splits dest: delim_Cons)
  moreover obtain c t where c: "show_nat (nat i) = c # t" by (cases "show_nat (nat i)") simp_all
  moreover have "c \<noteq> CHR ''-''" using show_nat_digits [of "nat i"] by (auto simp: c is_digit_def)
  moreover have "parse_int_part (show_nat n @ r) = Some (show_nat n, r)" for n
    by (rule parse_int_part_show_nat [OF delim_not_digit [OF r]])
  moreover from this [of "nat i"] have "parse_int_part (c # t @ r) = Some (c # t, r)"
    by (simp add: c)
  ultimately show ?thesis
    by (cases "i < 0") (simp_all add: parse_number_def show_int_def)
qed

lemma show_int_first: "\<exists>c t. show_int i = c # t \<and> (c = CHR ''-'' \<or> is_digit c)"
proof (cases "i < 0")
  case False
  obtain c t where c: "show_nat (nat i) = c # t" by (cases "show_nat (nat i)") simp_all
  with show_nat_digits [of "nat i"] False show ?thesis by (simp add: show_int_def)
qed (simp add: show_int_def)

definition value_start :: "char \<Rightarrow> bool" where
  "value_start c \<longleftrightarrow> \<not> is_ws c \<and> c \<noteq> CHR '']'' \<and> c \<noteq> CHR ''}''"

lemma json_print_first: "json_ints v \<Longrightarrow> \<exists>c t. json_print v = c # t \<and> value_start c"
  using show_int_first
  by (cases v) (fastforce simp: value_start_def is_ws_def is_digit_def json_quote_def)+

lemma skip_ws_start: "\<not> is_ws c \<Longrightarrow> skip_ws (c # s) = c # s"
  by (simp add: skip_ws_def)

lemma skip_ws_print: "json_ints v \<Longrightarrow> skip_ws (json_print v @ s) = json_print v @ s"
  using json_print_first [of v] by (auto simp: value_start_def skip_ws_start)

lemma skip_ws_delim: "delim r \<Longrightarrow> skip_ws r = r"
  by (cases r) (auto simp: skip_ws_def is_ws_def dest: delim_Cons)

lemma strip_prefix_simps [simp]:
  "strip_prefix [c] (d # s) = (if c = d then Some s else None)" "strip_prefix [c] [] = None"
  by (auto simp: strip_prefix_def)

lemma skip_ws_punct [simp]:
  "skip_ws (CHR '','' # r) = CHR '','' # r" "skip_ws (CHR '']'' # r) = CHR '']'' # r"
  "skip_ws (CHR ''}'' # r) = CHR ''}'' # r" "skip_ws (CHR '':'' # r) = CHR '':'' # r"
  "skip_ws (CHR 0x22 # r) = CHR 0x22 # r" "skip_ws (CHR ''{'' # r) = CHR ''{'' # r"
  "skip_ws (CHR ''['' # r) = CHR ''['' # r"
  by (simp_all add: skip_ws_def is_ws_def)

lemma parse_value_print_scalar:
  "parse_value (Suc f) (json_print JNull @ r) = Some (JNull, r)"
  "parse_value (Suc f) (json_print (JBool b) @ r) = Some (JBool b, r)"
  "parse_value (Suc f) (json_print (JStr s) @ r) = Some (JStr (utf8_coerce s), r)"
  "delim r \<Longrightarrow> parse_value (Suc f) (json_print (JNum (show_int i)) @ r) = Some (JNum (show_int i), r)"
proof -
  show "parse_value (Suc f) (json_print JNull @ r) = Some (JNull, r)"
    by (simp add: skip_ws_start is_ws_def strip_prefix_def)
  show "parse_value (Suc f) (json_print (JBool b) @ r) = Some (JBool b, r)"
    by (simp add: skip_ws_start is_ws_def strip_prefix_def)
  show "parse_value (Suc f) (json_print (JStr s) @ r) = Some (JStr (utf8_coerce s), r)"
    by (simp add: json_quote_def parse_str_quote_body)
  assume r: "delim r"
  obtain c t where c: "show_int i = c # t" "c = CHR ''-'' \<or> is_digit c"
    using show_int_first by blast
  then have "\<not> is_ws c" "c \<noteq> CHR 0x22" "c \<noteq> CHR ''{''" "c \<noteq> CHR ''[''" "c \<noteq> CHR ''t''"
    "c \<noteq> CHR ''f''" "c \<noteq> CHR ''n''"
    by (auto simp: is_ws_def is_digit_def)
  then show "parse_value (Suc f) (json_print (JNum (show_int i)) @ r) = Some (JNum (show_int i), r)"
    using parse_number_show_int [OF r, of i] by (simp add: c skip_ws_start)
qed

text \<open>The step from the parts of an array, an object, an element and a member to the whole.\<close>

lemma parse_array:
  assumes "json_ints (JArr vs)" "vs \<noteq> [] \<Longrightarrow> parse_elems g (print_elems vs @ r) = Some (map json_coerce vs, r)"
  shows "parse_value (Suc g) (json_print (JArr vs) @ r) = Some (json_coerce (JArr vs), r)"
proof (cases vs)
  case (Cons v ws)
  obtain c t where c: "json_print v = c # t" "value_start c"
    using json_print_first [of v] assms(1) Cons by auto
  have "strip_prefix '']'' (skip_ws (print_elems vs @ r)) = None"
    using c by (auto simp: Cons value_start_def skip_ws_start)
  with assms(2) show ?thesis by (simp add: Cons)
qed simp

lemma parse_object:
  assumes "kvs \<noteq> [] \<Longrightarrow> parse_members g (print_members kvs @ r) = Some (map (\<lambda>(k, v). (utf8_coerce k, json_coerce v)) kvs, r)"
  shows "parse_value (Suc g) (json_print (JObj kvs) @ r) = Some (json_coerce (JObj kvs), r)"
proof (cases kvs)
  case (Cons kv kws)
  have "strip_prefix ''}'' (skip_ws (print_members kvs @ r)) = None"
    by (cases kv) (simp add: Cons json_quote_def)
  with assms show ?thesis by (simp add: Cons)
qed simp

lemma parse_elems_step:
  assumes "\<And>t. t = (if vs = [] then '']'' else CHR '','' # print_elems vs) @ r \<Longrightarrow> parse_value g (json_print v @ t) = Some (x, t)"
    and "vs \<noteq> [] \<Longrightarrow> parse_elems g (print_elems vs @ r) = Some (xs, r)" "vs = [] \<Longrightarrow> xs = []"
  shows "parse_elems (Suc g) (print_elems (v # vs) @ r) = Some (x # xs, r)"
  using assms(1) [OF refl] assms(2,3) by simp

lemma parse_members_step:
  assumes "\<And>t. t = (if kvs = [] then ''}'' else CHR '','' # print_members kvs) @ r \<Longrightarrow> parse_value g (json_print v @ t) = Some (x, t)"
    and "kvs \<noteq> [] \<Longrightarrow> parse_members g (print_members kvs @ r) = Some (xs, r)" "kvs = [] \<Longrightarrow> xs = []"
  shows "parse_members (Suc g) (print_members ((k, v) # kvs) @ r) = Some ((utf8_coerce k, x) # xs, r)"
  using assms(1) [OF refl] assms(2,3) by (simp add: json_quote_def parse_str_quote_body)

lemma parse_print:
  "json_ints v \<Longrightarrow> delim r \<Longrightarrow> 2 * length (json_print v @ r) + 1 \<le> f \<Longrightarrow>
     parse_value f (json_print v @ r) = Some (json_coerce v, r)"
  "vs \<noteq> [] \<Longrightarrow> \<forall>v\<in>set vs. json_ints v \<Longrightarrow> 2 * length (print_elems vs @ r) + 2 \<le> f \<Longrightarrow>
     parse_elems f (print_elems vs @ r) = Some (map json_coerce vs, r)"
  "kvs \<noteq> [] \<Longrightarrow> \<forall>(k, v)\<in>set kvs. json_ints v \<Longrightarrow> 2 * length (print_members kvs @ r) + 2 \<le> f \<Longrightarrow>
     parse_members f (print_members kvs @ r)
       = Some (map (\<lambda>(k, v). (utf8_coerce k, json_coerce v)) kvs, r)"
proof (induction v and vs and kvs arbitrary: r f and r f and r f
    rule: json_print_print_elems_print_members.induct)
  case 1
  then obtain g where "f = Suc g" by (cases f) auto
  then show ?case using parse_value_print_scalar(1) [of g r] by simp
next
  case (2 b)
  then obtain g where "f = Suc g" by (cases f) auto
  then show ?case using parse_value_print_scalar(2) [of g b r] by simp
next
  case (3 n)
  then obtain g i where "f = Suc g" "n = show_int i" by (cases f) auto
  then show ?case using parse_value_print_scalar(4) [OF \<open>delim r\<close>, of g i] by simp
next
  case (4 s)
  then obtain g where "f = Suc g" by (cases f) auto
  then show ?case using parse_value_print_scalar(3) [of g s r] by simp
next
  case (5 vs)
  then obtain g where f: "f = Suc g" by (cases f) auto
  show ?case unfolding f using "5.prems" by (intro parse_array "5.IH") (auto simp: f)
next
  case (6 kvs)
  then obtain g where f: "f = Suc g" by (cases f) auto
  show ?case unfolding f using "6.prems" by (intro parse_object "6.IH") (auto simp: f)
next
  case 7
  then show ?case by simp
next
  case (8 v vs)
  then obtain g where f: "f = Suc g" by (cases f) auto
  show ?case unfolding f list.map using "8.prems" by (intro parse_elems_step "8.IH") (auto simp: f split: if_splits)
next
  case 9
  then show ?case by simp
next
  case (10 k v kvs)
  then obtain g where f: "f = Suc g" by (cases f) auto
  show ?case unfolding f list.map prod.case using "10.prems"
    by (intro parse_members_step "10.IH") (auto simp: f split: if_splits)
qed

theorem json_parse_print: "json_ints v \<Longrightarrow> json_parse (json_print v) = Some (json_coerce v)"
  using parse_print(1) [of v "[]" "2 * length (json_print v) + 2"]
  by (simp add: json_parse_def skip_ws_def)

section \<open>Decoded strings are valid UTF-8\<close>

lemma str_step_utf8_ok: "str_step s = Some (out, r) \<Longrightarrow> utf8_coerce (out @ y) = out @ utf8_coerce y"
  by (auto simp: str_step_def unescape_u_def Let_def utf8_coerce_encode_rune
      simp del: utf8_coerce.simps
      split: list.splits if_splits option.splits prod.splits)

lemma parse_str_utf8_ok: "parse_str s = Some (x, r) \<Longrightarrow> utf8_ok x"
proof (induction s arbitrary: x r rule: parse_str.induct)
  case (1 s)
  show ?case
  proof (cases s)
    case Nil
    with "1.prems" show ?thesis by (simp add: parse_str.simps)
  next
    case (Cons c t)
    show ?thesis
    proof (cases "c = CHR 0x22")
      case True
      with "1.prems" Cons show ?thesis by (simp add: parse_str.simps)
    next
      case False
      with "1.prems" Cons obtain out r' y where
        "str_step s = Some (out, r')" "parse_str r' = Some (y, r)" "x = out @ y"
        by (auto simp: parse_str.simps [of "c # t"] split: option.splits)
      then show ?thesis
        using "1.IH" [OF Cons False, of "(out, r')" out r' y r] str_step_utf8_ok [of s out r' y]
        by (simp add: utf8_ok_def)
    qed
  qed
qed

lemma parse_utf8_ok:
  "parse_value f s = Some (v, r) \<Longrightarrow> json_coerce v = v"
  "parse_elems f s = Some (vs, r) \<Longrightarrow> map json_coerce vs = vs"
  "parse_members f s = Some (kvs, r) \<Longrightarrow> map (\<lambda>(k, v). (utf8_coerce k, json_coerce v)) kvs = kvs"
proof (induction f arbitrary: s v vs kvs r)
  case 0
  {
    case 1 then show ?case by simp
  next
    case 2 then show ?case by simp
  next
    case 3 then show ?case by simp
  }
next
  case (Suc f)
  {
    case 1
    then show ?case
      by (auto split: list.splits if_splits option.splits
          dest!: Suc.IH parse_str_utf8_ok simp: utf8_ok_def)
  next
    case 2
    then show ?case
      by (auto split: option.splits list.splits if_splits dest!: Suc.IH)
  next
    case 3
    then show ?case
      by (auto split: option.splits list.splits if_splits dest!: Suc.IH parse_str_utf8_ok
          simp: utf8_ok_def)
  }
qed

lemma json_parse_utf8_ok: "json_parse s = Some v \<Longrightarrow> json_coerce v = v"
  by (auto simp: json_parse_def simp del: parse_value.simps split: option.splits if_splits
      dest!: parse_utf8_ok(1))

end
