(* ===== verification/Roo_Types.thy ===== *)
theory Roo_Types
  imports Go_Json
begin

text \<open>
  The data of \<open>typedefs.go\<close> and \<open>permissions.go\<close> that is stored or sent: key-value records,
  commands and batches, permissions and authorization requests; the constants of \<open>constants.go\<close>;
  and \<open>json.Marshal\<close> / \<open>json.Unmarshal\<close> at these types.

  Decoding follows \<open>encoding/json\<close>: member names match case-insensitively, unknown members are
  skipped, \<open>null\<close> clears a pointer or a slice and leaves other fields alone, and a type mismatch
  is reported at the end while the rest of the value is still decoded, so that the target may be
  partly filled when an error is returned. A decoder therefore maps the old value of the target to
  its new value and a flag that is \<open>True\<close> when no error was found.
\<close>

section \<open>Records\<close>

record KVData =
  Key :: string
  Val :: slice

text \<open>\<open>KVBatch.Batch\<close> is a slice of pointers: both the slice and each element may be nil.\<close>

record KVBatch =
  kb_Action :: string
  kb_Batch :: "KVData option list option"

record KVAction =
  ka_Action :: string
  ka_Data :: "KVData option"

record TypedString =
  ts_Val :: string
  ts_Rune :: int

record Permission =
  p_Entity :: TypedString
  p_Context :: TypedString
  p_Action :: TypedString
  p_Right :: slice
  p_Delete :: bool

record Request =
  r_User :: TypedString
  r_Entities :: "TypedString list"
  r_Resource :: TypedString
  r_Action :: TypedString
  r_Right :: slice

section \<open>Constants\<close>

abbreviation (input) act_PUT :: string where "act_PUT \<equiv> ''PUT''"
abbreviation (input) act_GET :: string where "act_GET \<equiv> ''GET''"
abbreviation (input) act_SCAN :: string where "act_SCAN \<equiv> ''SCAN''"
abbreviation (input) act_REVERSE_SCAN :: string where "act_REVERSE_SCAN \<equiv> ''REVERSE''"

definition appliedIndexKey :: string where
  "appliedIndexKey = ''disk_kv_applied_index''"

definition testDBDirName :: string where
  "testDBDirName = ''cluster-data''"

definition currentDBFilename :: string where
  "currentDBFilename = ''current''"

definition updatingDBFilename :: string where
  "updatingDBFilename = ''current.updating''"

definition CACHE_PREFIX :: string where
  "CACHE_PREFIX = ''com.roo.cache:''"

definition HOST_PREFIX :: string where
  "HOST_PREFIX = ''com.roo.host:''"

definition PEER_PREFIX :: string where
  "PEER_PREFIX = ''com.roo.peer:''"

definition SWARM_MANAGER_PREFIX :: string where
  "SWARM_MANAGER_PREFIX = ''com.roo.swarm.manager:''"

definition SWARM_WORKER_PREFIX :: string where
  "SWARM_WORKER_PREFIX = ''com.roo.swarm.worker:''"

definition ROO_STARTED :: string where
  "ROO_STARTED = ''com.roo.started''"

definition NODE_POSTFIX :: string where
  "NODE_POSTFIX = '':node''"

definition KV_PORT :: string where
  "KV_PORT = '':6300''"

section \<open>json.Marshal\<close>

definition json_Marshal :: "json \<Rightarrow> bytes" where
  "json_Marshal v = str_bytes (json_print v)"

definition slice_json :: "slice \<Rightarrow> json" where
  "slice_json s = (case s of None \<Rightarrow> JNull | Some bs \<Rightarrow> JStr (b64_encode bs))"

definition KVData_json :: "KVData \<Rightarrow> json" where
  "KVData_json kv = JObj [(''Key'', JStr (Key kv)), (''Val'', slice_json (Val kv))]"

definition KVDataPtr_json :: "KVData option \<Rightarrow> json" where
  "KVDataPtr_json p = (case p of None \<Rightarrow> JNull | Some kv \<Rightarrow> KVData_json kv)"

definition KVBatch_json :: "KVBatch \<Rightarrow> json" where
  "KVBatch_json b = JObj [(''Action'', JStr (kb_Action b)),
     (''Batch'', case kb_Batch b of None \<Rightarrow> JNull | Some ps \<Rightarrow> JArr (map KVDataPtr_json ps))]"

definition KVAction_json :: "KVAction \<Rightarrow> json" where
  "KVAction_json a = JObj [(''Action'', JStr (ka_Action a)), (''Data'', KVDataPtr_json (ka_Data a))]"

section \<open>json.Unmarshal\<close>

type_synonym 'a decoder = "'a \<Rightarrow> json \<Rightarrow> 'a \<times> bool"

definition to_upper :: "char \<Rightarrow> char" where
  "to_upper c = (if 97 \<le> byte_at c \<and> byte_at c \<le> 122 then char_of (byte_at c - 32) else c)"

text \<open>
  Member names are compared after case folding; the long s (U+017F) and the Kelvin sign (U+212A)
  fold to the ASCII letters S and K.
\<close>

fun fold_name :: "string \<Rightarrow> string" where
  "fold_name [] = []"
| "fold_name (c # cs) =
     (if c = CHR 0xC5 \<and> take 1 cs = [CHR 0xBF] then CHR ''S'' # fold_name (drop 1 cs)
      else if c = CHR 0xE2 \<and> take 2 cs = [CHR 0x84, CHR 0xAA] then CHR ''K'' # fold_name (drop 2 cs)
      else to_upper c # fold_name cs)"

definition dec_string :: "string decoder" where
  "dec_string old v = (case v of JStr s \<Rightarrow> (s, True) | JNull \<Rightarrow> (old, True) | _ \<Rightarrow> (old, False))"

definition dec_bool :: "bool decoder" where
  "dec_bool old v = (case v of JBool b \<Rightarrow> (b, True) | JNull \<Rightarrow> (old, True) | _ \<Rightarrow> (old, False))"

text \<open>\<open>strconv.ParseInt(s, 10, 64)\<close> on a JSON number literal.\<close>

definition parse_int64 :: "string \<Rightarrow> int option" where
  "parse_int64 s = (case s of [] \<Rightarrow> None
     | c # r \<Rightarrow>
         if c = CHR ''-'' then
           (if r \<noteq> [] \<and> list_all is_digit r \<and> digits_val r \<le> 2 ^ 63
            then Some (- int (digits_val r)) else None)
         else if list_all is_digit s \<and> digits_val s < 2 ^ 63 then Some (int (digits_val s)) else None)"

definition dec_rune :: "int decoder" where
  "dec_rune old v = (case v of
     JNum n \<Rightarrow> (case parse_int64 n of
         Some i \<Rightarrow> if - (2 ^ 31) \<le> i \<and> i < 2 ^ 31 then (i, True) else (old, False)
       | None \<Rightarrow> (old, False))
   | JNull \<Rightarrow> (old, True)
   | _ \<Rightarrow> (old, False))"

text \<open>A byte of a JSON array of numbers; the element of the fresh slice is zero before.\<close>

definition dec_byte :: "json \<Rightarrow> byte \<times> bool" where
  "dec_byte v = (case v of
     JNum n \<Rightarrow> (case parse_uint64 n of
         Some w \<Rightarrow> if unat w < 256 then (of_nat (unat w), True) else (0, False)
       | None \<Rightarrow> (0, False))
   | JNull \<Rightarrow> (0, True)
   | _ \<Rightarrow> (0, False))"

definition dec_slice :: "slice decoder" where
  "dec_slice old v = (case v of
     JNull \<Rightarrow> (None, True)
   | JStr s \<Rightarrow> (case b64_decode s of Some bs \<Rightarrow> (Some bs, True) | None \<Rightarrow> (old, False))
   | JArr vs \<Rightarrow> (Some (map (fst \<circ> dec_byte) vs), list_all (snd \<circ> dec_byte) vs)
   | _ \<Rightarrow> (old, False))"

text \<open>A struct: the members in order, each into the field its name selects.\<close>

fun dec_members :: "(string \<Rightarrow> 'a decoder) \<Rightarrow> 'a \<Rightarrow> (string \<times> json) list \<Rightarrow> 'a \<times> bool" where
  "dec_members fld old [] = (old, True)"
| "dec_members fld old ((k, v) # kvs) =
     (let (x, ok) = fld (fold_name k) old v; (y, ok') = dec_members fld x kvs in (y, ok \<and> ok'))"

definition dec_struct :: "(string \<Rightarrow> 'a decoder) \<Rightarrow> 'a decoder" where
  "dec_struct fld old v = (case v of
     JObj kvs \<Rightarrow> dec_members fld old kvs | JNull \<Rightarrow> (old, True) | _ \<Rightarrow> (old, False))"

text \<open>A pointer: \<open>null\<close> makes it nil, anything else allocates the target first.\<close>

definition dec_ptr :: "'a \<Rightarrow> 'a decoder \<Rightarrow> 'a option decoder" where
  "dec_ptr zero dec old v = (case v of
     JNull \<Rightarrow> (None, True)
   | _ \<Rightarrow> (let (x, ok) = dec (case old of Some x \<Rightarrow> x | None \<Rightarrow> zero) v in (Some x, ok)))"

definition dec_list :: "'a \<Rightarrow> 'a decoder \<Rightarrow> 'a list option decoder" where
  "dec_list zero dec old v = (case v of
     JNull \<Rightarrow> (None, True)
   | JArr vs \<Rightarrow> (Some (map (fst \<circ> dec zero) vs), list_all (snd \<circ> dec zero) vs)
   | _ \<Rightarrow> (old, False))"

text \<open>A decoder applied to one field of a struct.\<close>

definition dec_field :: "('a \<Rightarrow> 'b) \<Rightarrow> ('b \<Rightarrow> 'a \<Rightarrow> 'a) \<Rightarrow> 'b decoder \<Rightarrow> 'a decoder" where
  "dec_field get put dec old v = (let (x, ok) = dec (get old) v in (put x old, ok))"

definition zero_KVData :: KVData where
  "zero_KVData = \<lparr>Key = [], Val = None\<rparr>"

definition dec_KVData :: "KVData decoder" where
  "dec_KVData = dec_struct (\<lambda>k.
     if k = ''KEY'' then dec_field Key (\<lambda>x r. r\<lparr>Key := x\<rparr>) dec_string
     else if k = ''VAL'' then dec_field Val (\<lambda>x r. r\<lparr>Val := x\<rparr>) dec_slice
     else (\<lambda>old v. (old, True)))"

definition zero_KVBatch :: KVBatch where
  "zero_KVBatch = \<lparr>kb_Action = [], kb_Batch = None\<rparr>"

definition dec_KVBatch :: "KVBatch decoder" where
  "dec_KVBatch = dec_struct (\<lambda>k.
     if k = ''ACTION'' then dec_field kb_Action (\<lambda>x r. r\<lparr>kb_Action := x\<rparr>) dec_string
     else if k = ''BATCH'' then
       dec_field kb_Batch (\<lambda>x r. r\<lparr>kb_Batch := x\<rparr>) (dec_list None (dec_ptr zero_KVData dec_KVData))
     else (\<lambda>old v. (old, True)))"

definition dec_KVAction :: "KVAction decoder" where
  "dec_KVAction = dec_struct (\<lambda>k.
     if k = ''ACTION'' then dec_field ka_Action (\<lambda>x r. r\<lparr>ka_Action := x\<rparr>) dec_string
     else if k = ''DATA'' then
       dec_field ka_Data (\<lambda>x r. r\<lparr>ka_Data := x\<rparr>) (dec_ptr zero_KVData dec_KVData)
     else (\<lambda>old v. (old, True)))"

definition zero_TypedString :: TypedString where
  "zero_TypedString = \<lparr>ts_Val = [], ts_Rune = 0\<rparr>"

definition dec_TypedString :: "TypedString decoder" where
  "dec_TypedString = dec_struct (\<lambda>k.
     if k = ''VAL'' then dec_field ts_Val (\<lambda>x r. r\<lparr>ts_Val := x\<rparr>) dec_string
     else if k = ''RUNE'' then dec_field ts_Rune (\<lambda>x r. r\<lparr>ts_Rune := x\<rparr>) dec_rune
     else (\<lambda>old v. (old, True)))"

definition zero_Permission :: Permission where
  "zero_Permission = \<lparr>p_Entity = zero_TypedString, p_Context = zero_TypedString,
     p_Action = zero_TypedString, p_Right = None, p_Delete = False\<rparr>"

definition dec_Permission :: "Permission decoder" where
  "dec_Permission = dec_struct (\<lambda>k.
     if k = ''ENTITY'' then dec_field p_Entity (\<lambda>x r. r\<lparr>p_Entity := x\<rparr>) dec_TypedString
     else if k = ''CONTEXT'' then dec_field p_Context (\<lambda>x r. r\<lparr>p_Context := x\<rparr>) dec_TypedString
     else if k = ''ACTION'' then dec_field p_Action (\<lambda>x r. r\<lparr>p_Action := x\<rparr>) dec_TypedString
     else if k = ''RIGHT'' then dec_field p_Right (\<lambda>x r. r\<lparr>p_Right := x\<rparr>) dec_slice
     else if k = ''DELETE'' then dec_field p_Delete (\<lambda>x r. r\<lparr>p_Delete := x\<rparr>) dec_bool
     else (\<lambda>old v. (old, True)))"

definition zero_Request :: Request where
  "zero_Request = \<lparr>r_User = zero_TypedString, r_Entities = [], r_Resource = zero_TypedString,
     r_Action = zero_TypedString, r_Right = None\<rparr>"

text \<open>A nil and an empty list of entities are indistinguishable to the code, which only ranges over it.\<close>

definition dec_Request :: "Request decoder" where
  "dec_Request = dec_struct (\<lambda>k.
     if k = ''USER'' then dec_field r_User (\<lambda>x r. r\<lparr>r_User := x\<rparr>) dec_TypedString
     else if k = ''ENTITIES'' then
       dec_field (\<lambda>r. Some (r_Entities r))
         (\<lambda>x r. r\<lparr>r_Entities := (case x of None \<Rightarrow> [] | Some es \<Rightarrow> es)\<rparr>)
         (dec_list zero_TypedString dec_TypedString)
     else if k = ''RESOURCE'' then dec_field r_Resource (\<lambda>x r. r\<lparr>r_Resource := x\<rparr>) dec_TypedString
     else if k = ''ACTION'' then dec_field r_Action (\<lambda>x r. r\<lparr>r_Action := x\<rparr>) dec_TypedString
     else if k = ''RIGHT'' then dec_field r_Right (\<lambda>x r. r\<lparr>r_Right := x\<rparr>) dec_slice
     else (\<lambda>old v. (old, True)))"

text \<open>\<open>json.Unmarshal(data, &x)\<close>: a syntax error leaves the target untouched.\<close>

definition json_Unmarshal :: "'a decoder \<Rightarrow> bytes \<Rightarrow> 'a \<Rightarrow> 'a \<times> bool" where
  "json_Unmarshal dec data old =
     (case json_parse (bytes_str data) of None \<Rightarrow> (old, False) | Some v \<Rightarrow> dec old v)"

section \<open>Round trips\<close>

declare fold_name.simps [simp del] utf8_coerce.simps(2) [simp del]

lemma b64_encode_chars: "c \<in> set (b64_encode bs) \<Longrightarrow> c = CHR ''='' \<or> (\<exists>n. c = b64_char n)"
  by (induction bs rule: b64_encode.induct) (auto simp: Let_def)

lemma b64_char_ascii: "byte_at (b64_char n) < 128"
proof -
  have "n mod 64 < 64" by simp
  then show ?thesis by (auto simp: b64_char_def Let_def)
qed

lemma is_ascii_b64_encode: "is_ascii (b64_encode bs)"
  by (auto simp: is_ascii_def list_all_iff dest!: b64_encode_chars intro: b64_char_ascii)

lemma b64_decode_encode [simp]: "b64_decode (b64_encode bs) = Some bs"
proof -
  have "filter (\<lambda>c. c \<noteq> CHR 0x0A \<and> c \<noteq> CHR 0x0D) (b64_encode bs) = b64_encode bs"
    by (rule filter_True) (auto dest!: b64_encode_chars)
  then show ?thesis by (simp add: b64_decode_def b64_quanta_encode)
qed

lemma utf8_coerce_b64 [simp]: "utf8_coerce (b64_encode bs) = b64_encode bs"
  using utf8_ok_ascii [OF is_ascii_b64_encode] by (simp add: utf8_ok_def)

lemma dec_slice_json [simp]: "dec_slice old (json_coerce (slice_json s)) = (s, True)"
  by (cases s) (simp_all add: slice_json_def dec_slice_def)

lemma slice_json_ints [simp]: "json_ints (slice_json s)"
  by (cases s) (simp_all add: slice_json_def)

lemma json_ints_KVData [simp]: "json_ints (KVData_json kv)"
  by (simp add: KVData_json_def)

lemma json_ints_KVDataPtr [simp]: "json_ints (KVDataPtr_json p)"
  by (cases p) (simp_all add: KVDataPtr_json_def)

lemma json_ints_KVBatch [simp]: "json_ints (KVBatch_json b)"
  by (auto simp: KVBatch_json_def split: option.splits)

lemma json_ints_KVAction [simp]: "json_ints (KVAction_json a)"
  by (simp add: KVAction_json_def)

lemma Unmarshal_Marshal:
  "json_ints v \<Longrightarrow> json_Unmarshal dec (json_Marshal v) old = dec old (json_coerce v)"
  by (simp add: json_Unmarshal_def json_Marshal_def json_parse_print)

lemma fold_name_fields [simp]:
  "fold_name ''Key'' = ''KEY''" "fold_name ''Val'' = ''VAL''"
  "fold_name ''Action'' = ''ACTION''" "fold_name ''Batch'' = ''BATCH''"
  "fold_name ''Data'' = ''DATA''"
  by code_simp+

lemma utf8_coerce_fields [simp]:
  "utf8_coerce ''Key'' = ''Key''" "utf8_coerce ''Val'' = ''Val''"
  "utf8_coerce ''Action'' = ''Action''" "utf8_coerce ''Batch'' = ''Batch''"
  "utf8_coerce ''Data'' = ''Data''"
  by (simp_all add: utf8_ok_ascii [unfolded utf8_ok_def is_ascii_def])

definition coerce_KVData :: "KVData \<Rightarrow> KVData" where
  "coerce_KVData kv = kv\<lparr>Key := utf8_coerce (Key kv)\<rparr>"

lemma coerce_KVData_ok: "utf8_ok (Key kv) \<Longrightarrow> coerce_KVData kv = kv"
  by (simp add: coerce_KVData_def utf8_ok_def)

lemma dec_KVData_json [simp]:
  "dec_KVData old (json_coerce (KVData_json kv)) = (coerce_KVData kv, True)"
  by (simp add: dec_KVData_def KVData_json_def dec_struct_def dec_field_def dec_string_def
      coerce_KVData_def)

lemma KVDataPtr_json_not_null [simp]: "json_coerce (KVData_json kv) \<noteq> JNull"
  by (simp add: KVData_json_def)

lemma dec_ptr_KVData [simp]:
  "dec_ptr zero_KVData dec_KVData old (json_coerce (KVDataPtr_json p)) = (map_option coerce_KVData p, True)"
proof (cases p)
  case (Some kv)
  have "dec_ptr zero_KVData dec_KVData old v = (let (x, ok) = dec_KVData
      (case old of Some x \<Rightarrow> x | None \<Rightarrow> zero_KVData) v in (Some x, ok))" if "v \<noteq> JNull" for v
    using that by (cases v) (simp_all add: dec_ptr_def)
  with Some show ?thesis by (simp add: KVDataPtr_json_def)
qed (simp add: KVDataPtr_json_def dec_ptr_def)

text \<open>What the state machine reads back from each kind of command.\<close>

lemma dec_KVBatch_json:
  "dec_KVBatch zero_KVBatch (json_coerce (KVBatch_json \<lparr>kb_Action = a, kb_Batch = Some (map Some kvs)\<rparr>))
     = (\<lparr>kb_Action = utf8_coerce a, kb_Batch = Some (map (Some \<circ> coerce_KVData) kvs)\<rparr>, True)"
proof -
  let ?d = "dec_ptr zero_KVData dec_KVData None"
  have "map (fst \<circ> ?d) (map json_coerce (map KVDataPtr_json (map Some kvs))) = map (Some \<circ> coerce_KVData) kvs"
    by simp
  moreover have "list_all (snd \<circ> ?d) (map json_coerce (map KVDataPtr_json (map Some kvs)))"
    by (simp add: list_all_iff)
  ultimately show ?thesis
    by (simp add: dec_KVBatch_def KVBatch_json_def dec_struct_def dec_field_def dec_string_def
        dec_list_def zero_KVBatch_def)
qed

lemma dec_KVBatch_other:
  "dec_KVBatch old (json_coerce (KVData_json kv)) = (old, True)"
  "dec_KVBatch old (json_coerce (KVAction_json a)) = (old\<lparr>kb_Action := utf8_coerce (ka_Action a)\<rparr>, True)"
  by (simp_all add: dec_KVBatch_def KVData_json_def KVAction_json_def dec_struct_def dec_field_def
      dec_string_def)

lemma dec_KVAction_json:
  "dec_KVAction old (json_coerce (KVAction_json a))
     = (\<lparr>ka_Action = utf8_coerce (ka_Action a), ka_Data = map_option coerce_KVData (ka_Data a)\<rparr>, True)"
  "dec_KVAction old (json_coerce (KVData_json kv)) = (old, True)"
  by (simp_all add: dec_KVAction_def KVData_json_def KVAction_json_def dec_struct_def dec_field_def
      dec_string_def)

text \<open>Decoded keys are valid UTF-8: a key can only enter the store through a JSON command.\<close>

definition utf8_ptr :: "KVData option \<Rightarrow> bool" where
  "utf8_ptr p \<longleftrightarrow> (case p of None \<Rightarrow> True | Some kv \<Rightarrow> utf8_ok (Key kv))"

lemma dec_members_inv:
  assumes "\<And>k v old x ok. (k, v) \<in> set kvs \<Longrightarrow> I old \<Longrightarrow> fld (fold_name k) old v = (x, ok) \<Longrightarrow> I x"
    and "I old" and "dec_members fld old kvs = (y, ok)"
  shows "I y"
  using assms
proof (induction kvs arbitrary: old y ok)
  case (Cons kv kvs)
  obtain k v where kv: "kv = (k, v)" by fastforce
  obtain x b where x: "fld (fold_name k) old v = (x, b)" by fastforce
  obtain z c where z: "dec_members fld x kvs = (z, c)" by fastforce
  have "I x" using Cons.prems(1) [of k v old x b] Cons.prems(2) x by (simp add: kv)
  then have "I z"
    by (rule Cons.IH [OF Cons.prems(1) _ z, rotated -1]) (simp_all add: kv)
  moreover have "y = z" using Cons.prems(3) by (simp add: kv x z)
  ultimately show ?case by simp
qed simp

lemma json_coerce_fixed:
  "json_coerce (JObj kvs) = JObj kvs \<Longrightarrow> (k, w) \<in> set kvs \<Longrightarrow> json_coerce w = w"
  "json_coerce (JArr vs) = JArr vs \<Longrightarrow> w \<in> set vs \<Longrightarrow> json_coerce w = w"
  by (auto dest!: map_eq_conv [THEN iffD1, of _ _ id, simplified])

lemma dec_struct_inv:
  assumes "dec_struct fld old v = (y, ok)" "json_coerce v = v" "I old"
    and "\<And>k w old x ok. json_coerce w = w \<Longrightarrow> I old \<Longrightarrow> fld k old w = (x, ok) \<Longrightarrow> I x"
  shows "I y"
proof (cases v)
  case (JObj kvs)
  show ?thesis
  proof (rule dec_members_inv [where I = I and fld = fld and kvs = kvs])
    fix k w old x ok
    assume "(k, w) \<in> set kvs" "I old" "fld (fold_name k) old w = (x, ok)"
    then show "I x" using assms(2,4) json_coerce_fixed(1) JObj by blast
  next
    show "dec_members fld old kvs = (y, ok)" using assms(1) by (simp add: dec_struct_def JObj)
  qed (rule assms(3))
qed (use assms in \<open>auto simp: dec_struct_def\<close>)

lemma dec_KVData_utf8:
  assumes "dec_KVData old v = (kv, ok)" "json_coerce v = v" "utf8_ok (Key old)"
  shows "utf8_ok (Key kv)"
  using assms(1) [unfolded dec_KVData_def] assms(2,3)
  by (rule dec_struct_inv [where I = "\<lambda>kv. utf8_ok (Key kv)"])
    (auto simp: dec_field_def dec_string_def utf8_ok_def split: if_splits prod.splits json.splits)

lemma dec_ptr_utf8:
  assumes "dec_ptr zero_KVData dec_KVData old v = (p, ok)" "json_coerce v = v" "utf8_ptr old"
  shows "utf8_ptr p"
proof (cases "v = JNull")
  case False
  then obtain kv where "p = Some kv"
    "dec_KVData (case old of Some x \<Rightarrow> x | None \<Rightarrow> zero_KVData) v = (kv, ok)"
    using assms(1) by (cases v) (auto simp: dec_ptr_def split: prod.splits)
  moreover have "utf8_ok (Key (case old of Some x \<Rightarrow> x | None \<Rightarrow> zero_KVData))"
    using assms(3) by (simp add: utf8_ptr_def zero_KVData_def split: option.splits)
  ultimately show ?thesis using dec_KVData_utf8 assms(2) by (simp add: utf8_ptr_def)
qed (use assms(1) in \<open>auto simp: dec_ptr_def utf8_ptr_def\<close>)

definition utf8_ptrs :: "KVData option list option \<Rightarrow> bool" where
  "utf8_ptrs b \<longleftrightarrow> (case b of None \<Rightarrow> True | Some ps \<Rightarrow> list_all utf8_ptr ps)"

lemma dec_list_utf8:
  assumes "dec_list None (dec_ptr zero_KVData dec_KVData) old v = (ps, ok)" "json_coerce v = v"
    "utf8_ptrs old"
  shows "utf8_ptrs ps"
proof (cases v)
  case (JArr vs)
  have "utf8_ptr (fst (dec_ptr zero_KVData dec_KVData None w))" if "w \<in> set vs" for w
  proof (rule dec_ptr_utf8)
    show "dec_ptr zero_KVData dec_KVData None w = (fst (dec_ptr zero_KVData dec_KVData None w),
        snd (dec_ptr zero_KVData dec_KVData None w))" by simp
    show "json_coerce w = w" using json_coerce_fixed(2) assms(2) that JArr by blast
    show "utf8_ptr None" by (simp add: utf8_ptr_def)
  qed
  then show ?thesis using assms(1) JArr by (auto simp: dec_list_def utf8_ptrs_def list_all_iff)
qed (use assms in \<open>auto simp: dec_list_def utf8_ptrs_def\<close>)

lemma dec_KVBatch_utf8:
  assumes "dec_KVBatch old v = (b, ok)" "json_coerce v = v" "utf8_ptrs (kb_Batch old)"
  shows "utf8_ptrs (kb_Batch b)"
  using assms(1) [unfolded dec_KVBatch_def] assms(2,3)
  by (rule dec_struct_inv [where I = "\<lambda>b. utf8_ptrs (kb_Batch b)"])
    (auto simp: dec_field_def dec_list_utf8 split: if_splits prod.splits)

lemma dec_KVAction_utf8:
  assumes "dec_KVAction old v = (a, ok)" "json_coerce v = v" "utf8_ptr (ka_Data old)"
  shows "utf8_ptr (ka_Data a)"
  using assms(1) [unfolded dec_KVAction_def] assms(2,3)
  by (rule dec_struct_inv [where I = "\<lambda>a. utf8_ptr (ka_Data a)"])
    (auto simp: dec_field_def dec_ptr_utf8 split: if_splits prod.splits)

text \<open>The same through \<open>json.Unmarshal\<close>, whatever the bytes are.\<close>

lemma Unmarshal_inv:
  assumes "json_Unmarshal dec data old = (y, ok)" "I old"
    and "\<And>v ok y. json_coerce v = v \<Longrightarrow> dec old v = (y, ok) \<Longrightarrow> I y"
  shows "I y"
  using assms by (auto simp: json_Unmarshal_def split: option.splits dest: json_parse_utf8_ok)

end
