(* ===== verification/Pebble_Store.thy ===== *)
theory Pebble_Store
  imports Roo_Types
begin

text \<open>
  The storage engine. The code of Pebble is not part of the repository: its operations are the
  fields of a record that every definition using them takes as an argument, and what the program
  relies on is the locale \<open>pebble_db\<close>, which states the documented behaviour. A database is an
  ordered map from byte strings to byte strings; \<open>Get\<close> reports \<open>ErrNotFound\<close> for an absent key,
  an iterator visits the pairs within its bounds in ascending key order, \<open>SeekGE\<close> positions it at
  the first key that is not smaller, and a batch is applied atomically or not at all.

  \<open>ref_pebble\<close> is a reference implementation on sorted association lists. It satisfies the
  contract (\<open>refdb\<close>), and the executable witnesses run on it.
\<close>

datatype batch_op = BSet bytes bytes | BDelete bytes

record 'db pebble =
  pb_open :: "'db option \<Rightarrow> error + 'db"
  pb_get :: "'db \<Rightarrow> bytes \<Rightarrow> error + bytes"
  pb_delete :: "'db \<Rightarrow> bytes \<Rightarrow> error + 'db"
  pb_apply :: "'db \<Rightarrow> batch_op list \<Rightarrow> error + 'db"
  pb_iter :: "'db \<Rightarrow> bytes option \<Rightarrow> bytes option \<Rightarrow> (bytes \<times> bytes) list"
  pb_seek :: "'db \<Rightarrow> bytes \<Rightarrow> (bytes \<times> bytes) list"

fun apply_op :: "batch_op \<Rightarrow> (bytes \<rightharpoonup> bytes) \<Rightarrow> (bytes \<rightharpoonup> bytes)" where
  "apply_op (BSet k v) m = m(k \<mapsto> v)"
| "apply_op (BDelete k) m = m(k := None)"

definition apply_ops :: "batch_op list \<Rightarrow> (bytes \<rightharpoonup> bytes) \<Rightarrow> (bytes \<rightharpoonup> bytes)" where
  "apply_ops ops m = fold apply_op ops m"

abbreviation pairs :: "('db, 'a) pebble_scheme \<Rightarrow> 'db \<Rightarrow> (bytes \<times> bytes) list" where
  "pairs P db \<equiv> pb_iter P db None None"

definition contents :: "('db, 'a) pebble_scheme \<Rightarrow> 'db \<Rightarrow> bytes \<rightharpoonup> bytes" where
  "contents P db = map_of (pairs P db)"

definition in_bounds :: "bytes option \<Rightarrow> bytes option \<Rightarrow> bytes \<Rightarrow> bool" where
  "in_bounds lo hi k \<longleftrightarrow>
     (case lo of None \<Rightarrow> True | Some l \<Rightarrow> l \<le> k) \<and> (case hi of None \<Rightarrow> True | Some h \<Rightarrow> k < h)"

section \<open>Ordered lists and prefixes\<close>

lemma apply_ops_simps [simp]:
  "apply_ops [] m = m" "apply_ops (op # ops) m = apply_ops ops (apply_op op m)"
  "apply_ops (ops @ ops') m = apply_ops ops' (apply_ops ops m)"
  by (simp_all add: apply_ops_def)

lemma prefix_le: "prefix q k \<Longrightarrow> q \<le> (k :: 'a :: linorder list)"
  by (induction q arbitrary: k) (auto simp: prefix_def)

text \<open>The keys with a given prefix are adjacent in the key order.\<close>

lemma prefix_between:
  "q \<le> k \<Longrightarrow> k \<le> k' \<Longrightarrow> prefix q k' \<Longrightarrow> prefix q (k :: 'a :: linorder list)"
proof (induction q arbitrary: k k')
  case (Cons a q)
  then obtain k1' where k': "k' = a # k1'" "prefix q k1'" by (cases k') auto
  with Cons.prems obtain k1 where k: "k = a # k1" "q \<le> k1" "k1 \<le> k1'"
    by (cases k) (auto simp: less_le_not_le)
  with k' Cons.IH show ?case by simp
qed simp

lemma takeWhile_prefix_sorted:
  fixes xs :: "('a :: linorder list \<times> 'b) list"
  assumes "sorted_wrt (<) (map fst xs)"
  shows "takeWhile (\<lambda>x. prefix q (fst x)) (dropWhile (\<lambda>x. fst x < q) xs)
    = filter (\<lambda>x. prefix q (fst x)) xs"
  using assms
proof (induction xs)
  case (Cons x xs)
  then have IH: "takeWhile (\<lambda>x. prefix q (fst x)) (dropWhile (\<lambda>x. fst x < q) xs)
      = filter (\<lambda>x. prefix q (fst x)) xs" by simp
  show ?case
  proof (cases "fst x < q")
    case True
    then have "\<not> prefix q (fst x)" using prefix_le leD by blast
    with True IH show ?thesis by simp
  next
    case False
    have gt: "\<forall>y\<in>set xs. fst x < fst y" using Cons.prems by auto
    with False have "dropWhile (\<lambda>x. fst x < q) xs = xs"
      by (cases xs) auto
    moreover have "filter (\<lambda>x. prefix q (fst x)) xs = []" if "\<not> prefix q (fst x)"
    proof -
      have "\<not> prefix q (fst y)" if "y \<in> set xs" for y
        using that \<open>\<not> prefix q (fst x)\<close> gt False prefix_between [of q "fst x" "fst y"]
        by (meson less_imp_le not_less)
      then show ?thesis by (simp add: filter_empty_conv)
    qed
    ultimately show ?thesis using False IH by auto
  qed
qed simp

text \<open>A sorted association list is determined by the map it stands for.\<close>

lemma sorted_pairs_unique:
  fixes xs ys :: "('a :: linorder \<times> 'b) list"
  assumes "sorted_wrt (<) (map fst xs)" "sorted_wrt (<) (map fst ys)" "map_of xs = map_of ys"
  shows "xs = ys"
proof -
  have d: "distinct (map fst xs)" "distinct (map fst ys)"
    using assms(1,2) by (simp_all add: strict_sorted_iff)
  have s: "set xs = set ys"
    using map_of_eq_Some_iff [OF d(1)] map_of_eq_Some_iff [OF d(2)] assms(3) by auto
  show ?thesis
  proof (rule map_sorted_distinct_set_unique [where f = fst])
    show "inj_on fst (set xs \<union> set ys)"
      using d(1) s by (simp add: distinct_map)
  qed (use assms(1,2) d s in \<open>simp_all add: strict_sorted_iff\<close>)
qed

section \<open>The contract\<close>

locale pebble_db =
  fixes P :: "('db, 'a) pebble_scheme"
  assumes iter_sorted: "sorted_wrt (<) (map fst (pairs P db))"
    and iter_bounds: "pb_iter P db lo hi = filter (\<lambda>(k, v). in_bounds lo hi k) (pairs P db)"
    and seek_ge: "pb_seek P db q = dropWhile (\<lambda>x. fst x < q) (pairs P db)"
    and get_contents: "pb_get P db k =
      (case contents P db k of None \<Rightarrow> Inl ErrNotFound | Some v \<Rightarrow> Inr v)"
    and apply_contents: "pb_apply P db ops = Inr db' \<Longrightarrow> contents P db' = apply_ops ops (contents P db)"
    and delete_contents: "pb_delete P db k = Inr db' \<Longrightarrow> contents P db' = (contents P db)(k := None)"
    and open_new: "pb_open P None = Inr db' \<Longrightarrow> contents P db' = Map.empty"
    and open_old: "pb_open P (Some db) = Inr db' \<Longrightarrow> contents P db' = contents P db"
begin

lemma distinct_pairs: "distinct (map fst (pairs P db))"
  using iter_sorted [of db] by (simp add: strict_sorted_iff)

lemma pairs_contents: "(k, v) \<in> set (pairs P db) \<longleftrightarrow> contents P db k = Some v"
  by (simp add: contents_def distinct_pairs)

lemma pairs_determined:
  "pebble_db Q \<Longrightarrow> contents P db = contents Q db' \<Longrightarrow> pairs P db = pairs Q db'"
  by (rule sorted_pairs_unique)
    (simp_all add: iter_sorted pebble_db.iter_sorted contents_def)

lemma seek_prefix:
  "takeWhile (\<lambda>x. prefix q (fst x)) (pb_seek P db q) = filter (\<lambda>x. prefix q (fst x)) (pairs P db)"
  by (simp add: seek_ge takeWhile_prefix_sorted iter_sorted)

end

section \<open>A reference implementation\<close>

type_synonym ref_db = "(bytes \<times> bytes) list"

fun al_put :: "bytes \<Rightarrow> bytes \<Rightarrow> ref_db \<Rightarrow> ref_db" where
  "al_put k v [] = [(k, v)]"
| "al_put k v ((a, b) # xs) =
     (if k < a then (k, v) # (a, b) # xs
      else if k = a then (k, v) # xs else (a, b) # al_put k v xs)"

definition al_del :: "bytes \<Rightarrow> ref_db \<Rightarrow> ref_db" where
  "al_del k xs = filter (\<lambda>x. fst x \<noteq> k) xs"

fun al_op :: "batch_op \<Rightarrow> ref_db \<Rightarrow> ref_db" where
  "al_op (BSet k v) xs = al_put k v xs"
| "al_op (BDelete k) xs = al_del k xs"

text \<open>The pairs in strictly ascending key order, whatever the order of the representation.\<close>

definition al_canon :: "ref_db \<Rightarrow> ref_db" where
  "al_canon xs = foldr (\<lambda>(k, v). al_put k v) xs []"

definition ref_pebble :: "ref_db pebble" where
  "ref_pebble = \<lparr>
     pb_open = (\<lambda>old. Inr (case old of None \<Rightarrow> [] | Some db \<Rightarrow> db)),
     pb_get = (\<lambda>db k. case map_of db k of None \<Rightarrow> Inl ErrNotFound | Some v \<Rightarrow> Inr v),
     pb_delete = (\<lambda>db k. Inr (al_del k db)),
     pb_apply = (\<lambda>db ops. Inr (fold al_op ops db)),
     pb_iter = (\<lambda>db lo hi. filter (\<lambda>(k, v). in_bounds lo hi k) (al_canon db)),
     pb_seek = (\<lambda>db q. dropWhile (\<lambda>x. fst x < q) (al_canon db))\<rparr>"

lemma ref_pebble_ops [simp]:
  "pb_open ref_pebble old = Inr (case old of None \<Rightarrow> [] | Some db \<Rightarrow> db)"
  "pb_get ref_pebble db k = (case map_of db k of None \<Rightarrow> Inl ErrNotFound | Some v \<Rightarrow> Inr v)"
  "pb_delete ref_pebble db k = Inr (al_del k db)"
  "pb_apply ref_pebble db ops = Inr (fold al_op ops db)"
  "pb_iter ref_pebble db lo hi = filter (\<lambda>(k, v). in_bounds lo hi k) (al_canon db)"
  "pb_seek ref_pebble db q = dropWhile (\<lambda>x. fst x < q) (al_canon db)"
  by (simp_all add: ref_pebble_def)

lemma al_put_keys: "fst ` set (al_put k v xs) = insert k (fst ` set xs)"
  by (induction k v xs rule: al_put.induct) auto

lemma al_put_sorted: "sorted_wrt (<) (map fst xs) \<Longrightarrow> sorted_wrt (<) (map fst (al_put k v xs))"
proof (induction k v xs rule: al_put.induct)
  case (2 k v a b xs)
  have "a < fst y" if "a < k" "y \<in> set (al_put k v xs)" for y
  proof -
    have "fst y \<in> insert k (fst ` set xs)" using that(2) al_put_keys [of k v xs] by blast
    with 2(2) that(1) show ?thesis by auto
  qed
  with 2 show ?case by (auto simp: not_less_iff_gr_or_eq)
qed simp

lemma map_of_al_put: "map_of (al_put k v xs) = (map_of xs)(k \<mapsto> v)"
  by (induction k v xs rule: al_put.induct) (auto simp: fun_eq_iff)

lemma map_of_al_del: "map_of (al_del k xs) = (map_of xs)(k := None)"
  by (induction xs) (auto simp: al_del_def fun_eq_iff)

lemma map_of_al_ops: "map_of (fold al_op ops xs) = apply_ops ops (map_of xs)"
proof (induction ops arbitrary: xs)
  case (Cons op ops)
  have "map_of (al_op op xs) = apply_op op (map_of xs)"
    by (cases op) (simp_all add: map_of_al_put map_of_al_del)
  with Cons show ?case by simp
qed simp

lemma al_canon_sorted: "sorted_wrt (<) (map fst (al_canon xs))"
  by (induction xs) (auto simp: al_canon_def al_put_sorted)

lemma map_of_al_canon: "map_of (al_canon xs) = map_of xs"
  by (induction xs) (auto simp: al_canon_def map_of_al_put)

lemma pairs_ref: "pairs ref_pebble db = al_canon db"
  by (simp add: in_bounds_def)

lemma contents_ref: "contents ref_pebble db = map_of db"
  by (simp add: contents_def in_bounds_def map_of_al_canon)

interpretation refdb: pebble_db ref_pebble
  by unfold_locales
    (auto simp: al_canon_sorted in_bounds_def contents_ref map_of_al_ops map_of_al_del)

end
