(* ===== verification/Go_Md5.thy ===== *)
theory Go_Md5
  imports Roo_Prelude
begin

text \<open>
  Go's \<open>crypto/md5\<close>, the checksum that guards the file naming the current database directory and
  that condenses the contents of a replica into a state hash.
\<close>

type_synonym u32 = "32 word"
type_synonym md5_state = "u32 \<times> u32 \<times> u32 \<times> u32"

definition md5_table :: "u32 list" where
  "md5_table = [
     0xd76aa478, 0xe8c7b756, 0x242070db, 0xc1bdceee, 0xf57c0faf, 0x4787c62a,
     0xa8304613, 0xfd469501, 0x698098d8, 0x8b44f7af, 0xffff5bb1, 0x895cd7be,
     0x6b901122, 0xfd987193, 0xa679438e, 0x49b40821, 0xf61e2562, 0xc040b340,
     0x265e5a51, 0xe9b6c7aa, 0xd62f105d, 0x02441453, 0xd8a1e681, 0xe7d3fbc8,
     0x21e1cde6, 0xc33707d6, 0xf4d50d87, 0x455a14ed, 0xa9e3e905, 0xfcefa3f8,
     0x676f02d9, 0x8d2a4c8a, 0xfffa3942, 0x8771f681, 0x6d9d6122, 0xfde5380c,
     0xa4beea44, 0x4bdecfa9, 0xf6bb4b60, 0xbebfbc70, 0x289b7ec6, 0xeaa127fa,
     0xd4ef3085, 0x04881d05, 0xd9d4d039, 0xe6db99e5, 0x1fa27cf8, 0xc4ac5665,
     0xf4292244, 0x432aff97, 0xab9423a7, 0xfc93a039, 0x655b59c3, 0x8f0ccc92,
     0xffeff47d, 0x85845dd1, 0x6fa87e4f, 0xfe2ce6e0, 0xa3014314, 0x4e0811a1,
     0xf7537e82, 0xbd3af235, 0x2ad7d2bb, 0xeb86d391]"

definition md5_shifts :: "nat list" where
  "md5_shifts =
     concat (replicate 4 [7, 12, 17, 22]) @ concat (replicate 4 [5, 9, 14, 20]) @
     concat (replicate 4 [4, 11, 16, 23]) @ concat (replicate 4 [6, 10, 15, 21])"

definition rotl32 :: "nat \<Rightarrow> u32 \<Rightarrow> u32" where
  "rotl32 n w = push_bit n w OR drop_bit (32 - n) w"

text \<open>The mixing function of round \<open>i\<close> and the index of the message word it uses.\<close>

definition md5_mix :: "nat \<Rightarrow> u32 \<Rightarrow> u32 \<Rightarrow> u32 \<Rightarrow> u32 \<times> nat" where
  "md5_mix i b c d =
     (if i < 16 then ((b AND c) OR (NOT b AND d), i)
      else if i < 32 then ((d AND b) OR (NOT d AND c), (5 * i + 1) mod 16)
      else if i < 48 then (b XOR c XOR d, (3 * i + 5) mod 16)
      else (c XOR (b OR NOT d), (7 * i) mod 16))"

definition md5_round :: "u32 list \<Rightarrow> nat \<Rightarrow> md5_state \<Rightarrow> md5_state" where
  "md5_round m i st = (case st of (a, b, c, d) \<Rightarrow>
     (let (f, g) = md5_mix i b c d;
          t = f + a + md5_table ! i + m ! g
      in (d, b + rotl32 (md5_shifts ! i) t, b, c)))"

fun le_words :: "bytes \<Rightarrow> u32 list" where
  "le_words (a # b # c # d # bs) =
     (ucast a OR push_bit 8 (ucast b) OR push_bit 16 (ucast c) OR push_bit 24 (ucast d)) # le_words bs"
| "le_words _ = []"

definition md5_block :: "md5_state \<Rightarrow> bytes \<Rightarrow> md5_state" where
  "md5_block st blk = (case fold (md5_round (le_words blk)) [0..<64] st of (a', b', c', d') \<Rightarrow>
     case st of (a, b, c, d) \<Rightarrow> (a + a', b + b', c + c', d + d'))"

definition md5_pad :: "bytes \<Rightarrow> bytes" where
  "md5_pad bs = bs @ 0x80 # replicate ((119 - length bs mod 64) mod 64) 0
     @ le64_put (of_nat (8 * length bs))"

fun md5_blocks :: "nat \<Rightarrow> bytes \<Rightarrow> md5_state \<Rightarrow> md5_state" where
  "md5_blocks 0 bs st = st"
| "md5_blocks (Suc n) bs st = md5_blocks n (drop 64 bs) (md5_block st (take 64 bs))"

definition le32_put :: "u32 \<Rightarrow> bytes" where
  "le32_put w = [ucast w, ucast (drop_bit 8 w), ucast (drop_bit 16 w), ucast (drop_bit 24 w)]"

text \<open>\<open>md5.New()\<close>, \<open>Write\<close> of all the data, \<open>Sum(nil)\<close>.\<close>

definition md5_sum :: "bytes \<Rightarrow> bytes" where
  "md5_sum bs = (let p = md5_pad bs in
     case md5_blocks (length p div 64) p (0x67452301, 0xefcdab89, 0x98badcfe, 0x10325476) of
       (a, b, c, d) \<Rightarrow> le32_put a @ le32_put b @ le32_put c @ le32_put d)"

lemma length_md5_sum [simp]: "length (md5_sum bs) = 16"
  by (simp add: md5_sum_def le32_put_def Let_def split: prod.splits)

text \<open>A test vector of RFC 1321: the digest of the message \<open>a\<close>.\<close>

lemma md5_test:
  "md5_sum (str_bytes ''a'') =
     [0x0c, 0xc1, 0x75, 0xb9, 0xc0, 0xf1, 0xb6, 0xa8, 0x31, 0xc3, 0x99, 0xe2, 0x69, 0x77, 0x26, 0x61]"
  by code_simp

end
