(* ===== verification/Disk_KV.thy ===== *)
theory Disk_KV
  imports Pebble_Store Go_Md5 "HOL-Library.AList" "HOL-Library.Char_ord"
begin

text \<open>
  The replicated state machine of \<open>kvdisk.go\<close>: a node's data directory, the Pebble handle with its
  closed flag, and the operations Dragonboat calls, \<open>Open\<close>, \<open>Lookup\<close>, \<open>Update\<close>, the snapshot
  operations, \<open>Close\<close> and \<open>GetHash\<close>.

  The state of a replica is a pair of the \<open>DiskKV\<close> object and the file system. A database handle
  names a directory; its contents live in the file system, so that reopening after a crash sees
  what was applied. The operating system is represented by the file system value and a function
  \<open>faults\<close> that says which of its calls fail; random numbers and the clock are arguments.
\<close>

section \<open>The file system\<close>

datatype 'db node = FFile bytes | FDir | FDB 'db

type_synonym 'db fs = "(string \<times> 'db node) list"
type_synonym faults = "string \<Rightarrow> error option"

definition fs_put :: "string \<Rightarrow> 'db node \<Rightarrow> 'db fs \<Rightarrow> 'db fs" where
  "fs_put p n fs = AList.update p n fs"

text \<open>\<open>os.RemoveAll\<close>: the path and everything below it.\<close>

definition fs_remove :: "string \<Rightarrow> 'db fs \<Rightarrow> 'db fs" where
  "fs_remove p fs = filter (\<lambda>(q, n). \<not> (q = p \<or> prefix (p @ ''/'') q)) fs"

text \<open>\<open>filepath.Join\<close> of two clean, non-empty paths and \<open>filepath.Dir\<close> of a path with a separator.\<close>

definition join_path :: "string \<Rightarrow> string \<Rightarrow> string" where
  "join_path a b = a @ CHR ''/'' # b"

definition path_dir :: "string \<Rightarrow> string" where
  "path_dir p = rev (drop 1 (dropWhile (\<lambda>c. c \<noteq> CHR ''/'') (rev p)))"

text \<open>\<open>os.MkdirAll\<close> on the directory itself; its parents carry no data.\<close>

definition fs_mkdir :: "string \<Rightarrow> 'db fs \<Rightarrow> error + 'db fs" where
  "fs_mkdir p fs = (case map_of fs p of
     None \<Rightarrow> Inr (fs_put p FDir fs)
   | Some (FFile _) \<Rightarrow> Inl (Errorf ''not a directory'')
   | Some _ \<Rightarrow> Inr fs)"

text \<open>
  \<open>ioutil.ReadDir\<close>: the names of the entries directly below \<open>dir\<close>, sorted; of these the
  directories.
\<close>

definition child_name :: "string \<Rightarrow> string \<Rightarrow> string option" where
  "child_name dir p = (let pre = dir @ ''/'' in
     if prefix pre p \<and> CHR ''/'' \<notin> set (drop (length pre) p) \<and> drop (length pre) p \<noteq> []
     then Some (drop (length pre) p) else None)"

definition is_dir_node :: "'db node \<Rightarrow> bool" where
  "is_dir_node n = (case n of FFile _ \<Rightarrow> False | _ \<Rightarrow> True)"

definition subdirs :: "string \<Rightarrow> 'db fs \<Rightarrow> string list" where
  "subdirs dir fs = sort (List.map_filter (\<lambda>p. case map_of fs p of
     Some n \<Rightarrow> if is_dir_node n then child_name dir p else None | None \<Rightarrow> None) (remdups (map fst fs)))"

section \<open>The data directory\<close>

definition syncDir :: "faults \<Rightarrow> string \<Rightarrow> 'db fs \<Rightarrow> unit outcome" where
  "syncDir F dir fs =
     (if F ''GOOS windows'' \<noteq> None then Ok ()
      else case F (''Stat '' @ dir) of Some e \<Rightarrow> Err e
      | None \<Rightarrow> (case map_of fs dir of
          Some (FFile _) \<Rightarrow> Panic ''not a dir''
        | _ \<Rightarrow> (case F (''Open '' @ dir) of Some e \<Rightarrow> Err e
          | None \<Rightarrow> (case F (''Sync '' @ dir) of Some e \<Rightarrow> Err e
            | None \<Rightarrow> (case F (''Close '' @ dir) of Some e \<Rightarrow> Err e | None \<Rightarrow> Ok ())))))"

record pebbledb =
  pd_dir :: string
  pd_closed :: bool

definition db_content :: "'db fs \<Rightarrow> pebbledb \<Rightarrow> 'db option" where
  "db_content fs h = (case map_of fs (pd_dir h) of Some (FDB c) \<Rightarrow> Some c | _ \<Rightarrow> None)"

text \<open>A Go \<open>map[string][]byte\<close>: pairs with distinct keys; assignment replaces or adds.\<close>

type_synonym gomap = "(string \<times> slice) list"

fun scan_loop :: "bytes \<Rightarrow> (bytes \<times> bytes) list \<Rightarrow> gomap \<Rightarrow> gomap" where
  "scan_loop qb [] items = items"
| "scan_loop qb ((key, val) # it) items =
     (if \<not> prefix qb key then items
      else scan_loop qb it (AList.update (bytes_str key) (Some val) items))"

definition scan :: "('db, 'a) pebble_scheme \<Rightarrow> 'db fs \<Rightarrow> pebbledb \<Rightarrow> string \<Rightarrow> gomap outcome" where
  "scan P fs h query =
     (if pd_closed h then Err (Errorf ''db already closed'')
      else case db_content fs h of None \<Rightarrow> Panic ''pebble: closed''
      | Some c \<Rightarrow> (let qb = str_bytes query in Ok (scan_loop qb (pb_seek P c qb) [])))"

definition lookup :: "('db, 'a) pebble_scheme \<Rightarrow> 'db fs \<Rightarrow> pebbledb \<Rightarrow> bytes \<Rightarrow> slice outcome" where
  "lookup P fs h query =
     (if pd_closed h then Err (Errorf ''db already closed'')
      else case db_content fs h of None \<Rightarrow> Panic ''pebble: closed''
      | Some c \<Rightarrow> (case pb_get P c query of
          Inl e \<Rightarrow> Err e
        | Inr val \<Rightarrow> if length val = 0 then Ok (Some []) else Ok (Some val)))"

definition close_pebbledb :: "pebbledb \<Rightarrow> pebbledb" where
  "close_pebbledb h = h\<lparr>pd_closed := True\<rparr>"

definition delete :: "('db, 'a) pebble_scheme \<Rightarrow> 'db fs \<Rightarrow> pebbledb \<Rightarrow> bytes \<Rightarrow> unit outcome \<times> 'db fs" where
  "delete P fs h query =
     (if pd_closed h then (Err (Errorf ''db already closed''), fs)
      else case db_content fs h of None \<Rightarrow> (Panic ''pebble: closed'', fs)
      | Some c \<Rightarrow> (case pb_delete P c query of
          Inl e \<Rightarrow> (Err e, fs) | Inr c' \<Rightarrow> (Ok (), fs_put (pd_dir h) (FDB c') fs)))"

definition createDB ::
    "('db, 'a) pebble_scheme \<Rightarrow> faults \<Rightarrow> 'db fs \<Rightarrow> string \<Rightarrow> pebbledb outcome \<times> 'db fs" where
  "createDB P F fs dbdir = (case F ''MkdirAll'' of Some e \<Rightarrow> (Err e, fs)
     | None \<Rightarrow> (case fs_mkdir dbdir fs of Inl e \<Rightarrow> (Err e, fs)
       | Inr fs1 \<Rightarrow>
           (let old = (case map_of fs1 dbdir of Some (FDB c) \<Rightarrow> Some c | _ \<Rightarrow> None) in
            case pb_open P old of Inl e \<Rightarrow> (Err e, fs1)
            | Inr c \<Rightarrow> (Ok \<lparr>pd_dir = dbdir, pd_closed = False\<rparr>, fs_put dbdir (FDB c) fs1))))"

definition isNewRun :: "'db fs \<Rightarrow> string \<Rightarrow> bool" where
  "isNewRun fs dir = (map_of fs (join_path dir currentDBFilename) = None)"

definition getNodeDBDirName :: "uint64 \<Rightarrow> uint64 \<Rightarrow> string" where
  "getNodeDBDirName cid rid =
     join_path testDBDirName (show_uint64 cid @ ''_'' @ show_uint64 rid)"

definition getNewRandomDBDirName :: "string \<Rightarrow> uint64 \<Rightarrow> int \<Rightarrow> string" where
  "getNewRandomDBDirName dir rn ct = join_path dir (show_uint64 rn @ ''_'' @ show_int ct)"

definition replaceCurrentDBFile :: "faults \<Rightarrow> 'db fs \<Rightarrow> string \<Rightarrow> unit outcome \<times> 'db fs" where
  "replaceCurrentDBFile F fs dir =
     (let fp = join_path dir currentDBFilename; tmpFp = join_path dir updatingDBFilename in
      case F ''Rename'' of Some e \<Rightarrow> (Err e, fs)
      | None \<Rightarrow> (case map_of fs tmpFp of
          None \<Rightarrow> (Err (Errorf ''no such file''), fs)
        | Some n \<Rightarrow> (let fs' = fs_put fp n (fs_remove tmpFp fs) in (syncDir F dir fs', fs'))))"

text \<open>The deferred function of \<open>saveCurrentDBDirName\<close>: a failing close or sync panics.\<close>

definition close_and_sync :: "faults \<Rightarrow> string \<Rightarrow> 'db fs \<Rightarrow> unit outcome \<Rightarrow> unit outcome" where
  "close_and_sync F dir fs r = (case F ''Close'' of Some e \<Rightarrow> Panic ''close''
     | None \<Rightarrow> (case syncDir F dir fs of Ok _ \<Rightarrow> r | Err e \<Rightarrow> Panic ''sync'' | Panic p \<Rightarrow> Panic p))"

definition saveCurrentDBDirName ::
    "faults \<Rightarrow> 'db fs \<Rightarrow> string \<Rightarrow> string \<Rightarrow> unit outcome \<times> 'db fs" where
  "saveCurrentDBDirName F fs dir dbdir =
     (let h = md5_sum (str_bytes dbdir); fp = join_path dir updatingDBFilename in
      case F ''Create'' of Some e \<Rightarrow> (Err e, fs)
      | None \<Rightarrow> (let fs0 = fs_put fp (FFile []) fs in
          case F ''Write sum'' of Some e \<Rightarrow> (close_and_sync F dir fs0 (Err e), fs0)
          | None \<Rightarrow> (let fs1 = fs_put fp (FFile (take 8 h)) fs0 in
              case F ''Write name'' of Some e \<Rightarrow> (close_and_sync F dir fs1 (Err e), fs1)
              | None \<Rightarrow> (let fs2 = fs_put fp (FFile (take 8 h @ str_bytes dbdir)) fs1 in
                  case F ''Sync'' of Some e \<Rightarrow> (close_and_sync F dir fs2 (Err e), fs2)
                  | None \<Rightarrow> (close_and_sync F dir fs2 (Ok ()), fs2)))))"

definition getCurrentDBDirName :: "faults \<Rightarrow> 'db fs \<Rightarrow> string \<Rightarrow> string outcome" where
  "getCurrentDBDirName F fs dir =
     (case F ''OpenFile'' of Some e \<Rightarrow> Err e
      | None \<Rightarrow> (case map_of fs (join_path dir currentDBFilename) of
          Some (FFile data) \<Rightarrow>
            (case F ''CloseFile'' of Some e \<Rightarrow> Panic ''close''
             | None \<Rightarrow> (case F ''ReadAll'' of Some e \<Rightarrow> Err e
               | None \<Rightarrow>
                   if length data \<le> 8 then Panic ''corrupted content''
                   else (let crc = take 8 data; content = drop 8 data in
                     if crc \<noteq> take 8 (md5_sum content)
                     then Panic ''corrupted content with not matched crc''
                     else Ok (bytes_str content))))
        | _ \<Rightarrow> Err (Errorf ''no such file'')))"

definition createNodeDataDir :: "faults \<Rightarrow> 'db fs \<Rightarrow> string \<Rightarrow> unit outcome \<times> 'db fs" where
  "createNodeDataDir F fs dir = (case F ''MkdirAll data'' of Some e \<Rightarrow> (Err e, fs)
     | None \<Rightarrow> (case fs_mkdir dir fs of Inl e \<Rightarrow> (Err e, fs)
       | Inr fs' \<Rightarrow> (syncDir F (path_dir dir) fs', fs')))"

fun cleanup_loop ::
    "faults \<Rightarrow> string \<Rightarrow> string \<Rightarrow> string list \<Rightarrow> 'db fs \<Rightarrow> unit outcome \<times> 'db fs" where
  "cleanup_loop F dir dbdir [] fs = (Ok (), fs)"
| "cleanup_loop F dir dbdir (name # names) fs =
     (let toDelete = join_path dir name in
      if toDelete \<noteq> dbdir then
        (case F (''RemoveAll '' @ toDelete) of Some e \<Rightarrow> (Err e, fs)
         | None \<Rightarrow> cleanup_loop F dir dbdir names (fs_remove toDelete fs))
      else cleanup_loop F dir dbdir names fs)"

definition cleanupNodeDataDir :: "faults \<Rightarrow> 'db fs \<Rightarrow> string \<Rightarrow> unit outcome \<times> 'db fs" where
  "cleanupNodeDataDir F fs dir =
     (let tmpFp = join_path dir updatingDBFilename;
          fs1 = (case F (''RemoveAll '' @ tmpFp) of Some _ \<Rightarrow> fs | None \<Rightarrow> fs_remove tmpFp fs) in
      case getCurrentDBDirName F fs1 dir of
        Err e \<Rightarrow> (Err e, fs1)
      | Panic p \<Rightarrow> (Panic p, fs1)
      | Ok dbdir \<Rightarrow> (case F ''ReadDir'' of Some e \<Rightarrow> (Err e, fs1)
          | None \<Rightarrow> cleanup_loop F dir dbdir (subdirs dir fs1) fs1))"

section \<open>The state machine\<close>

record DiskKV =
  clusterID :: uint64
  ReplicaID :: uint64
  lastApplied :: uint64
  db :: "pebbledb option"
  closed :: bool
  aborted :: bool

type_synonym 'db replica = "DiskKV \<times> 'db fs"

definition NewDiskKV :: "uint64 \<Rightarrow> uint64 \<Rightarrow> DiskKV" where
  "NewDiskKV cid rid = \<lparr>clusterID = cid, ReplicaID = rid, lastApplied = 0, db = None,
     closed = False, aborted = False\<rparr>"

definition queryAppliedIndex :: "('db, 'a) pebble_scheme \<Rightarrow> 'db \<Rightarrow> uint64 outcome" where
  "queryAppliedIndex P c = (case pb_get P c (str_bytes appliedIndexKey) of
     Inl e \<Rightarrow> if e \<noteq> ErrNotFound then Err e else Ok 0
   | Inr val \<Rightarrow> if length val = 0 then Ok 0
       else (case le64_get val of None \<Rightarrow> Panic ''index out of range'' | Some w \<Rightarrow> Ok w))"

text \<open>The second half of \<open>Open\<close>: open the database in \<open>dbdir\<close> and read the applied index.\<close>

definition open_at ::
    "('db, 'a) pebble_scheme \<Rightarrow> faults \<Rightarrow> string \<Rightarrow> 'db replica \<Rightarrow> uint64 outcome \<times> 'db replica" where
  "open_at P F dbdir s = (case s of (d, fs) \<Rightarrow>
     (case createDB P F fs dbdir of
        (Err e, fs') \<Rightarrow> (Err e, d, fs')
      | (Panic p, fs') \<Rightarrow> (Panic p, d, fs')
      | (Ok h, fs') \<Rightarrow>
          (let d' = d\<lparr>db := Some h\<rparr> in
           case db_content fs' h of None \<Rightarrow> (Panic ''pebble: closed'', d', fs')
           | Some c \<Rightarrow> (case queryAppliedIndex P c of
               Ok i \<Rightarrow> (Ok i, d'\<lparr>lastApplied := i\<rparr>, fs')
             | Err e \<Rightarrow> (Panic ''queryAppliedIndex'', d', fs')
             | Panic p \<Rightarrow> (Panic p, d', fs')))))"

definition Open ::
    "('db, 'a) pebble_scheme \<Rightarrow> faults \<Rightarrow> uint64 \<Rightarrow> int \<Rightarrow> 'db replica \<Rightarrow> uint64 outcome \<times> 'db replica" where
  "Open P F rn ct s = (case s of (d, fs0) \<Rightarrow>
     (let dir = getNodeDBDirName (clusterID d) (ReplicaID d) in
      case createNodeDataDir F fs0 dir of
        (Err e, fs) \<Rightarrow> (Panic ''createNodeDataDir'', d, fs)
      | (Panic p, fs) \<Rightarrow> (Panic p, d, fs)
      | (Ok _, fs) \<Rightarrow>
          if \<not> isNewRun fs dir then
            (case cleanupNodeDataDir F fs dir of
               (Err e, fs1) \<Rightarrow> (Err e, d, fs1)
             | (Panic p, fs1) \<Rightarrow> (Panic p, d, fs1)
             | (Ok _, fs1) \<Rightarrow> (case getCurrentDBDirName F fs1 dir of
                 Err e \<Rightarrow> (Err e, d, fs1)
               | Panic p \<Rightarrow> (Panic p, d, fs1)
               | Ok dbdir \<Rightarrow>
                   if map_of fs1 dbdir = None then (Panic ''db dir unexpectedly deleted'', d, fs1)
                   else open_at P F dbdir (d, fs1)))
          else
            (let dbdir = getNewRandomDBDirName dir rn ct in
             case saveCurrentDBDirName F fs dir dbdir of
               (Err e, fs1) \<Rightarrow> (Err e, d, fs1)
             | (Panic p, fs1) \<Rightarrow> (Panic p, d, fs1)
             | (Ok _, fs1) \<Rightarrow> (case replaceCurrentDBFile F fs1 dir of
                 (Err e, fs2) \<Rightarrow> (Err e, d, fs2)
               | (Panic p, fs2) \<Rightarrow> (Panic p, d, fs2)
               | (Ok _, fs2) \<Rightarrow> open_at P F dbdir (d, fs2)))))"

text \<open>Queries: the dynamic types \<open>Lookup\<close> distinguishes. Pointers may be nil.\<close>

datatype query = QString string | QData "KVData option" | QAction "KVAction option" | QBytes bytes | QOther

datatype lookup_result = RBytes slice | RMap gomap

definition Get :: "('db, 'a) pebble_scheme \<Rightarrow> 'db replica \<Rightarrow> string \<Rightarrow> lookup_result outcome" where
  "Get P s key = (case s of (d, fs) \<Rightarrow> (case db d of
     None \<Rightarrow> Err (Errorf ''db closed'')
   | Some h \<Rightarrow> (case lookup P fs h (str_bytes key) of
       Ok v \<Rightarrow> if closed d then Panic ''lookup returned valid result when DiskKV is already closed''
               else Ok (RBytes v)
     | Err e \<Rightarrow> if e = ErrNotFound then Ok (RBytes None) else Err e
     | Panic p \<Rightarrow> Panic p)))"

definition Scan :: "('db, 'a) pebble_scheme \<Rightarrow> 'db replica \<Rightarrow> string \<Rightarrow> lookup_result outcome" where
  "Scan P s key = (case s of (d, fs) \<Rightarrow> (case db d of
     None \<Rightarrow> Err (Errorf ''db closed'')
   | Some h \<Rightarrow> (case scan P fs h key of
       Ok v \<Rightarrow> if closed d then Panic ''scan returned valid result when DiskKV is already closed''
               else Ok (RMap v)
     | Err e \<Rightarrow> Err e
     | Panic p \<Rightarrow> Panic p)))"

fun collect_loop :: "(bytes \<times> bytes) list \<Rightarrow> gomap \<Rightarrow> gomap" where
  "collect_loop [] values = values"
| "collect_loop ((key, val) # it) values =
     collect_loop it (AList.update (bytes_str key) (Some val) values)"

definition ReverseScan ::
    "('db, 'a) pebble_scheme \<Rightarrow> 'db replica \<Rightarrow> string \<Rightarrow> slice \<Rightarrow> lookup_result outcome" where
  "ReverseScan P s key val = (case s of (d, fs) \<Rightarrow> (case db d of
     None \<Rightarrow> Err (Errorf ''Could not connect to db'')
   | Some h \<Rightarrow> (case (if pd_closed h then None else db_content fs h) of
       None \<Rightarrow> Panic ''pebble: closed''
     | Some c \<Rightarrow> Ok (RMap (collect_loop (pb_iter P c val (Some (str_bytes key))) [])))))"

definition decode_query :: "query \<Rightarrow> KVAction outcome" where
  "decode_query cmd = (let actionKV = \<lparr>ka_Action = [], ka_Data = Some zero_KVData\<rparr> in
     case cmd of
       QString c \<Rightarrow> Ok \<lparr>ka_Action = act_GET, ka_Data = Some \<lparr>Key = c, Val = None\<rparr>\<rparr>
     | QData c \<Rightarrow> Ok \<lparr>ka_Action = act_GET, ka_Data = c\<rparr>
     | QAction c \<Rightarrow> (case c of None \<Rightarrow> Panic ''nil pointer dereference'' | Some a \<Rightarrow> Ok a)
     | QBytes c \<Rightarrow>
         (let (a, ok) = json_Unmarshal dec_KVAction c actionKV in
          if \<not> ok \<or> ka_Action a = [] then
            (case ka_Data a of
               None \<Rightarrow> Panic ''nil pointer dereference''
             | Some d \<Rightarrow>
                 (let (d', ok') = json_Unmarshal dec_KVData c d in
                  if ok' \<and> Key d' \<noteq> [] then Ok \<lparr>ka_Action = act_GET, ka_Data = Some d'\<rparr>
                  else Ok \<lparr>ka_Action = act_GET, ka_Data = Some (d'\<lparr>Key := bytes_str c\<rparr>)\<rparr>))
          else Ok a)
     | QOther \<Rightarrow> Ok actionKV)"

definition Lookup :: "('db, 'a) pebble_scheme \<Rightarrow> 'db replica \<Rightarrow> query \<Rightarrow> lookup_result outcome" where
  "Lookup P s cmd = (case decode_query cmd of
     Err e \<Rightarrow> Err e
   | Panic p \<Rightarrow> Panic p
   | Ok a \<Rightarrow> (case ka_Data a of
       None \<Rightarrow> Panic ''nil pointer dereference''
     | Some d \<Rightarrow>
         if ka_Action a = act_SCAN then Scan P s (Key d)
         else if ka_Action a = act_REVERSE_SCAN then ReverseScan P s (Key d) (Val d)
         else Get P s (Key d)))"

record entry =
  Index :: uint64
  Cmd :: bytes
  Result :: uint64

definition kv_op :: "KVData \<Rightarrow> batch_op" where
  "kv_op a = (case Val a of None \<Rightarrow> BDelete (str_bytes (Key a)) | Some v \<Rightarrow> BSet (str_bytes (Key a)) v)"

fun batch_ops :: "KVData option list \<Rightarrow> batch_op list outcome" where
  "batch_ops [] = Ok []"
| "batch_ops (None # as) = Panic ''nil pointer dereference''"
| "batch_ops (Some a # as) = map_outcome2 (Cons (kv_op a)) (batch_ops as)"

text \<open>
  The body of the loop of \<open>Update\<close>: the operations an entry adds to the write batch, or \<open>None\<close> if
  its command is rejected with a log message and no result.
\<close>

definition entry_ops :: "bytes \<Rightarrow> batch_op list option outcome" where
  "entry_ops cmd =
     (let (batchKV, errb) = json_Unmarshal dec_KVBatch cmd zero_KVBatch in
      case (errb, kb_Batch batchKV) of
        (True, Some as) \<Rightarrow> map_outcome2 Some (batch_ops as)
      | _ \<Rightarrow>
          (let (actionKV, erru) =
                 json_Unmarshal dec_KVAction cmd \<lparr>ka_Action = [], ka_Data = Some zero_KVData\<rparr>;
               again = (\<lambda>d. let (d', erru') = json_Unmarshal dec_KVData cmd d in
                 if \<not> erru' \<or> Key d' = [] then Ok None else Ok (Some [kv_op d']))
           in case ka_Data actionKV of
                None \<Rightarrow> if erru then Panic ''nil pointer dereference'' else Ok None
              | Some d \<Rightarrow> if \<not> erru \<or> Key d = [] then again d else Ok (Some [kv_op d])))"

fun update_loop :: "entry list \<Rightarrow> (entry list \<times> batch_op list) outcome" where
  "update_loop [] = Ok ([], [])"
| "update_loop (e # ents) = (case entry_ops (Cmd e) of
     Err x \<Rightarrow> Err x
   | Panic p \<Rightarrow> Panic p
   | Ok r \<Rightarrow> (case update_loop ents of
       Err x \<Rightarrow> Err x
     | Panic p \<Rightarrow> Panic p
     | Ok (es, ops) \<Rightarrow> (case r of
         None \<Rightarrow> Ok (e # es, ops)
       | Some o1 \<Rightarrow> Ok (e\<lparr>Result := of_nat (length (Cmd e))\<rparr> # es, o1 @ ops))))"

definition Update ::
    "('db, 'a) pebble_scheme \<Rightarrow> 'db replica \<Rightarrow> entry list \<Rightarrow> entry list outcome \<times> 'db replica" where
  "Update P s ents = (case s of (d, fs) \<Rightarrow>
     if aborted d then (Panic ''update() called after abort set to true'', s)
     else if closed d then (Panic ''update called after Close()'', s)
     else case db d of None \<Rightarrow> (Panic ''nil pointer dereference'', s)
     | Some h \<Rightarrow> (case (if pd_closed h then None else db_content fs h) of
         None \<Rightarrow> (Panic ''pebble: closed'', s)
       | Some c \<Rightarrow> (case update_loop ents of
           Err x \<Rightarrow> (Err x, s)
         | Panic p \<Rightarrow> (Panic p, s)
         | Ok (ents', ops) \<Rightarrow>
             if ents = [] then (Panic ''index out of range [-1]'', s)
             else
               (let idx = Index (last ents);
                    wb = ops @ [BSet (str_bytes appliedIndexKey) (le64_put idx)]
                in case pb_apply P c wb of
                     Inl e \<Rightarrow> (Err e, s)
                   | Inr c' \<Rightarrow>
                       (let fs' = fs_put (pd_dir h) (FDB c') fs in
                        if lastApplied d \<ge> idx then (Panic ''lastApplied not moving forward'', d, fs')
                        else (Ok ents', d\<lparr>lastApplied := idx\<rparr>, fs'))))))"

definition Sync :: "'db replica \<Rightarrow> unit outcome" where
  "Sync s = Ok ()"

section \<open>Snapshots\<close>

record 'db diskKVCtx =
  cx_db :: pebbledb
  cx_snapshot :: 'db

definition PrepareSnapshot :: "'db replica \<Rightarrow> 'db diskKVCtx outcome" where
  "PrepareSnapshot s = (case s of (d, fs) \<Rightarrow>
     if closed d then Panic ''prepare snapshot called after Close()''
     else if aborted d then Panic ''prepare snapshot called after abort''
     else case db d of None \<Rightarrow> Panic ''nil pointer dereference''
     | Some h \<Rightarrow> (case (if pd_closed h then None else db_content fs h) of
         None \<Rightarrow> Panic ''pebble: closed''
       | Some c \<Rightarrow> Ok \<lparr>cx_db = h, cx_snapshot = c\<rparr>))"

text \<open>The writes of \<open>saveToWriter\<close>, in order: the count, then length and JSON text of each pair.\<close>

definition pair_data :: "bytes \<times> bytes \<Rightarrow> bytes" where
  "pair_data kv = json_Marshal (KVData_json \<lparr>Key = bytes_str (fst kv), Val = Some (snd kv)\<rparr>)"

definition snapshot_writes :: "(bytes \<times> bytes) list \<Rightarrow> bytes list" where
  "snapshot_writes values = le64_put (of_nat (length values))
     # concat (map (\<lambda>kv. [le64_put (of_nat (length (pair_data kv))), pair_data kv]) values)"

fun write_all :: "('w \<Rightarrow> bytes \<Rightarrow> error + 'w) \<Rightarrow> 'w \<Rightarrow> bytes list \<Rightarrow> unit outcome \<times> 'w" where
  "write_all wr w [] = (Ok (), w)"
| "write_all wr w (b # bs) = (case wr w b of Inl e \<Rightarrow> (Err e, w) | Inr w' \<Rightarrow> write_all wr w' bs)"

definition saveToWriter ::
    "('db, 'a) pebble_scheme \<Rightarrow> 'db \<Rightarrow> ('w \<Rightarrow> bytes \<Rightarrow> error + 'w) \<Rightarrow> 'w \<Rightarrow> unit outcome \<times> 'w" where
  "saveToWriter P ss wr w = write_all wr w (snapshot_writes (pairs P ss))"

definition SaveSnapshot ::
    "('db, 'a) pebble_scheme \<Rightarrow> 'db replica \<Rightarrow> 'db diskKVCtx \<Rightarrow> ('w \<Rightarrow> bytes \<Rightarrow> error + 'w) \<Rightarrow> 'w
      \<Rightarrow> unit outcome \<times> 'w" where
  "SaveSnapshot P s ctx wr w = (case s of (d, fs) \<Rightarrow>
     if closed d then (Panic ''prepare snapshot called after Close()'', w)
     else if aborted d then (Panic ''prepare snapshot called after abort'', w)
     else saveToWriter P (cx_snapshot ctx) wr w)"

text \<open>\<open>io.ReadFull\<close> from the remaining bytes of the snapshot stream.\<close>

definition read_full :: "nat \<Rightarrow> bytes \<Rightarrow> error + bytes \<times> bytes" where
  "read_full n r =
     (if length r < n then Inl (Errorf (if r = [] then ''EOF'' else ''unexpected EOF''))
      else Inr (take n r, drop n r))"

text \<open>A slice longer than the address space cannot be made: the run-time panics.\<close>

definition max_alloc :: nat where
  "max_alloc = 2 ^ 48"

fun recover_loop :: "nat \<Rightarrow> bytes \<Rightarrow> batch_op list outcome" where
  "recover_loop 0 r = Ok []"
| "recover_loop (Suc n) r = (case read_full 8 r of
     Inl e \<Rightarrow> Err e
   | Inr (sz, r1) \<Rightarrow>
       (let toRead = unat (le_bytes_word sz) in
        if toRead > max_alloc then Panic ''makeslice: len out of range''
        else case read_full toRead r1 of
          Inl e \<Rightarrow> Err e
        | Inr (data, r2) \<Rightarrow>
            (let (dataKv, ok) = json_Unmarshal dec_KVData data zero_KVData in
             if \<not> ok then Panic ''json''
             else map_outcome2 (Cons (BSet (str_bytes (Key dataKv)) (slice_bytes (Val dataKv))))
                    (recover_loop n r2))))"

text \<open>
  The last part of \<open>RecoverFromSnapshot\<close>: point the current file at the new database, swap it in
  and remove the old directory.
\<close>

definition recover_switch ::
    "('db, 'a) pebble_scheme \<Rightarrow> faults \<Rightarrow> string \<Rightarrow> string \<Rightarrow> pebbledb \<Rightarrow> 'db \<Rightarrow> 'db replica
      \<Rightarrow> unit outcome \<times> 'db replica" where
  "recover_switch P F dir oldDirName h c s = (case s of (d, fs) \<Rightarrow>
     (case saveCurrentDBDirName F fs dir (pd_dir h) of
        (Err e, fs1) \<Rightarrow> (Err e, d, fs1)
      | (Panic p, fs1) \<Rightarrow> (Panic p, d, fs1)
      | (Ok _, fs1) \<Rightarrow> (case replaceCurrentDBFile F fs1 dir of
          (Err e, fs2) \<Rightarrow> (Err e, d, fs2)
        | (Panic p, fs2) \<Rightarrow> (Panic p, d, fs2)
        | (Ok _, fs2) \<Rightarrow> (case queryAppliedIndex P c of
            Err e \<Rightarrow> (Panic ''queryAppliedIndex'', d, fs2)
          | Panic p \<Rightarrow> (Panic p, d, fs2)
          | Ok newLastApplied \<Rightarrow>
              if lastApplied d > newLastApplied then (Panic ''last applied not moving forward'', d, fs2)
              else
                (let d' = d\<lparr>lastApplied := newLastApplied, db := Some h\<rparr> in
                 case F (''RemoveAll '' @ oldDirName) of Some e \<Rightarrow> (Err e, d', fs2)
                 | None \<Rightarrow> (let fs3 = fs_remove oldDirName fs2 in
                     (syncDir F (path_dir oldDirName) fs3, d', fs3)))))))"

definition RecoverFromSnapshot ::
    "('db, 'a) pebble_scheme \<Rightarrow> faults \<Rightarrow> uint64 \<Rightarrow> int \<Rightarrow> 'db replica \<Rightarrow> bytes
      \<Rightarrow> unit outcome \<times> 'db replica" where
  "RecoverFromSnapshot P F rn ct s r = (case s of (d, fs) \<Rightarrow>
     if closed d then (Panic ''recover from snapshot called after Close()'', s)
     else
       (let dir = getNodeDBDirName (clusterID d) (ReplicaID d);
            dbdir = getNewRandomDBDirName dir rn ct
        in case getCurrentDBDirName F fs dir of
             Err e \<Rightarrow> (Err e, s)
           | Panic p \<Rightarrow> (Panic p, s)
           | Ok oldDirName \<Rightarrow> (case createDB P F fs dbdir of
               (Err e, fs1) \<Rightarrow> (Err e, d, fs1)
             | (Panic p, fs1) \<Rightarrow> (Panic p, d, fs1)
             | (Ok h, fs1) \<Rightarrow> (case read_full 8 r of
                 Inl e \<Rightarrow> (Err e, d, fs1)
               | Inr (sz, r1) \<Rightarrow> (case recover_loop (unat (le_bytes_word sz)) r1 of
                   Err e \<Rightarrow> (Err e, d, fs1)
                 | Panic p \<Rightarrow> (Panic p, d, fs1)
                 | Ok wb \<Rightarrow> (case db_content fs1 h of
                     None \<Rightarrow> (Panic ''pebble: closed'', d, fs1)
                   | Some c0 \<Rightarrow> (case pb_apply P c0 wb of
                       Inl e \<Rightarrow> (Err e, d, fs1)
                     | Inr c \<Rightarrow> recover_switch P F dir oldDirName h c
                                 (d, fs_put dbdir (FDB c) fs1))))))))"

definition Close :: "'db replica \<Rightarrow> unit outcome \<times> 'db replica" where
  "Close s = (case s of (d, fs) \<Rightarrow> (case db d of
     Some h \<Rightarrow> (Ok (), d\<lparr>db := None, closed := True\<rparr>, fs)
   | None \<Rightarrow> if closed d then (Panic ''close called twice'', s) else (Ok (), s)))"

text \<open>The writer of \<open>GetHash\<close> is an MD5 state, which accepts every write.\<close>

definition GetHash :: "('db, 'a) pebble_scheme \<Rightarrow> 'db replica \<Rightarrow> uint64 outcome" where
  "GetHash P s = (case s of (d, fs) \<Rightarrow> (case db d of
     None \<Rightarrow> Panic ''nil pointer dereference''
   | Some h \<Rightarrow> (case (if pd_closed h then None else db_content fs h) of
       None \<Rightarrow> Panic ''pebble: closed''
     | Some c \<Rightarrow> (case saveToWriter P c (\<lambda>w b. Inr (w @ b)) [] of
         (Ok _, data) \<Rightarrow> Ok (le_bytes_word (take 8 (md5_sum data)))
       | (Err e, _) \<Rightarrow> Err e
       | (Panic p, _) \<Rightarrow> Panic p))))"

end
