(* ===== verification/Disk_Query.thy ===== *)
theory Disk_Query
  imports Disk_KV
begin

text \<open>
  Queries of the state machine. The abstract value of a replica is the map of its live database
  (\<open>store\<close>); \<open>Lookup\<close> with a string, a key-value record, an action or a JSON text is reduced to a
  point query, a prefix query or a range query on that map.
\<close>

definition live :: "'db replica \<Rightarrow> 'db option" where
  "live s = (case s of (d, fs) \<Rightarrow>
     if closed d \<or> aborted d then None
     else case db d of None \<Rightarrow> None | Some h \<Rightarrow> if pd_closed h then None else db_content fs h)"

definition store :: "('db, 'a) pebble_scheme \<Rightarrow> 'db replica \<Rightarrow> (bytes \<rightharpoonup> bytes) option" where
  "store P s = map_option (contents P) (live s)"

text \<open>The answers in terms of the abstract value.\<close>

definition map_scan :: "(bytes \<rightharpoonup> bytes) \<Rightarrow> string \<Rightarrow> string \<rightharpoonup> slice" where
  "map_scan m q = (\<lambda>k. if prefix q k then map_option Some (m (str_bytes k)) else None)"

definition map_range :: "(bytes \<rightharpoonup> bytes) \<Rightarrow> slice \<Rightarrow> string \<Rightarrow> string \<rightharpoonup> slice" where
  "map_range m lo hi = (\<lambda>k. if in_bounds lo (Some (str_bytes hi)) (str_bytes k)
     then map_option Some (m (str_bytes k)) else None)"

lemma live_Some:
  "live (d, fs) = Some c \<longleftrightarrow>
     \<not> closed d \<and> \<not> aborted d \<and>
     (\<exists>h. db d = Some h \<and> \<not> pd_closed h \<and> db_content fs h = Some c)"
  by (auto simp: live_def split: option.splits)

lemma store_Some: "store P s = Some m \<longleftrightarrow> (\<exists>c. live s = Some c \<and> m = contents P c)"
  by (auto simp: store_def)

section \<open>Collecting an iterator into a Go map\<close>

text \<open>The Go map an iterator is copied into, as a function of the string key.\<close>

definition string_map :: "(bytes \<times> bytes) list \<Rightarrow> string \<rightharpoonup> slice" where
  "string_map it = (\<lambda>k. map_option Some (map_of it (str_bytes k)))"

lemma string_map_Nil [simp]: "string_map [] = Map.empty"
  by (simp add: string_map_def fun_eq_iff)

lemma eq_bytes_str_iff: "k = bytes_str b \<longleftrightarrow> str_bytes k = b"
  by auto

lemma string_map_Cons:
  assumes "b \<notin> fst ` set it"
  shows "string_map ((b, v) # it) = (string_map it)(bytes_str b \<mapsto> Some v)"
  using assms by (auto simp: string_map_def fun_eq_iff eq_bytes_str_iff)

lemma collect_loop_map:
  "distinct (map fst it) \<Longrightarrow> map_of (collect_loop it items) = map_of items ++ string_map it"
proof (induction it items rule: collect_loop.induct)
  case (2 key val it items)
  then show ?case
    by (auto simp: string_map_Cons update_conv' map_add_def fun_eq_iff string_map_def
        image_iff map_of_eq_None_iff split: option.splits)
qed simp

lemma collect_loop_distinct:
  "distinct (map fst items) \<Longrightarrow> distinct (map fst (collect_loop it items))"
  by (induction it items rule: collect_loop.induct) (simp_all add: distinct_update)

lemma scan_loop_collect:
  "scan_loop qb it items = collect_loop (takeWhile (\<lambda>x. prefix qb (fst x)) it) items"
  by (induction qb it items rule: scan_loop.induct) simp_all

context pebble_db
begin

lemma map_of_filter_key:
  "map_of (filter (\<lambda>x. Q (fst x)) (pairs P c)) k = (if Q k then contents P c k else None)"
proof -
  have "map_of (filter (\<lambda>x. Q (fst x)) xs) k = (if Q k then map_of xs k else None)" for xs :: "(bytes \<times> bytes) list"
    by (induction xs) auto
  then show ?thesis by (simp add: contents_def)
qed

lemma distinct_filter_pairs: "distinct (map fst (filter Q (pairs P c)))"
  using distinct_pairs by (rule distinct_map_filter)

lemma scan_spec:
  assumes "live (d, fs) = Some c" "db d = Some h"
  obtains r where "scan P fs h q = Ok r" "map_of r = map_scan (contents P c) q" "distinct (map fst r)"
proof -
  let ?it = "takeWhile (\<lambda>x. prefix (str_bytes q) (fst x)) (pb_seek P c (str_bytes q))"
  have scan: "scan P fs h q = Ok (collect_loop ?it [])"
    using assms by (auto simp: scan_def live_Some scan_loop_collect Let_def)
  have "map_of (collect_loop ?it []) = string_map ?it"
    by (simp add: collect_loop_map seek_prefix distinct_filter_pairs)
  then have "map_of (collect_loop ?it []) = map_scan (contents P c) q"
    by (simp add: seek_prefix string_map_def map_of_filter_key map_scan_def fun_eq_iff prefix_str_bytes)
  then show thesis using that scan collect_loop_distinct [of "[]" ?it] by simp
qed

lemma Scan_spec:
  assumes "live s = Some c"
  shows "\<exists>r. Scan P s q = Ok (RMap r) \<and> map_of r = map_scan (contents P c) q \<and> distinct (map fst r)"
proof -
  obtain d fs where s: "s = (d, fs)" by fastforce
  with assms obtain h where h: "db d = Some h" "\<not> closed d" by (auto simp: live_Some)
  with assms s obtain r where "scan P fs h q = Ok r" "map_of r = map_scan (contents P c) q"
    "distinct (map fst r)" using scan_spec by metis
  with s h show ?thesis by (simp add: Scan_def)
qed

lemma ReverseScan_spec:
  assumes "live s = Some c"
  shows "\<exists>r. ReverseScan P s q lo = Ok (RMap r) \<and> map_of r = map_range (contents P c) lo q
    \<and> distinct (map fst r)"
proof -
  obtain d fs where s: "s = (d, fs)" by fastforce
  let ?it = "pb_iter P c lo (Some (str_bytes q))"
  have it: "?it = filter (\<lambda>x. in_bounds lo (Some (str_bytes q)) (fst x)) (pairs P c)"
    using iter_bounds [of c lo "Some (str_bytes q)"] by (simp add: case_prod_unfold)
  have "map_of (collect_loop ?it []) = string_map ?it"
    by (simp add: collect_loop_map it distinct_filter_pairs)
  also have "\<dots> = map_range (contents P c) lo q"
    by (simp add: string_map_def it map_of_filter_key map_range_def fun_eq_iff)
  finally show ?thesis
    using assms s collect_loop_distinct [of "[]" ?it]
    by (auto simp: ReverseScan_def live_Some)
qed

lemma Get_spec:
  assumes "live s = Some c"
  shows "Get P s k = Ok (RBytes (contents P c (str_bytes k)))"
  using assms
  by (cases s) (auto simp: Get_def lookup_def live_Some get_contents split: option.splits)

end

section \<open>The forms of a query\<close>

abbreviation action_of :: "string \<Rightarrow> KVData \<Rightarrow> KVAction" where
  "action_of a kv \<equiv> \<lparr>ka_Action = a, ka_Data = Some kv\<rparr>"

text \<open>An action as the value itself or as its JSON text, and the further forms of a point query.\<close>

definition action_queries :: "string \<Rightarrow> KVData \<Rightarrow> query list" where
  "action_queries a kv =
     [QAction (Some (action_of a kv)), QBytes (json_Marshal (KVAction_json (action_of a kv)))]"

definition get_queries :: "KVData \<Rightarrow> query list" where
  "get_queries kv = [QString (Key kv), QData (Some kv), QBytes (json_Marshal (KVData_json kv))]
     @ action_queries act_GET kv"

lemma decode_action:
  assumes "q \<in> set (action_queries a kv)" "utf8_ok a" "a \<noteq> []" "utf8_ok (Key kv)"
  shows "decode_query q = Ok (action_of a kv)"
  using assms
  by (auto simp: action_queries_def decode_query_def Unmarshal_Marshal dec_KVAction_json
      coerce_KVData_ok utf8_ok_def)

lemma utf8_actions [simp]: "utf8_ok ''GET''" "utf8_ok ''SCAN''" "utf8_ok ''REVERSE''" "utf8_ok ''PUT''"
  by (simp_all add: utf8_ok_ascii is_ascii_def)

lemma decode_get:
  assumes "q \<in> set (get_queries kv)" "utf8_ok (Key kv)" "Key kv \<noteq> []"
  shows "\<exists>v. decode_query q = Ok (action_of act_GET \<lparr>Key = Key kv, Val = v\<rparr>)"
proof (cases "q \<in> set (action_queries act_GET kv)")
  case True
  then have "decode_query q = Ok (action_of act_GET kv)"
    using assms(2) by (simp add: decode_action)
  then show ?thesis by (intro exI [of _ "Val kv"]) simp
next
  case False
  with assms(1) consider "q = QString (Key kv)" | "q = QData (Some kv)"
    | "q = QBytes (json_Marshal (KVData_json kv))" by (auto simp: get_queries_def)
  then show ?thesis
  proof cases
    case 3
    then show ?thesis using assms(2,3)
      by (intro exI [of _ "Val kv"])
        (simp add: decode_query_def Unmarshal_Marshal dec_KVAction_json coerce_KVData_ok)
  qed (auto simp: decode_query_def intro: exI [of _ None] exI [of _ "Val kv"])
qed

lemma raw_text_query:
  assumes "json_parse (bytes_str c) = None"
  shows "decode_query (QBytes c) = Ok (action_of act_GET \<lparr>Key = bytes_str c, Val = None\<rparr>)"
  using assms by (simp add: decode_query_def json_Unmarshal_def zero_KVData_def)

section \<open>Queries against the abstract map\<close>

definition example_replica :: "ref_db replica" where
  "example_replica =
     (\<lparr>clusterID = 1, ReplicaID = 2, lastApplied = 5, db = Some \<lparr>pd_dir = ''d'', pd_closed = False\<rparr>,
       closed = False, aborted = False\<rparr>,
      [(''d'', FDB [(str_bytes ''a'', [1]), (str_bytes ''ab'', [2]), (str_bytes ''b'', [3]),
         (str_bytes appliedIndexKey, le64_put 5)])])"

definition example_map :: "bytes \<rightharpoonup> bytes" where
  "example_map = map_of [(str_bytes ''a'', [1]), (str_bytes ''ab'', [2]), (str_bytes ''b'', [3]),
     (str_bytes appliedIndexKey, le64_put 5)]"

lemma store_example: "store ref_pebble example_replica = Some example_map"
  by (simp add: store_def live_def example_replica_def db_content_def contents_ref example_map_def
      del: ref_pebble_ops)

lemma example_map_simps [simp]:
  "example_map [97] = Some [1]" "example_map [97, 98] = Some [2]" "example_map [98] = Some [3]"
  by (simp_all add: example_map_def str_bytes_def appliedIndexKey_def)

text \<open>
  A point query returns the stored value, nil when the key is absent, and it does so for every
  form a client can send: the bare key, a key-value record, its JSON text, a GET action or the
  JSON text of one.
\<close>

theorem lookup_get:
  assumes "pebble_db P" "store P s = Some m"
    and "q \<in> set (get_queries kv)" "utf8_ok (Key kv)" "Key kv \<noteq> []"
  shows "Lookup P s q = Ok (RBytes (m (str_bytes (Key kv))))"
proof -
  obtain v where "decode_query q = Ok (action_of act_GET \<lparr>Key = Key kv, Val = v\<rparr>)"
    using decode_get [OF assms(3-5)] by blast
  with assms(1,2) show ?thesis
    by (auto simp: Lookup_def store_Some pebble_db.Get_spec)
qed

theorem lookup_get_witness:
  "Lookup ref_pebble example_replica (QBytes (json_Marshal (KVData_json \<lparr>Key = ''ab'', Val = None\<rparr>)))
     = Ok (RBytes (Some [2]))"
  using lookup_get [OF refdb.pebble_db_axioms store_example, of _ "\<lparr>Key = ''ab'', Val = None\<rparr>"]
  by (simp add: get_queries_def utf8_ok_ascii is_ascii_def)

text \<open>
  C22. A prefix query returns exactly the stored pairs whose key starts with the given string, each
  once: it starts at the first key not below the prefix, stops at the first key without it, and
  misses nothing because the keys with a common prefix are adjacent in the key order.
\<close>

theorem lookup_scan:
  assumes "pebble_db P" "store P s = Some m"
    and "q \<in> set (action_queries act_SCAN kv)" "utf8_ok (Key kv)"
  shows "\<exists>r. Lookup P s q = Ok (RMap r) \<and> distinct (map fst r) \<and> map_of r = map_scan m (Key kv)"
proof -
  have "decode_query q = Ok (action_of act_SCAN kv)"
    using assms(3,4) by (simp add: decode_action)
  with assms(1,2) show ?thesis
    by (auto simp: Lookup_def store_Some dest!: pebble_db.Scan_spec [of P s _ "Key kv"])
qed

theorem lookup_scan_witness:
  "\<exists>r. Lookup ref_pebble example_replica
         (QAction (Some (action_of act_SCAN \<lparr>Key = ''a'', Val = None\<rparr>))) = Ok (RMap r)
     \<and> map_of r ''ab'' = Some (Some [2]) \<and> map_of r ''b'' = None"
proof -
  have "utf8_ok (Key \<lparr>Key = ''a'', Val = None\<rparr>)" by (simp add: utf8_ok_ascii is_ascii_def)
  from lookup_scan [OF refdb.pebble_db_axioms store_example _ this,
      of "QAction (Some (action_of act_SCAN \<lparr>Key = ''a'', Val = None\<rparr>))"]
  obtain r where "Lookup ref_pebble example_replica
      (QAction (Some (action_of act_SCAN \<lparr>Key = ''a'', Val = None\<rparr>))) = Ok (RMap r)"
    "map_of r = map_scan example_map ''a''"
    by (auto simp: action_queries_def)
  then show ?thesis by (intro exI [of _ r]) (simp add: map_scan_def)
qed

text \<open>
  A REVERSE query returns exactly the pairs from the lower bound \<open>Val\<close> (included; none if it is
  nil) up to the upper bound \<open>Key\<close> (excluded), compared as byte strings.
\<close>

theorem lookup_reverse:
  assumes "pebble_db P" "store P s = Some m"
    and "q \<in> set (action_queries act_REVERSE_SCAN kv)" "utf8_ok (Key kv)"
  shows "\<exists>r. Lookup P s q = Ok (RMap r) \<and> distinct (map fst r)
    \<and> map_of r = map_range m (Val kv) (Key kv)"
proof -
  have "decode_query q = Ok (action_of act_REVERSE_SCAN kv)"
    using assms(3,4) by (simp add: decode_action)
  with assms(1,2) show ?thesis
    by (auto simp: Lookup_def store_Some dest!: pebble_db.ReverseScan_spec [of P s _ "Key kv" "Val kv"])
qed

theorem lookup_reverse_witness:
  "\<exists>r. Lookup ref_pebble example_replica
         (QAction (Some (action_of act_REVERSE_SCAN \<lparr>Key = ''b'', Val = Some (str_bytes ''ab'')\<rparr>)))
       = Ok (RMap r)
     \<and> map_of r ''ab'' = Some (Some [2]) \<and> map_of r ''a'' = None \<and> map_of r ''b'' = None"
proof -
  let ?kv = "\<lparr>Key = ''b'', Val = Some (str_bytes ''ab'')\<rparr>"
  have "utf8_ok (Key ?kv)" by (simp add: utf8_ok_ascii is_ascii_def)
  from lookup_reverse [OF refdb.pebble_db_axioms store_example _ this,
      of "QAction (Some (action_of act_REVERSE_SCAN ?kv))"]
  obtain r where "Lookup ref_pebble example_replica (QAction (Some (action_of act_REVERSE_SCAN ?kv)))
      = Ok (RMap r)" "map_of r = map_range example_map (Val ?kv) (Key ?kv)"
    by (auto simp: action_queries_def)
  moreover have "map_range example_map (Val ?kv) (Key ?kv) ''ab'' = Some (Some [2])"
    "map_range example_map (Val ?kv) (Key ?kv) ''a'' = None"
    "map_range example_map (Val ?kv) (Key ?kv) ''b'' = None"
    by (simp_all add: map_range_def in_bounds_def)
  ultimately show ?thesis by metis
qed

end
