(* ===== verification/Disk_Directory.thy ===== *)
theory Disk_Directory
  imports Disk_Query
begin

text \<open>
  The data directory of a node. The file \<open>current\<close> names the directory of the database in use,
  guarded by the first eight bytes of an MD5 sum; it is replaced by writing \<open>current.updating\<close> and
  renaming. The abstract value of a data directory is the database its current file points to
  (\<open>current_db\<close>).
\<close>

abbreviation no_faults :: faults where
  "no_faults \<equiv> \<lambda>_. None"

section \<open>Paths\<close>

definition simple_name :: "string \<Rightarrow> bool" where
  "simple_name n \<longleftrightarrow> CHR ''/'' \<notin> set n \<and> n \<noteq> [] \<and> n \<noteq> currentDBFilename \<and> n \<noteq> updatingDBFilename"

lemma join_path_eq_iff [simp]: "join_path a b = join_path a c \<longleftrightarrow> b = c"
  by (simp add: join_path_def)

lemma filenames [simp]:
  "currentDBFilename \<noteq> updatingDBFilename" "updatingDBFilename \<noteq> currentDBFilename"
  "CHR ''/'' \<notin> set currentDBFilename" "CHR ''/'' \<notin> set updatingDBFilename"
  by (simp_all add: currentDBFilename_def updatingDBFilename_def)

lemma join_path_neq_dir [simp]: "join_path a b \<noteq> a" "a \<noteq> join_path a b"
proof -
  have "length (join_path a b) \<noteq> length a" by (simp add: join_path_def)
  then show "join_path a b \<noteq> a" "a \<noteq> join_path a b" by metis+
qed

lemma not_below:
  "CHR ''/'' \<notin> set c \<Longrightarrow> \<not> prefix (join_path a b @ ''/'') (join_path a c)"
  by (auto simp: join_path_def prefix_def)

lemma not_below_dir: "\<not> prefix (join_path a b @ ''/'') a"
  by (auto simp: join_path_def prefix_def)

lemma show_nat_no_char: "\<not> is_digit c \<Longrightarrow> c \<notin> set (show_nat n)"
  using show_nat_digits [of n] by (auto simp: list_all_iff)

lemma random_name_simple: "simple_name (show_uint64 rn @ ''_'' @ show_int ct)"
proof -
  have "CHR ''/'' \<notin> set (show_uint64 rn @ ''_'' @ show_int ct)"
    using show_nat_no_char [of "CHR ''/''"] by (auto simp: show_uint64_def show_int_def is_digit_def)
  moreover have "show_uint64 rn @ ''_'' @ show_int ct \<noteq> f" if "CHR ''_'' \<notin> set f" for f
    using that by auto
  ultimately show ?thesis
    by (simp add: simple_name_def currentDBFilename_def updatingDBFilename_def)
qed

section \<open>File system laws\<close>

lemma map_of_fs_put [simp]: "map_of (fs_put p n fs) = (map_of fs)(p \<mapsto> n)"
  by (simp add: fs_put_def update_conv')

lemma map_of_fs_remove:
  "map_of (fs_remove p fs) q = (if q = p \<or> prefix (p @ ''/'') q then None else map_of fs q)"
  unfolding fs_remove_def by (induction fs) auto

text \<open>Removing an entry of a directory leaves its siblings and the directory itself alone.\<close>

lemma fs_remove_sibling [simp]:
  "CHR ''/'' \<notin> set c \<Longrightarrow> b \<noteq> c \<Longrightarrow> map_of (fs_remove (join_path a b) fs) (join_path a c) = map_of fs (join_path a c)"
  "map_of (fs_remove (join_path a b) fs) a = map_of fs a"
  by (simp_all add: map_of_fs_remove not_below not_below_dir)

lemma syncDir_no_faults [simp]:
  "syncDir no_faults dir fs = (case map_of fs dir of Some (FFile _) \<Rightarrow> Panic ''not a dir'' | _ \<Rightarrow> Ok ())"
  by (auto simp: syncDir_def split: option.splits node.splits)

section \<open>The current file\<close>

definition current_bytes :: "string \<Rightarrow> bytes" where
  "current_bytes p = take 8 (md5_sum (str_bytes p)) @ str_bytes p"

lemma getCurrent_cong:
  "map_of fs (join_path dir currentDBFilename) = map_of fs' (join_path dir currentDBFilename) \<Longrightarrow>
   getCurrentDBDirName F fs dir = getCurrentDBDirName F fs' dir"
  by (simp add: getCurrentDBDirName_def split: option.split)

lemma getCurrent_current_bytes:
  assumes "map_of fs (join_path dir currentDBFilename) = Some (FFile (current_bytes p))" "p \<noteq> []"
  shows "getCurrentDBDirName no_faults fs dir = Ok p"
  using assms
  by (simp add: getCurrentDBDirName_def current_bytes_def length_md5_sum Let_def)

lemma getCurrent_Ok_faults:
  "getCurrentDBDirName F fs dir = Ok p \<Longrightarrow> getCurrentDBDirName no_faults fs dir = Ok p"
  by (auto simp: getCurrentDBDirName_def split: option.splits node.splits if_splits)

lemma getCurrent_exists:
  "getCurrentDBDirName F fs dir = Ok p \<Longrightarrow> \<not> isNewRun fs dir"
  by (auto simp: getCurrentDBDirName_def isNewRun_def split: option.splits)

text \<open>Writing the new name touches \<open>current.updating\<close> only, whichever call fails.\<close>

lemma saveCurrent_frame:
  assumes "saveCurrentDBDirName F fs dir p = (r, fs')" "q \<noteq> join_path dir updatingDBFilename"
  shows "map_of fs' q = map_of fs q"
  using assms by (auto simp: saveCurrentDBDirName_def Let_def split: option.splits)

lemma saveCurrent_Ok:
  assumes "saveCurrentDBDirName F fs dir p = (Ok (), fs')"
  shows "map_of fs' (join_path dir updatingDBFilename) = Some (FFile (current_bytes p))"
  using assms
  by (auto simp: saveCurrentDBDirName_def close_and_sync_def current_bytes_def Let_def
      split: option.splits outcome.splits)

lemma saveCurrent_no_faults:
  assumes "\<forall>b. map_of fs dir \<noteq> Some (FFile b)"
  shows "\<exists>fs'. saveCurrentDBDirName no_faults fs dir p = (Ok (), fs')"
  using assms
  by (auto simp: saveCurrentDBDirName_def close_and_sync_def Let_def split: option.splits node.splits)

text \<open>The rename either happens, whole, or not at all.\<close>

lemma replaceCurrent_cases:
  assumes "replaceCurrentDBFile F fs dir = (r, fs')"
  shows "(fs' = fs \<and> (\<exists>e. r = Err e)) \<or>
    (\<exists>n. map_of fs (join_path dir updatingDBFilename) = Some n \<and>
      fs' = fs_put (join_path dir currentDBFilename) n (fs_remove (join_path dir updatingDBFilename) fs))"
  using assms by (auto simp: replaceCurrentDBFile_def Let_def split: option.splits)

lemma replaceCurrent_frame:
  assumes "replaceCurrentDBFile F fs dir = (r, fs')" "CHR ''/'' \<notin> set n"
    "n \<noteq> currentDBFilename" "n \<noteq> updatingDBFilename"
  shows "map_of fs' (join_path dir n) = map_of fs (join_path dir n)" "map_of fs' dir = map_of fs dir"
  using replaceCurrent_cases [OF assms(1)] assms(2-) by auto

lemma replaceCurrent_no_faults:
  assumes "\<forall>b. map_of fs dir \<noteq> Some (FFile b)" "map_of fs (join_path dir updatingDBFilename) = Some n"
  shows "\<exists>fs'. replaceCurrentDBFile no_faults fs dir = (Ok (), fs')"
  using assms by (auto simp: replaceCurrentDBFile_def Let_def split: option.splits node.splits)

text \<open>
  C15. The current file is replaced atomically: whatever call of \<open>saveCurrentDBDirName\<close> or
  \<open>replaceCurrentDBFile\<close> fails, a reader finds the old name or the new one with a matching
  checksum, the old one until the rename, and the new one once the replacement has succeeded.
\<close>

theorem current_file_atomic:
  assumes "getCurrentDBDirName no_faults fs dir = Ok old" "dbdir \<noteq> []"
    and "saveCurrentDBDirName F fs dir dbdir = (r1, fs1)" "replaceCurrentDBFile F' fs1 dir = (r2, fs2)"
  shows "getCurrentDBDirName no_faults fs1 dir = Ok old
    \<and> (r1 = Ok () \<longrightarrow> getCurrentDBDirName no_faults fs2 dir \<in> {Ok old, Ok dbdir})
    \<and> (r1 = Ok () \<longrightarrow> r2 = Ok () \<longrightarrow> getCurrentDBDirName no_faults fs2 dir = Ok dbdir)"
proof -
  have old: "getCurrentDBDirName no_faults fs1 dir = Ok old"
    using assms(1) getCurrent_cong saveCurrent_frame [OF assms(3)] by (metis filenames(1) join_path_eq_iff)
  have new: "getCurrentDBDirName no_faults fs2 dir = Ok dbdir" if "r1 = Ok ()" "\<not> (fs2 = fs1 \<and> (\<exists>e. r2 = Err e))"
  proof (rule getCurrent_current_bytes)
    show "map_of fs2 (join_path dir currentDBFilename) = Some (FFile (current_bytes dbdir))"
      using replaceCurrent_cases [OF assms(4)] that(2) saveCurrent_Ok [of F fs dir dbdir fs1] that(1) assms(3)
      by auto
  qed (rule assms(2))
  show ?thesis using old new by blast
qed

definition example_dir :: "string \<Rightarrow> ref_db fs" where
  "example_dir p = [(''n'', FDir), (''n/current'', FFile (current_bytes p))]"

lemma example_dir_current: "p \<noteq> [] \<Longrightarrow> getCurrentDBDirName no_faults (example_dir p) ''n'' = Ok p"
  by (rule getCurrent_current_bytes) (simp_all add: example_dir_def join_path_def currentDBFilename_def)

theorem current_file_atomic_witness:
  "\<exists>fs1 fs2. saveCurrentDBDirName no_faults (example_dir ''n/1_1'') ''n'' ''n/2_2'' = (Ok (), fs1)
     \<and> replaceCurrentDBFile no_faults fs1 ''n'' = (Ok (), fs2)
     \<and> getCurrentDBDirName no_faults fs1 ''n'' = Ok ''n/1_1''
     \<and> getCurrentDBDirName no_faults fs2 ''n'' = Ok ''n/2_2''"
proof -
  have dir: "map_of (example_dir ''n/1_1'') ''n'' = Some FDir" by (simp add: example_dir_def)
  obtain fs1 where 1: "saveCurrentDBDirName no_faults (example_dir ''n/1_1'') ''n'' ''n/2_2'' = (Ok (), fs1)"
    using saveCurrent_no_faults [of "example_dir ''n/1_1''" "''n''"] dir by auto
  moreover obtain fs2 where 2: "replaceCurrentDBFile no_faults fs1 ''n'' = (Ok (), fs2)"
    using replaceCurrent_no_faults [of fs1 "''n''"] saveCurrent_frame [OF 1, of "''n''"]
      saveCurrent_Ok [OF 1] dir by (auto simp: join_path_def)
  moreover have old: "getCurrentDBDirName no_faults (example_dir ''n/1_1'') ''n'' = Ok ''n/1_1''"
    by (simp add: example_dir_current)
  note current_file_atomic [OF old _ 1 2]
  ultimately show ?thesis by simp
qed

section \<open>The database in use\<close>

definition current_db :: "'db fs \<Rightarrow> string \<Rightarrow> (string \<times> 'db) option" where
  "current_db fs dir = (case getCurrentDBDirName no_faults fs dir of
     Ok p \<Rightarrow> (case map_of fs p of Some (FDB c) \<Rightarrow> Some (p, c) | _ \<Rightarrow> None)
   | _ \<Rightarrow> None)"

lemma current_db_Some:
  "current_db fs dir = Some (p, c) \<longleftrightarrow>
     getCurrentDBDirName no_faults fs dir = Ok p \<and> map_of fs p = Some (FDB c)"
  by (auto simp: current_db_def split: outcome.splits option.splits node.splits)

text \<open>An operation that leaves the current file and the database it names alone keeps both.\<close>

lemma current_db_frame:
  assumes "current_db fs dir = Some (join_path dir n, c)"
    and "map_of fs' (join_path dir currentDBFilename) = map_of fs (join_path dir currentDBFilename)"
    and "map_of fs' (join_path dir n) = map_of fs (join_path dir n)"
  shows "current_db fs' dir = Some (join_path dir n, c)"
  using assms getCurrent_cong [OF assms(2), of no_faults] by (simp add: current_db_Some)

lemma createNodeDataDir_frame:
  assumes "createNodeDataDir F fs dir = (r, fs')"
  shows "map_of fs' (join_path dir n) = map_of fs (join_path dir n)"
  using assms by (auto simp: createNodeDataDir_def fs_mkdir_def split: option.splits sum.splits node.splits)

lemma createNodeDataDir_dir:
  assumes "createNodeDataDir F fs dir = (Ok (), fs')"
  shows "\<forall>b. map_of fs' dir \<noteq> Some (FFile b)"
  using assms by (auto simp: createNodeDataDir_def fs_mkdir_def split: option.splits sum.splits node.splits)

lemma in_map_filter: "y \<in> set (List.map_filter f xs) \<longleftrightarrow> (\<exists>x\<in>set xs. f x = Some y)"
  by (induction xs) (auto simp: map_filter_simps split: option.splits)

lemma child_name_Some:
  "child_name dir p = Some n \<longleftrightarrow> p = join_path dir n \<and> CHR ''/'' \<notin> set n \<and> n \<noteq> []"
  by (auto simp: child_name_def join_path_def Let_def prefix_def)

lemma subdirs_iff:
  "n \<in> set (subdirs dir fs) \<longleftrightarrow>
     CHR ''/'' \<notin> set n \<and> n \<noteq> [] \<and> (\<exists>x. map_of fs (join_path dir n) = Some x \<and> is_dir_node x)"
proof -
  have "n \<in> set (subdirs dir fs) \<longleftrightarrow> (\<exists>p \<in> fst ` set fs.
      \<exists>x. map_of fs p = Some x \<and> is_dir_node x \<and> child_name dir p = Some n)"
    by (auto simp: subdirs_def in_map_filter split: option.splits if_splits)
  also have "\<dots> \<longleftrightarrow> (\<exists>p x. map_of fs p = Some x \<and> is_dir_node x \<and> child_name dir p = Some n)"
    by (metis map_of_SomeD fst_conv image_eqI)
  finally show ?thesis by (auto simp: child_name_Some)
qed

text \<open>Cleaning up removes other databases only: the current file is not a directory.\<close>

lemma cleanup_loop_frame:
  assumes "cleanup_loop F dir dbdir names fs = (r, fs')"
    and "\<forall>m\<in>set names. m \<noteq> k \<or> join_path dir m = dbdir" "CHR ''/'' \<notin> set k"
  shows "map_of fs' (join_path dir k) = map_of fs (join_path dir k)"
  using assms
proof (induction names arbitrary: fs)
  case (Cons m names)
  show ?case
  proof (cases "join_path dir m = dbdir")
    case True
    with Cons show ?thesis by (simp add: Let_def)
  next
    case False
    then have "m \<noteq> k" using Cons.prems(2) by auto
    with Cons False show ?thesis by (auto simp: Let_def split: option.splits)
  qed
qed simp

lemma cleanup_frame:
  assumes "cleanupNodeDataDir F fs dir = (r, fs')"
    and "getCurrentDBDirName no_faults fs dir = Ok (join_path dir n)" "simple_name n"
  shows "map_of fs' (join_path dir currentDBFilename) = map_of fs (join_path dir currentDBFilename)"
    "map_of fs' (join_path dir n) = map_of fs (join_path dir n)"
proof -
  define fs1 where "fs1 = (case F (''RemoveAll '' @ join_path dir updatingDBFilename) of
    Some _ \<Rightarrow> fs | None \<Rightarrow> fs_remove (join_path dir updatingDBFilename) fs)"
  have cl: "(r, fs') = (case getCurrentDBDirName F fs1 dir of
        Err e \<Rightarrow> (Err e, fs1)
      | Panic p \<Rightarrow> (Panic p, fs1)
      | Ok dbdir \<Rightarrow> (case F ''ReadDir'' of Some e \<Rightarrow> (Err e, fs1)
          | None \<Rightarrow> cleanup_loop F dir dbdir (subdirs dir fs1) fs1))"
    using assms(1) unfolding cleanupNodeDataDir_def Let_def fs1_def by simp
  have n: "CHR ''/'' \<notin> set n" "n \<noteq> updatingDBFilename" using assms(3) by (auto simp: simple_name_def)
  have 1: "map_of fs1 (join_path dir currentDBFilename) = map_of fs (join_path dir currentDBFilename)"
    "map_of fs1 (join_path dir n) = map_of fs (join_path dir n)"
    using n by (auto simp: fs1_def split: option.split)
  have "map_of fs' (join_path dir currentDBFilename) = map_of fs1 (join_path dir currentDBFilename)
      \<and> map_of fs' (join_path dir n) = map_of fs1 (join_path dir n)"
  proof (cases "fs' = fs1")
    case False
    then obtain p where p: "getCurrentDBDirName F fs1 dir = Ok p" using cl by (auto split: outcome.splits)
    then have loop: "cleanup_loop F dir p (subdirs dir fs1) fs1 = (r, fs')"
      using cl False by (auto split: option.splits)
    have pn: "p = join_path dir n"
      using getCurrent_Ok_faults [OF p] getCurrent_cong [OF 1(1), of no_faults] assms(2) by simp
    have "\<exists>b. map_of fs1 (join_path dir currentDBFilename) = Some (FFile b)"
      using p by (auto simp: getCurrentDBDirName_def split: option.splits node.splits)
    then have "currentDBFilename \<notin> set (subdirs dir fs1)" by (auto simp: subdirs_iff is_dir_node_def)
    then have "map_of fs' (join_path dir currentDBFilename) = map_of fs1 (join_path dir currentDBFilename)"
      by (intro cleanup_loop_frame [OF loop]) auto
    moreover have "map_of fs' (join_path dir n) = map_of fs1 (join_path dir n)"
      by (rule cleanup_loop_frame [OF loop]) (use pn n in auto)
    ultimately show ?thesis ..
  qed simp
  with 1 show "map_of fs' (join_path dir currentDBFilename) = map_of fs (join_path dir currentDBFilename)"
    "map_of fs' (join_path dir n) = map_of fs (join_path dir n)" by simp_all
qed

lemma cleanup_current_db:
  assumes "cleanupNodeDataDir F fs dir = (r, fs')"
    and "current_db fs dir = Some (join_path dir n, c)" "simple_name n"
  shows "current_db fs' dir = Some (join_path dir n, c)"
  using assms(2) by (rule current_db_frame)
    (use cleanup_frame [OF assms(1) _ assms(3)] assms(2) in \<open>auto simp: current_db_Some\<close>)

end
