(* ===== verification/Disk_Update.thy ===== *)
theory Disk_Update
  imports Disk_Query
begin

text \<open>
  Updates of the state machine. The commands a proposer marshals, a key-value record, an action or
  a batch, have an abstract effect on the map of the store; \<open>Update\<close> decodes the bytes of each
  entry and implements that effect, together with the index of the last entry, in one write batch.
\<close>

section \<open>Abstract commands\<close>

datatype command = CData KVData | CAction string KVData | CBatch string "KVData list"

fun command_bytes :: "command \<Rightarrow> bytes" where
  "command_bytes (CData kv) = json_Marshal (KVData_json kv)"
| "command_bytes (CAction a kv) = json_Marshal (KVAction_json \<lparr>ka_Action = a, ka_Data = Some kv\<rparr>)"
| "command_bytes (CBatch a kvs) =
     json_Marshal (KVBatch_json \<lparr>kb_Action = a, kb_Batch = Some (map Some kvs)\<rparr>)"

fun command_kvs :: "command \<Rightarrow> KVData list" where
  "command_kvs (CData kv) = [kv]"
| "command_kvs (CAction a kv) = [kv]"
| "command_kvs (CBatch a kvs) = kvs"

fun command_ok :: "command \<Rightarrow> bool" where
  "command_ok (CData kv) \<longleftrightarrow> utf8_ok (Key kv) \<and> Key kv \<noteq> []"
| "command_ok (CAction a kv) \<longleftrightarrow> utf8_ok (Key kv) \<and> Key kv \<noteq> []"
| "command_ok (CBatch a kvs) \<longleftrightarrow> list_all (\<lambda>kv. utf8_ok (Key kv)) kvs"

text \<open>A record sets its key, or removes it when the value is nil.\<close>

definition kv_effect :: "KVData \<Rightarrow> (bytes \<rightharpoonup> bytes) \<Rightarrow> (bytes \<rightharpoonup> bytes)" where
  "kv_effect kv m = m(str_bytes (Key kv) := Val kv)"

definition command_effect :: "command \<Rightarrow> (bytes \<rightharpoonup> bytes) \<Rightarrow> (bytes \<rightharpoonup> bytes)" where
  "command_effect c m = fold kv_effect (command_kvs c) m"

text \<open>The key of the applied index is the program's own: every update overwrites it.\<close>

definition with_index :: "uint64 \<Rightarrow> (bytes \<rightharpoonup> bytes) \<Rightarrow> (bytes \<rightharpoonup> bytes)" where
  "with_index i m = m(str_bytes appliedIndexKey \<mapsto> le64_put i)"

section \<open>Decoding a command\<close>

lemma apply_kv_op: "apply_op (kv_op kv) m = kv_effect kv m"
  by (cases "Val kv") (simp_all add: kv_op_def kv_effect_def)

lemma apply_kv_ops: "apply_ops (map kv_op kvs) m = fold kv_effect kvs m"
  by (induction kvs arbitrary: m) (simp_all add: apply_kv_op)

lemma batch_ops_Some: "batch_ops (map Some kvs) = Ok (map kv_op kvs)"
  by (induction kvs) simp_all

lemma coerce_KVDatas_ok: "list_all (\<lambda>kv. utf8_ok (Key kv)) kvs \<Longrightarrow> map coerce_KVData kvs = kvs"
  by (induction kvs) (simp_all add: coerce_KVData_ok)

lemma entry_ops_command:
  "command_ok c \<Longrightarrow> entry_ops (command_bytes c) = Ok (Some (map kv_op (command_kvs c)))"
proof (induction c rule: command_ok.induct)
  case (1 kv)
  then show ?case
    by (simp add: entry_ops_def Unmarshal_Marshal dec_KVBatch_other dec_KVAction_json zero_KVBatch_def
        coerce_KVData_ok zero_KVData_def)
next
  case (2 a kv)
  then show ?case
    by (simp add: entry_ops_def Unmarshal_Marshal dec_KVBatch_other dec_KVAction_json zero_KVBatch_def
        coerce_KVData_ok)
next
  case (3 a kvs)
  then have "map coerce_KVData kvs = kvs" by (simp add: coerce_KVDatas_ok)
  then have "batch_ops (map (Some \<circ> coerce_KVData) kvs) = Ok (map kv_op kvs)"
    using batch_ops_Some [of "map coerce_KVData kvs"] by (simp only: flip: map_map)
  then show ?case
    by (simp add: entry_ops_def Unmarshal_Marshal dec_KVBatch_json)
qed

abbreviation done_entry :: "entry \<Rightarrow> entry" where
  "done_entry e \<equiv> e\<lparr>Result := of_nat (length (Cmd e))\<rparr>"

lemma update_loop_commands:
  "list_all command_ok cs \<Longrightarrow> map Cmd ents = map command_bytes cs \<Longrightarrow>
   update_loop ents = Ok (map done_entry ents, map kv_op (concat (map command_kvs cs)))"
proof (induction cs arbitrary: ents)
  case (Cons c cs)
  then obtain e es where "ents = e # es" "Cmd e = command_bytes c" "map Cmd es = map command_bytes cs"
    by auto
  with Cons show ?case by (simp add: entry_ops_command)
qed simp

lemma apply_commands:
  "apply_ops (map kv_op (concat (map command_kvs cs))) m = fold command_effect cs m"
  by (induction cs arbitrary: m) (simp_all add: apply_kv_ops command_effect_def)

lemma update_loop_append:
  "update_loop (xs @ ys) = (case update_loop xs of
     Err e \<Rightarrow> Err e | Panic p \<Rightarrow> Panic p
   | Ok (xs', a) \<Rightarrow> (case update_loop ys of
       Err e \<Rightarrow> Err e | Panic p \<Rightarrow> Panic p | Ok (ys', b) \<Rightarrow> Ok (xs' @ ys', a @ b)))"
  by (induction xs) (auto split: outcome.splits option.splits)

lemma update_loop_entries:
  "update_loop ents = Ok (ents', ops) \<Longrightarrow>
     map Index ents' = map Index ents \<and> map Cmd ents' = map Cmd ents"
  by (induction ents arbitrary: ents' ops) (auto split: outcome.splits option.splits)

section \<open>The write\<close>

lemma live_put:
  assumes "live (d, fs) = Some c" "db d = Some h"
  shows "live (d\<lparr>lastApplied := i\<rparr>, fs_put (pd_dir h) (FDB c') fs) = Some c'"
    "live (d, fs_put (pd_dir h) (FDB c') fs) = Some c'"
  using assms by (auto simp: live_Some db_content_def fs_put_def update_conv')

text \<open>What \<open>Update\<close> does on a live replica, branch by branch.\<close>

lemma Update_live:
  assumes "live s = Some c" "ents \<noteq> []"
  shows "\<exists>h. db (fst s) = Some h \<and> Update P s ents = (case update_loop ents of
     Err x \<Rightarrow> (Err x, s)
   | Panic p \<Rightarrow> (Panic p, s)
   | Ok (ents', ops) \<Rightarrow>
       (let idx = Index (last ents) in
        case pb_apply P c (ops @ [BSet (str_bytes appliedIndexKey) (le64_put idx)]) of
          Inl e \<Rightarrow> (Err e, s)
        | Inr c' \<Rightarrow>
            (let fs' = fs_put (pd_dir h) (FDB c') (snd s) in
             if lastApplied (fst s) \<ge> idx then (Panic ''lastApplied not moving forward'', fst s, fs')
             else (Ok ents', (fst s)\<lparr>lastApplied := idx\<rparr>, fs'))))"
  using assms by (cases s) (auto simp: Update_def live_Some Let_def split: outcome.splits sum.splits)

lemma Update_Ok:
  assumes "live s = Some c" "Update P s ents = (Ok ents', s')"
  shows "\<exists>ops c'. update_loop ents = Ok (ents', ops) \<and> ents \<noteq> [] \<and> live s' = Some c'
    \<and> pb_apply P c (ops @ [BSet (str_bytes appliedIndexKey) (le64_put (Index (last ents)))]) = Inr c'
    \<and> lastApplied (fst s) < Index (last ents) \<and> lastApplied (fst s') = Index (last ents)"
proof -
  have ne: "ents \<noteq> []" using assms by (cases s) (auto simp: Update_def live_Some)
  obtain h where h: "db (fst s) = Some h" and U: "Update P s ents = (case update_loop ents of
     Err x \<Rightarrow> (Err x, s)
   | Panic p \<Rightarrow> (Panic p, s)
   | Ok (ents', ops) \<Rightarrow>
       (let idx = Index (last ents) in
        case pb_apply P c (ops @ [BSet (str_bytes appliedIndexKey) (le64_put idx)]) of
          Inl e \<Rightarrow> (Err e, s)
        | Inr c' \<Rightarrow>
            (let fs' = fs_put (pd_dir h) (FDB c') (snd s) in
             if lastApplied (fst s) \<ge> idx then (Panic ''lastApplied not moving forward'', fst s, fs')
             else (Ok ents', (fst s)\<lparr>lastApplied := idx\<rparr>, fs'))))"
    using Update_live [OF assms(1) ne] by blast
  have "live (fst s, snd s) = Some c" using assms(1) by simp
  note put = live_put(1) [OF this h]
  from U assms(2) show ?thesis
    by (auto simp: Let_def ne put split: outcome.splits sum.splits if_splits)
qed

lemma Update_accepted:
  assumes "live s = Some c" "update_loop ents = Ok (ents', ops)" "ents \<noteq> []"
    and "pb_apply P c (ops @ [BSet (str_bytes appliedIndexKey) (le64_put (Index (last ents)))]) = Inr c'"
    and "lastApplied (fst s) < Index (last ents)"
  shows "\<exists>s'. Update P s ents = (Ok ents', s') \<and> live s' = Some c' \<and> lastApplied (fst s') = Index (last ents)"
proof -
  obtain h where h: "db (fst s) = Some h"
    and "Update P s ents = (Ok ents', (fst s)\<lparr>lastApplied := Index (last ents)\<rparr>,
      fs_put (pd_dir h) (FDB c') (snd s))"
    using Update_live [OF assms(1,3), of P] assms(2,4) leD [of "Index (last ents)" "lastApplied (fst s)"]
      assms(5) by (fastforce simp: Let_def)
  moreover have "live (fst s, snd s) = Some c" using assms(1) by simp
  ultimately show ?thesis using live_put(1) [of "fst s" "snd s" c h] by simp
qed

context pebble_db
begin

lemma contents_write:
  "pb_apply P c (ops @ [BSet (str_bytes appliedIndexKey) (le64_put i)]) = Inr c' \<Longrightarrow>
   contents P c' = with_index i (apply_ops ops (contents P c))"
  by (drule apply_contents) (simp add: with_index_def)

lemma Update_store:
  assumes "live s = Some c" "Update P s ents = (Ok ents', s')"
  obtains ops where "update_loop ents = Ok (ents', ops)" "ents \<noteq> []"
    "store P s' = Some (with_index (Index (last ents)) (apply_ops ops (contents P c)))"
    "lastApplied (fst s) < Index (last ents)" "lastApplied (fst s') = Index (last ents)"
  using Update_Ok [OF assms] contents_write that by (fastforce simp: store_Some)

end

text \<open>An operation acts on each key by itself, so that a write to the index key commutes past others.\<close>

lemma apply_op_local: "m k = m' k \<Longrightarrow> apply_op op m k = apply_op op m' k"
  by (cases op) auto

lemma apply_ops_local: "m k = m' k \<Longrightarrow> apply_ops ops m k = apply_ops ops m' k"
proof (induction ops arbitrary: m m')
  case (Cons op ops)
  have "apply_op op m k = apply_op op m' k" using Cons.prems by (rule apply_op_local)
  then show ?case using Cons.IH [of "apply_op op m" "apply_op op m'"] by simp
qed simp

lemma with_index_absorb: "with_index j (apply_ops ops (with_index i m)) = with_index j (apply_ops ops m)"
proof
  fix k
  have "apply_ops ops (with_index i m) k = apply_ops ops m k" if "k \<noteq> str_bytes appliedIndexKey"
    by (rule apply_ops_local) (simp add: with_index_def that)
  then show "with_index j (apply_ops ops (with_index i m)) k = with_index j (apply_ops ops m) k"
    by (simp add: with_index_def del: apply_ops_simps)
qed

section \<open>Properties\<close>

text \<open>
  C1. Update implements the abstract commands: on a live replica, entries that carry marshalled
  commands and whose last index is new are all applied, in order, together with the index of the
  last one, and each entry's result is the length of its command; the only other outcome is an
  error of the storage engine, and then the replica is exactly as before.
\<close>

theorem update_refines:
  assumes "pebble_db P" "live s = Some c"
    and "list_all command_ok cs" "map Cmd ents = map command_bytes cs" "ents \<noteq> []"
    and "lastApplied (fst s) < Index (last ents)"
  shows "case Update P s ents of (r, s') \<Rightarrow>
    r = Ok (map done_entry ents)
      \<and> store P s' = Some (with_index (Index (last ents)) (fold command_effect cs (contents P c)))
      \<and> lastApplied (fst s') = Index (last ents)
    \<or> (\<exists>e ops. r = Err e \<and> pb_apply P c ops = Inl e \<and> s' = s)"
proof -
  let ?ops = "map kv_op (concat (map command_kvs cs))"
  let ?wb = "?ops @ [BSet (str_bytes appliedIndexKey) (le64_put (Index (last ents)))]"
  have loop: "update_loop ents = Ok (map done_entry ents, ?ops)"
    using assms(3,4) by (rule update_loop_commands)
  show ?thesis
  proof (cases "pb_apply P c ?wb")
    case (Inl e)
    with Update_live [OF assms(2,5), of P] loop have "Update P s ents = (Err e, s)" by auto
    with Inl show ?thesis by auto
  next
    case (Inr c')
    with Update_accepted [OF assms(2) loop assms(5) _ assms(6)]
    obtain s' where U: "Update P s ents = (Ok (map done_entry ents), s')" by blast
    from pebble_db.Update_store [OF assms(1,2) U] loop
    show ?thesis by (auto simp: U apply_commands)
  qed
qed

definition example_entry :: "uint64 \<Rightarrow> command \<Rightarrow> entry" where
  "example_entry i c = \<lparr>Index = i, Cmd = command_bytes c, Result = 0\<rparr>"

lemma example_entry_simps [simp]:
  "Index (example_entry i c) = i" "Cmd (example_entry i c) = command_bytes c"
  by (simp_all add: example_entry_def)

lemma live_example:
  "live example_replica = Some [(str_bytes ''a'', [1]), (str_bytes ''ab'', [2]), (str_bytes ''b'', [3]),
     (str_bytes appliedIndexKey, le64_put 5)]"
  by (simp add: live_def example_replica_def db_content_def)

lemma lastApplied_example [simp]: "lastApplied (fst example_replica) = 5"
  by (simp add: example_replica_def)

theorem update_refines_witness:
  "\<exists>s'. Update ref_pebble example_replica
      [example_entry 6 (CData \<lparr>Key = ''x'', Val = Some [9]\<rparr>),
       example_entry 7 (CBatch ''PUT'' [\<lparr>Key = ''x'', Val = None\<rparr>, \<lparr>Key = ''y'', Val = Some []\<rparr>])]
    = (Ok (map done_entry [example_entry 6 (CData \<lparr>Key = ''x'', Val = Some [9]\<rparr>),
       example_entry 7 (CBatch ''PUT'' [\<lparr>Key = ''x'', Val = None\<rparr>, \<lparr>Key = ''y'', Val = Some []\<rparr>])]), s')
    \<and> lastApplied (fst s') = 7
    \<and> (\<exists>m. store ref_pebble s' = Some m \<and> m (str_bytes ''x'') = None \<and> m (str_bytes ''y'') = Some [])"
proof -
  let ?cs = "[CData \<lparr>Key = ''x'', Val = Some [9]\<rparr>,
    CBatch ''PUT'' [\<lparr>Key = ''x'', Val = None\<rparr>, \<lparr>Key = ''y'', Val = Some []\<rparr>]]"
  let ?es = "[example_entry 6 (CData \<lparr>Key = ''x'', Val = Some [9]\<rparr>),
    example_entry 7 (CBatch ''PUT'' [\<lparr>Key = ''x'', Val = None\<rparr>, \<lparr>Key = ''y'', Val = Some []\<rparr>])]"
  have ok: "list_all command_ok ?cs" by (simp add: utf8_ok_ascii is_ascii_def)
  have eq: "map Cmd ?es = map command_bytes ?cs" by (simp del: command_bytes.simps)
  have lt: "lastApplied (fst example_replica) < Index (last ?es)" by simp
  obtain r s' where U: "Update ref_pebble example_replica ?es = (r, s')" by (rule prod.exhaust)
  from update_refines [OF refdb.pebble_db_axioms live_example ok eq _ lt] U
  have "r = Ok (map done_entry ?es)" "lastApplied (fst s') = 7"
    "\<exists>m. store ref_pebble s' = Some m \<and> m (str_bytes ''x'') = None \<and> m (str_bytes ''y'') = Some []"
    by (auto simp del: command_bytes.simps simp: command_effect_def kv_effect_def with_index_def appliedIndexKey_def)
  with U show ?thesis by blast
qed

text \<open>A log, handed to \<open>Update\<close> in groups; the first error or panic ends it.\<close>

fun apply_log ::
    "('db, 'a) pebble_scheme \<Rightarrow> 'db replica \<Rightarrow> entry list list \<Rightarrow> entry list outcome \<times> 'db replica" where
  "apply_log P s [] = (Ok [], s)"
| "apply_log P s (es # ess) = (case Update P s es of
     (Ok r, s1) \<Rightarrow> (case apply_log P s1 ess of (r', s2) \<Rightarrow> (map_outcome2 (append r) r', s2))
   | (r, s1) \<Rightarrow> (r, s1))"

lemma apply_log_Cons_Ok:
  assumes "apply_log P s (es # ess) = (Ok r, s')"
  obtains r1 s1 r2 where "Update P s es = (Ok r1, s1)" "apply_log P s1 ess = (Ok r2, s')" "r = r1 @ r2"
proof -
  obtain r1 s1 where u: "Update P s es = (Ok r1, s1)"
    using assms by (cases "Update P s es"; cases "fst (Update P s es)") auto
  obtain x s2 where l: "apply_log P s1 ess = (x, s2)" by (rule prod.exhaust)
  with assms u obtain r2 where "x = Ok r2" "r = r1 @ r2" "s2 = s'" by (cases x) auto
  with u l that show thesis by blast
qed

context pebble_db
begin

lemma apply_log_store:
  assumes "apply_log P s b = (Ok r, s')" "b \<noteq> []" "store P s = Some m"
  shows "\<exists>ops. update_loop (concat b) = Ok (r, ops)
    \<and> store P s' = Some (with_index (Index (last (concat b))) (apply_ops ops m))
    \<and> lastApplied (fst s') = Index (last (concat b)) \<and> concat b \<noteq> []"
  using assms
proof (induction b arbitrary: s r m)
  case (Cons es ess)
  obtain r1 s1 r2 where u: "Update P s es = (Ok r1, s1)" "apply_log P s1 ess = (Ok r2, s')" "r = r1 @ r2"
    using Cons.prems(1) by (rule apply_log_Cons_Ok)
  obtain c where c: "live s = Some c" "m = contents P c" using Cons.prems(3) by (auto simp: store_Some)
  obtain o1 where 1: "update_loop es = Ok (r1, o1)" "es \<noteq> []"
    "store P s1 = Some (with_index (Index (last es)) (apply_ops o1 m))" "lastApplied (fst s1) = Index (last es)"
    using Update_store [OF c(1) u(1)] c(2) by metis
  show ?case
  proof (cases "ess = []")
    case True
    with u 1 show ?thesis by simp
  next
    case False
    with Cons.IH [OF u(2) False 1(3)] obtain o2 where "update_loop (concat ess) = Ok (r2, o2)"
      "store P s' = Some (with_index (Index (last (concat ess))) (apply_ops o2 (with_index (Index (last es)) (apply_ops o1 m))))"
      "lastApplied (fst s') = Index (last (concat ess))" "concat ess \<noteq> []" by blast
    with 1 u(3) show ?thesis by (simp add: update_loop_append with_index_absorb)
  qed
qed simp

text \<open>The hash is that of the sorted pairs, so it depends on the map only.\<close>

lemma GetHash_determined:
  assumes "pebble_db Q" "store P s = Some m" "store Q t = Some m"
  shows "GetHash P s = GetHash Q t \<and> is_Ok (GetHash P s)"
proof -
  obtain d fs e gs where st: "s = (d, fs)" "t = (e, gs)" by (metis surj_pair)
  obtain c c' where c: "live s = Some c" "live t = Some c'" "contents P c = m" "contents Q c' = m"
    using assms(2,3) by (auto simp: store_Some)
  have "pairs P c = pairs Q c'" using pairs_determined [OF assms(1)] c(3,4) by simp
  moreover have "write_all (\<lambda>w b. Inr (w @ b)) w bs = (Ok (), w @ concat bs)" for w and bs :: "bytes list"
    by (induction bs arbitrary: w) simp_all
  ultimately show ?thesis
    using c(1,2) st by (auto simp: GetHash_def live_Some saveToWriter_def)
qed

end



end
