(* ===== verification/Disk_Lifecycle.thy ===== *)
theory Disk_Lifecycle
  imports Disk_Directory Disk_Update
begin

text \<open>
  Opening, running and restarting a replica. A data directory is well-formed when its current file
  names a database with a readable applied index and UTF-8 keys (\<open>disk_ok\<close>); a running replica is
  well-formed when it uses that database and its \<open>lastApplied\<close> is the stored index
  (\<open>replica_ok\<close>). Every operation keeps these invariants, whatever system call fails.
\<close>

section \<open>Databases\<close>

definition index_of :: "(bytes \<rightharpoonup> bytes) \<Rightarrow> uint64 outcome" where
  "index_of m = (case m (str_bytes appliedIndexKey) of
     None \<Rightarrow> Ok 0
   | Some v \<Rightarrow> if v = [] then Ok 0
       else (case le64_get v of None \<Rightarrow> Panic ''index out of range'' | Some w \<Rightarrow> Ok w))"

definition utf8_store :: "(bytes \<rightharpoonup> bytes) \<Rightarrow> bool" where
  "utf8_store m \<longleftrightarrow> (\<forall>k\<in>dom m. utf8_ok (bytes_str k))"

definition map_ok :: "(bytes \<rightharpoonup> bytes) \<Rightarrow> bool" where
  "map_ok m \<longleftrightarrow> utf8_store m \<and> is_Ok (index_of m)"

text \<open>The engine accepts what it is given: no I/O error is reported.\<close>

definition engine_ok :: "('db, 'a) pebble_scheme \<Rightarrow> bool" where
  "engine_ok P \<longleftrightarrow> (\<forall>old. \<exists>c. pb_open P old = Inr c) \<and> (\<forall>c ops. \<exists>c'. pb_apply P c ops = Inr c')"

lemma engine_ok_ref: "engine_ok ref_pebble"
  by (simp add: engine_ok_def)

lemma le64_put_neq_Nil [simp]: "le64_put i \<noteq> []"
  using length_le64_put [of i] by force

lemma index_of_with_index [simp]: "index_of (with_index i m) = Ok i"
  by (simp add: index_of_def with_index_def)

lemma index_of_empty [simp]: "index_of Map.empty = Ok 0"
  by (simp add: index_of_def)

lemma utf8_store_empty [simp]: "utf8_store Map.empty"
  by (simp add: utf8_store_def)

lemma utf8_index_key [simp]: "utf8_ok appliedIndexKey"
  by (simp add: utf8_ok_ascii is_ascii_def appliedIndexKey_def)

lemma utf8_store_upd: "utf8_store m \<Longrightarrow> utf8_ok (bytes_str k) \<Longrightarrow> utf8_store (m(k := v))"
  by (auto simp: utf8_store_def dom_def)

lemma utf8_store_with_index: "utf8_store m \<Longrightarrow> utf8_store (with_index i m)"
  unfolding with_index_def by (rule utf8_store_upd) simp_all

fun op_key :: "batch_op \<Rightarrow> bytes" where
  "op_key (BSet k v) = k"
| "op_key (BDelete k) = k"

definition utf8_ops :: "batch_op list \<Rightarrow> bool" where
  "utf8_ops ops \<longleftrightarrow> (\<forall>op\<in>set ops. utf8_ok (bytes_str (op_key op)))"

lemma utf8_ops_simps [simp]:
  "utf8_ops []" "utf8_ops (op # ops) \<longleftrightarrow> utf8_ok (bytes_str (op_key op)) \<and> utf8_ops ops"
  "utf8_ops (ops @ ops') \<longleftrightarrow> utf8_ops ops \<and> utf8_ops ops'"
  by (auto simp: utf8_ops_def)

lemma apply_ops_utf8: "utf8_store m \<Longrightarrow> utf8_ops ops \<Longrightarrow> utf8_store (apply_ops ops m)"
proof (induction ops arbitrary: m)
  case (Cons op ops)
  then have "utf8_store (apply_op op m)" by (cases op) (simp_all add: utf8_store_upd)
  with Cons show ?case by simp
qed simp

lemma op_key_kv_op [simp]: "op_key (kv_op kv) = str_bytes (Key kv)"
  by (simp add: kv_op_def split: option.splits)

lemma batch_ops_utf8: "batch_ops as = Ok ops \<Longrightarrow> list_all utf8_ptr as \<Longrightarrow> utf8_ops ops"
proof (induction as arbitrary: ops)
  case (Cons a as)
  then obtain kv ops' where "a = Some kv" "batch_ops as = Ok ops'" "ops = kv_op kv # ops'"
    by (cases a; cases "batch_ops as") auto
  with Cons show ?case by (simp add: utf8_ptr_def)
qed simp

text \<open>Keys only enter through JSON texts, whose strings decode to valid UTF-8.\<close>

lemma entry_ops_utf8:
  assumes "entry_ops cmd = Ok (Some ops)"
  shows "utf8_ops ops"
proof -
  obtain b okb where b: "json_Unmarshal dec_KVBatch cmd zero_KVBatch = (b, okb)" by fastforce
  have ub: "utf8_ptrs (kb_Batch b)"
    using b by (rule Unmarshal_inv)
      (auto simp: utf8_ptrs_def zero_KVBatch_def intro: dec_KVBatch_utf8 [unfolded utf8_ptrs_def])
  let ?z = "\<lparr>ka_Action = [], ka_Data = Some zero_KVData\<rparr>"
  obtain a oka where a: "json_Unmarshal dec_KVAction cmd ?z = (a, oka)" by fastforce
  have z: "utf8_ptr (ka_Data ?z)" by (simp add: utf8_ptr_def zero_KVData_def)
  have ua: "utf8_ptr (ka_Data a)"
    using a z by (rule Unmarshal_inv) (use z in \<open>auto intro: dec_KVAction_utf8\<close>)
  have ud: "utf8_ok (Key d')" if "ka_Data a = Some d" "json_Unmarshal dec_KVData cmd d = (d', ok)" for d d' ok
    using that(2) by (rule Unmarshal_inv) (use ua that(1) in \<open>auto simp: utf8_ptr_def intro: dec_KVData_utf8\<close>)
  show ?thesis
  proof (cases "okb \<and> kb_Batch b \<noteq> None")
    case True
    then obtain as where as: "kb_Batch b = Some as" by auto
    with True assms b obtain ops' where "batch_ops as = Ok ops'" "ops = ops'"
      by (cases "batch_ops as") (auto simp: entry_ops_def)
    with ub as batch_ops_utf8 show ?thesis by (simp add: utf8_ptrs_def)
  next
    case False
    with assms b a have "\<exists>d. ka_Data a = Some d \<and>
        (ops = [kv_op d] \<or> (\<exists>d' ok. json_Unmarshal dec_KVData cmd d = (d', ok) \<and> ops = [kv_op d']))"
      by (auto simp: entry_ops_def Let_def split: bool.splits option.splits if_splits prod.splits)
    with ua ud show ?thesis by (auto simp: utf8_ptr_def)
  qed
qed

lemma update_loop_utf8: "update_loop ents = Ok (ents', ops) \<Longrightarrow> utf8_ops ops"
  by (induction ents arbitrary: ents' ops)
    (auto split: outcome.splits option.splits dest: entry_ops_utf8)

context pebble_db
begin

lemma queryAppliedIndex_contents: "queryAppliedIndex P c = index_of (contents P c)"
  by (simp add: queryAppliedIndex_def get_contents index_of_def split: option.split)

end

section \<open>The invariants\<close>

abbreviation node_dir :: "DiskKV \<Rightarrow> string" where
  "node_dir d \<equiv> getNodeDBDirName (clusterID d) (ReplicaID d)"

definition not_file :: "'db fs \<Rightarrow> string \<Rightarrow> bool" where
  "not_file fs p \<longleftrightarrow> (\<forall>b. map_of fs p \<noteq> Some (FFile b))"

text \<open>The node's directory and its parent are not regular files.\<close>

definition dirs_ok :: "'db fs \<Rightarrow> string \<Rightarrow> bool" where
  "dirs_ok fs dir \<longleftrightarrow> not_file fs dir \<and> not_file fs (path_dir dir)"

definition disk_ok :: "('db, 'a) pebble_scheme \<Rightarrow> string \<Rightarrow> 'db fs \<Rightarrow> bool" where
  "disk_ok P dir fs \<longleftrightarrow> dirs_ok fs dir \<and>
     (\<exists>n c. current_db fs dir = Some (join_path dir n, c) \<and> simple_name n \<and> map_ok (contents P c))"

definition replica_ok :: "('db, 'a) pebble_scheme \<Rightarrow> 'db replica \<Rightarrow> bool" where
  "replica_ok P s \<longleftrightarrow> (case s of (d, fs) \<Rightarrow>
     disk_ok P (node_dir d) fs \<and> \<not> closed d \<and> \<not> aborted d \<and>
     (\<exists>p c. current_db fs (node_dir d) = Some (p, c)
        \<and> db d = Some \<lparr>pd_dir = p, pd_closed = False\<rparr> \<and> index_of (contents P c) = Ok (lastApplied d)))"

lemma replica_ok_live:
  "replica_ok P (d, fs) \<Longrightarrow> \<exists>c. live (d, fs) = Some c \<and> map_ok (contents P c)
     \<and> index_of (contents P c) = Ok (lastApplied d)"
  by (auto simp: replica_ok_def live_def current_db_Some db_content_def disk_ok_def)

lemma path_dir_length: "length (path_dir p) \<le> length p"
  using length_dropWhile_le [of "\<lambda>c. c \<noteq> CHR ''/''" "rev p"] by (simp add: path_dir_def)

lemma path_dir_join [simp]: "CHR ''/'' \<notin> set n \<Longrightarrow> path_dir (join_path dir n) = dir"
proof -
  assume "CHR ''/'' \<notin> set n"
  then have "dropWhile (\<lambda>c. c \<noteq> CHR ''/'') (rev n @ CHR ''/'' # rev dir) = CHR ''/'' # rev dir"
    by (subst dropWhile_append2) auto
  then show ?thesis by (simp add: path_dir_def join_path_def)
qed

lemma join_neq_parent [simp]: "join_path dir n \<noteq> path_dir dir" "path_dir dir \<noteq> join_path dir n"
  using path_dir_length [of dir] by (auto simp: join_path_def dest: arg_cong [where f = length])

lemma not_below_parent: "\<not> prefix (join_path dir n @ ''/'') (path_dir dir)"
  using path_dir_length [of dir] by (auto simp: join_path_def dest: prefix_length_le)

text \<open>Putting or removing an entry below the node's directory keeps the directories.\<close>

lemma dirs_ok_put [simp]: "dirs_ok (fs_put (join_path dir n) x fs) dir \<longleftrightarrow> dirs_ok fs dir"
  by (simp add: dirs_ok_def not_file_def)

lemma dirs_ok_remove [simp]: "dirs_ok (fs_remove (join_path dir n) fs) dir \<longleftrightarrow> dirs_ok fs dir"
  by (simp add: dirs_ok_def not_file_def map_of_fs_remove not_below_dir not_below_parent)

lemma saveCurrent_dirs:
  assumes "saveCurrentDBDirName F fs dir p = (r, fs')"
  shows "dirs_ok fs' dir \<longleftrightarrow> dirs_ok fs dir"
  using saveCurrent_frame [OF assms] by (simp add: dirs_ok_def not_file_def)

lemma replaceCurrent_dirs:
  assumes "replaceCurrentDBFile F fs dir = (r, fs')"
  shows "dirs_ok fs' dir \<longleftrightarrow> dirs_ok fs dir"
  using replaceCurrent_cases [OF assms] by auto

lemma cleanup_dirs:
  assumes "cleanupNodeDataDir F fs dir = (r, fs')"
  shows "dirs_ok fs' dir \<longleftrightarrow> dirs_ok fs dir"
proof -
  have loop: "cleanup_loop F dir p names fs1 = (r, fs') \<Longrightarrow> dirs_ok fs' dir \<longleftrightarrow> dirs_ok fs1 dir" for p names fs1
    by (induction names arbitrary: fs1) (auto simp: Let_def split: if_splits option.splits)
  show ?thesis using assms
    by (auto simp: cleanupNodeDataDir_def Let_def split: option.splits outcome.splits dest!: loop)
qed

lemma createNodeDataDir_dirs:
  assumes "createNodeDataDir F fs dir = (r, fs')" "dirs_ok fs dir"
  shows "dirs_ok fs' dir"
  using assms
  by (auto simp: createNodeDataDir_def fs_mkdir_def dirs_ok_def not_file_def
      split: option.splits sum.splits node.splits if_splits)

lemma createNodeDataDir_no_faults:
  "dirs_ok fs dir \<Longrightarrow> \<exists>fs'. createNodeDataDir no_faults fs dir = (Ok (), fs')"
  by (auto simp: createNodeDataDir_def fs_mkdir_def dirs_ok_def not_file_def split: option.splits sum.splits node.splits)

lemma disk_ok_frame:
  assumes "disk_ok P dir fs" "dirs_ok fs' dir"
    and "\<And>n c. current_db fs dir = Some (join_path dir n, c) \<Longrightarrow> simple_name n \<Longrightarrow>
      current_db fs' dir = Some (join_path dir n, c)"
  shows "disk_ok P dir fs'"
  using assms unfolding disk_ok_def by blast

lemma createNodeDataDir_disk:
  assumes "createNodeDataDir F fs dir = (r, fs')" "disk_ok P dir fs"
  shows "disk_ok P dir fs'" "current_db fs dir = Some (join_path dir n, c) \<Longrightarrow>
    current_db fs' dir = Some (join_path dir n, c)"
proof -
  show c: "current_db fs' dir = Some (join_path dir n, c)"
    if "current_db fs dir = Some (join_path dir n, c)" for n c
    using that by (rule current_db_frame) (simp_all add: createNodeDataDir_frame [OF assms(1)])
  show "disk_ok P dir fs'"
    using assms(2) by (rule disk_ok_frame)
      (use assms in \<open>auto simp: disk_ok_def c intro: createNodeDataDir_dirs\<close>)
qed

lemma cleanup_disk:
  assumes "cleanupNodeDataDir F fs dir = (r, fs')" "disk_ok P dir fs"
  shows "disk_ok P dir fs'"
  using assms(2) by (rule disk_ok_frame)
    (use assms cleanup_dirs [OF assms(1)] cleanup_current_db [OF assms(1)] in \<open>auto simp: disk_ok_def\<close>)

section \<open>Open\<close>

lemma current_db_put:
  assumes "current_db fs dir = Some (join_path dir n, c)" "simple_name n"
  shows "current_db (fs_put (join_path dir n) (FDB c') fs) dir = Some (join_path dir n, c')"
proof -
  have "getCurrentDBDirName no_faults (fs_put (join_path dir n) (FDB c') fs) dir
      = getCurrentDBDirName no_faults fs dir"
    using assms(2) by (intro getCurrent_cong) (auto simp: simple_name_def)
  with assms show ?thesis by (simp add: current_db_Some)
qed

text \<open>A replica keeps its identity.\<close>

lemma open_at_ids:
  "open_at P F p (d, fs) = (r, d', fs') \<Longrightarrow> clusterID d' = clusterID d \<and> ReplicaID d' = ReplicaID d"
  by (auto simp: open_at_def Let_def split: prod.splits outcome.splits option.splits)

lemma Open_ids:
  assumes "Open P F rn ct (d, fs) = (r, d', fs')"
  shows "clusterID d' = clusterID d \<and> ReplicaID d' = ReplicaID d"
  using assms unfolding Open_def Let_def
  by (auto split: prod.splits outcome.splits if_splits dest: open_at_ids)

text \<open>Opening an existing database: the handle is new, the contents are the old ones.\<close>

lemma createDB_existing:
  assumes "createDB P F fs p = (r, fs')" "map_of fs p = Some (FDB c)"
  shows "(fs' = fs \<and> (\<exists>e. r = Err e)) \<or> (\<exists>c'. pb_open P (Some c) = Inr c' \<and>
    r = Ok \<lparr>pd_dir = p, pd_closed = False\<rparr> \<and> fs' = fs_put p (FDB c') fs)"
  using assms by (auto simp: createDB_def fs_mkdir_def split: option.splits sum.splits)

lemma cleanup_no_faults:
  assumes "getCurrentDBDirName no_faults fs dir = Ok p"
  shows "\<exists>fs'. cleanupNodeDataDir no_faults fs dir = (Ok (), fs')"
proof -
  have loop: "\<exists>fs'. cleanup_loop no_faults dir p names fs = (Ok (), fs')" for names and fs :: "'a fs"
    by (induction names arbitrary: fs) (simp_all add: Let_def)
  have "getCurrentDBDirName no_faults (fs_remove (join_path dir updatingDBFilename) fs) dir = Ok p"
    using assms getCurrent_cong [of "fs_remove (join_path dir updatingDBFilename) fs" dir fs] by simp
  then show ?thesis using loop by (simp add: cleanupNodeDataDir_def Let_def)
qed

text \<open>The file operations of a first start, without faults.\<close>

lemma first_start_files:
  assumes "isNewRun fs dir" "dirs_ok fs dir" "map_of fs (join_path dir n) = None" "simple_name n"
  obtains fs0 fs1 fs2 where "createNodeDataDir no_faults fs dir = (Ok (), fs0)" "isNewRun fs0 dir"
    "saveCurrentDBDirName no_faults fs0 dir (join_path dir n) = (Ok (), fs1)"
    "replaceCurrentDBFile no_faults fs1 dir = (Ok (), fs2)"
    "map_of fs2 (join_path dir n) = None" "dirs_ok fs2 dir"
    "getCurrentDBDirName no_faults fs2 dir = Ok (join_path dir n)"
proof -
  have n: "CHR ''/'' \<notin> set n" "n \<noteq> currentDBFilename" "n \<noteq> updatingDBFilename"
    using assms(4) by (simp_all add: simple_name_def)
  obtain fs0 where cn: "createNodeDataDir no_faults fs dir = (Ok (), fs0)"
    using assms(2) createNodeDataDir_no_faults by blast
  then have new: "isNewRun fs0 dir" and dirs: "dirs_ok fs0 dir"
    using assms(1,2) createNodeDataDir_frame [OF cn] createNodeDataDir_dirs by (auto simp: isNewRun_def)
  then have file0: "\<forall>b. map_of fs0 dir \<noteq> Some (FFile b)" by (simp add: dirs_ok_def not_file_def)
  obtain fs1 where sv: "saveCurrentDBDirName no_faults fs0 dir (join_path dir n) = (Ok (), fs1)"
    using saveCurrent_no_faults [OF file0] by blast
  have "\<forall>b. map_of fs1 dir \<noteq> Some (FFile b)" using file0 saveCurrent_frame [OF sv] by simp
  then obtain fs2 where rp: "replaceCurrentDBFile no_faults fs1 dir = (Ok (), fs2)"
    using replaceCurrent_no_faults saveCurrent_Ok [OF sv] by blast
  have "map_of fs2 (join_path dir n) = None"
    using replaceCurrent_frame(1) [OF rp n] saveCurrent_frame [OF sv, of "join_path dir n"] n(3)
      createNodeDataDir_frame [OF cn] assms(3) by simp
  moreover have "dirs_ok fs2 dir"
    using replaceCurrent_dirs [OF rp] saveCurrent_dirs [OF sv] dirs by simp
  moreover have "getCurrentDBDirName no_faults fs2 dir = Ok (join_path dir n)"
    using replaceCurrent_cases [OF rp] saveCurrent_Ok [OF sv]
    by (intro getCurrent_current_bytes) (auto simp: join_path_def)
  ultimately show thesis using that cn new sv rp by blast
qed

context pebble_db
begin

lemma open_at_existing:
  assumes "current_db fs dir = Some (join_path dir n, c)" "simple_name n"
    and "open_at P F (join_path dir n) (d, fs) = (r, d', fs')"
  shows "\<exists>c'. current_db fs' dir = Some (join_path dir n, c') \<and> contents P c' = contents P c"
    and "dirs_ok fs' dir \<longleftrightarrow> dirs_ok fs dir"
    and "r = Ok i \<Longrightarrow> index_of (contents P c) = Ok i \<and>
      d' = d\<lparr>db := Some \<lparr>pd_dir = join_path dir n, pd_closed = False\<rparr>, lastApplied := i\<rparr>"
proof -
  obtain r1 fs1 where cr: "createDB P F fs (join_path dir n) = (r1, fs1)" by fastforce
  have "map_of fs (join_path dir n) = Some (FDB c)" using assms(1) by (simp add: current_db_Some)
  from createDB_existing [OF cr this] consider (err) e where "fs1 = fs" "r1 = Err e"
    | (ok) c' where "pb_open P (Some c) = Inr c'" "r1 = Ok \<lparr>pd_dir = join_path dir n, pd_closed = False\<rparr>"
      "fs1 = fs_put (join_path dir n) (FDB c') fs" by blast
  then have "(\<exists>c'. current_db fs' dir = Some (join_path dir n, c') \<and> contents P c' = contents P c)
      \<and> (dirs_ok fs' dir \<longleftrightarrow> dirs_ok fs dir)
      \<and> (r = Ok i \<longrightarrow> index_of (contents P c) = Ok i \<and>
        d' = d\<lparr>db := Some \<lparr>pd_dir = join_path dir n, pd_closed = False\<rparr>, lastApplied := i\<rparr>)"
  proof cases
    case err
    with assms cr show ?thesis by (auto simp: open_at_def)
  next
    case ok
    have "db_content fs1 \<lparr>pd_dir = join_path dir n, pd_closed = False\<rparr> = Some c'"
      by (simp add: ok db_content_def)
    with assms(3) cr ok have "fs' = fs1" "r = Ok i \<Longrightarrow> index_of (contents P c') = Ok i \<and>
        d' = d\<lparr>db := Some \<lparr>pd_dir = join_path dir n, pd_closed = False\<rparr>, lastApplied := i\<rparr>"
      by (auto simp: open_at_def queryAppliedIndex_contents Let_def split: outcome.splits)
    with ok current_db_put [OF assms(1,2)] open_old [OF ok(1)] show ?thesis by auto
  qed
  then show "\<exists>c'. current_db fs' dir = Some (join_path dir n, c') \<and> contents P c' = contents P c"
    "dirs_ok fs' dir \<longleftrightarrow> dirs_ok fs dir"
    "r = Ok i \<Longrightarrow> index_of (contents P c) = Ok i \<and>
      d' = d\<lparr>db := Some \<lparr>pd_dir = join_path dir n, pd_closed = False\<rparr>, lastApplied := i\<rparr>"
    by blast+
qed

text \<open>The steps of \<open>Open\<close> on a data directory that is in use.\<close>

lemma Open_existing_steps:
  assumes "disk_ok P (node_dir d) fs" "current_db fs (node_dir d) = Some (p, c)"
    and "Open P F rn ct (d, fs) = (r, d', fs')"
  shows "\<exists>fs1. disk_ok P (node_dir d) fs1 \<and> current_db fs1 (node_dir d) = Some (p, c) \<and>
    ((\<forall>i. r \<noteq> Ok i) \<and> fs' = fs1 \<or> open_at P F p (d, fs1) = (r, d', fs'))"
proof -
  let ?dir = "node_dir d"
  obtain n where n: "p = join_path ?dir n" "simple_name n" using assms(1,2) by (auto simp: disk_ok_def)
  obtain r0 fs0 where cn: "createNodeDataDir F fs ?dir = (r0, fs0)" by fastforce
  have 0: "disk_ok P ?dir fs0" "current_db fs0 ?dir = Some (p, c)"
    using createNodeDataDir_disk [OF cn assms(1)] assms(2) n(1) by auto
  then have new: "\<not> isNewRun fs0 ?dir" by (auto simp: current_db_Some dest: getCurrent_exists)
  obtain r1 fs1 where cl: "cleanupNodeDataDir F fs0 ?dir = (r1, fs1)" by fastforce
  have 1: "disk_ok P ?dir fs1" "current_db fs1 ?dir = Some (p, c)"
    using cleanup_disk [OF cl 0(1)] cleanup_current_db [OF cl] 0(2) n by auto
  then have g: "getCurrentDBDirName F fs1 ?dir = Ok q \<Longrightarrow> q = p" for q
    by (auto simp: current_db_Some dest: getCurrent_Ok_faults)
  have ex: "map_of fs1 p \<noteq> None" using 1(2) by (simp add: current_db_Some)
  from assms(3) cn cl new ex show ?thesis
    using 0 1 g [symmetric] by (auto simp: Open_def Let_def split: outcome.splits if_splits)
qed

lemma Open_existing:
  assumes "disk_ok P (node_dir d) fs" "current_db fs (node_dir d) = Some (p, c)"
    and "Open P F rn ct (d, fs) = (r, d', fs')"
  shows "disk_ok P (node_dir d) fs'"
    and "r = Ok i \<Longrightarrow> \<not> closed d \<Longrightarrow> \<not> aborted d \<Longrightarrow>
      replica_ok P (d', fs') \<and> store P (d', fs') = Some (contents P c) \<and>
      index_of (contents P c) = Ok i \<and> node_dir d' = node_dir d \<and> lastApplied d' = i"
proof -
  let ?dir = "node_dir d"
  obtain n where n: "p = join_path ?dir n" "simple_name n" and m: "map_ok (contents P c)"
    using assms(1,2) by (auto simp: disk_ok_def)
  obtain fs1 where fs1: "disk_ok P ?dir fs1" "current_db fs1 ?dir = Some (p, c)"
    and alt: "(\<forall>i. r \<noteq> Ok i) \<and> fs' = fs1 \<or> open_at P F p (d, fs1) = (r, d', fs')"
    using Open_existing_steps [OF assms] by blast
  have opened: "(\<exists>c'. current_db fs' ?dir = Some (p, c') \<and> contents P c' = contents P c) \<and> dirs_ok fs' ?dir"
    "r = Ok i \<longrightarrow> index_of (contents P c) = Ok i \<and>
      d' = d\<lparr>db := Some \<lparr>pd_dir = p, pd_closed = False\<rparr>, lastApplied := i\<rparr>"
    if "open_at P F p (d, fs1) = (r, d', fs')" for i
    using open_at_existing [OF _ n(2) that [unfolded n(1)]] fs1 unfolding n(1)
    by (simp_all add: disk_ok_def)
  show disk: "disk_ok P ?dir fs'"
    using alt fs1(1) opened(1) n m unfolding disk_ok_def by metis
  assume "r = Ok i" "\<not> closed d" "\<not> aborted d"
  with alt have "open_at P F p (d, fs1) = (r, d', fs')" by auto
  note o = opened [OF this]
  then obtain c' where "current_db fs' ?dir = Some (p, c')" "contents P c' = contents P c" by auto
  with o(2) [of i] \<open>r = Ok i\<close> \<open>\<not> closed d\<close> \<open>\<not> aborted d\<close> disk
  show "replica_ok P (d', fs') \<and> store P (d', fs') = Some (contents P c) \<and>
      index_of (contents P c) = Ok i \<and> node_dir d' = node_dir d \<and> lastApplied d' = i"
    by (auto simp: replica_ok_def store_def live_def db_content_def current_db_Some)
qed

lemma Open_existing_Ok:
  assumes "engine_ok P" "disk_ok P (node_dir d) fs"
  shows "\<exists>i s'. Open P no_faults rn ct (d, fs) = (Ok i, s')"
proof -
  let ?dir = "node_dir d"
  obtain n c where n: "current_db fs ?dir = Some (join_path ?dir n, c)" "simple_name n"
    using assms(2) by (auto simp: disk_ok_def)
  obtain fs0 where cn: "createNodeDataDir no_faults fs ?dir = (Ok (), fs0)"
    using assms(2) createNodeDataDir_no_faults [of fs] by (auto simp: disk_ok_def)
  have 0: "disk_ok P ?dir fs0" "current_db fs0 ?dir = Some (join_path ?dir n, c)"
    using createNodeDataDir_disk [OF cn assms(2)] n by auto
  then have new: "\<not> isNewRun fs0 ?dir" by (auto simp: current_db_Some dest: getCurrent_exists)
  obtain fs1 where cl: "cleanupNodeDataDir no_faults fs0 ?dir = (Ok (), fs1)"
    using cleanup_no_faults 0(2) by (fastforce simp: current_db_Some)
  have 1: "disk_ok P ?dir fs1" "current_db fs1 ?dir = Some (join_path ?dir n, c)"
    using cleanup_disk [OF cl 0(1)] cleanup_current_db [OF cl] 0(2) n by auto
  obtain c' where c': "pb_open P (Some c) = Inr c'" using assms(1) unfolding engine_ok_def by blast
  have "contents P c' = contents P c" using c' by (rule open_old)
  then have "is_Ok (queryAppliedIndex P c')"
    using 1 by (auto simp: queryAppliedIndex_contents disk_ok_def map_ok_def)
  then obtain i where i: "queryAppliedIndex P c' = Ok i" by (cases "queryAppliedIndex P c'") auto
  have "open_at P no_faults (join_path ?dir n) (d, fs1) = (Ok i,
      d\<lparr>db := Some \<lparr>pd_dir = join_path ?dir n, pd_closed = False\<rparr>, lastApplied := i\<rparr>,
      fs_put (join_path ?dir n) (FDB c') fs1)"
    using 1(2) c' i by (simp add: open_at_def createDB_def fs_mkdir_def current_db_Some db_content_def Let_def)
  with cn new cl 1(2) show ?thesis
    by (auto simp: Open_def Let_def current_db_Some)
qed

text \<open>A first start: the current file is written, then the database is created.\<close>

text \<open>The steps of a first start that succeeds.\<close>

lemma Open_fresh_steps:
  assumes "isNewRun fs (node_dir d)" "Open P F rn ct (d, fs) = (Ok i, d', fs')"
  obtains fs0 fs1 fs2 where "createNodeDataDir F fs (node_dir d) = (Ok (), fs0)"
    "saveCurrentDBDirName F fs0 (node_dir d) (getNewRandomDBDirName (node_dir d) rn ct) = (Ok (), fs1)"
    "replaceCurrentDBFile F fs1 (node_dir d) = (Ok (), fs2)"
    "open_at P F (getNewRandomDBDirName (node_dir d) rn ct) (d, fs2) = (Ok i, d', fs')"
proof -
  let ?dir = "node_dir d" and ?p = "getNewRandomDBDirName (node_dir d) rn ct"
  obtain fs0 where cn: "createNodeDataDir F fs ?dir = (Ok (), fs0)"
    using assms(2) by (auto simp: Open_def Let_def split: prod.splits outcome.splits)
  have new: "isNewRun fs0 ?dir"
    using assms(1) createNodeDataDir_frame [OF cn] by (simp add: isNewRun_def)
  obtain fs1 where sv: "saveCurrentDBDirName F fs0 ?dir ?p = (Ok (), fs1)"
    using assms(2) cn new by (auto simp: Open_def Let_def split: prod.splits outcome.splits)
  obtain fs2 where rp: "replaceCurrentDBFile F fs1 ?dir = (Ok (), fs2)"
    using assms(2) cn new sv by (auto simp: Open_def Let_def split: prod.splits outcome.splits)
  have "open_at P F ?p (d, fs2) = (Ok i, d', fs')"
    using assms(2) cn new sv rp by (simp add: Open_def Let_def)
  with cn sv rp show thesis by (rule that)
qed

lemma Open_fresh:
  assumes "isNewRun fs (node_dir d)" "dirs_ok fs (node_dir d)" "\<not> closed d" "\<not> aborted d"
    and "map_of fs (getNewRandomDBDirName (node_dir d) rn ct) = None"
    and "Open P F rn ct (d, fs) = (Ok i, d', fs')"
  shows "i = 0 \<and> replica_ok P (d', fs') \<and> store P (d', fs') = Some Map.empty \<and>
    node_dir d' = node_dir d \<and> lastApplied d' = 0"
    and "simple_name m \<Longrightarrow> join_path (node_dir d) m \<noteq> getNewRandomDBDirName (node_dir d) rn ct \<Longrightarrow>
      map_of fs' (join_path (node_dir d) m) = map_of fs (join_path (node_dir d) m)"
proof -
  let ?dir = "node_dir d"
  let ?n = "show_uint64 rn @ ''_'' @ show_int ct"
  let ?p = "join_path ?dir ?n"
  have p: "getNewRandomDBDirName ?dir rn ct = ?p" by (simp add: getNewRandomDBDirName_def)
  have simple: "simple_name ?n" by (rule random_name_simple)
  then have n: "CHR ''/'' \<notin> set ?n" "?n \<noteq> currentDBFilename" "?n \<noteq> updatingDBFilename"
    unfolding simple_name_def by blast+
  obtain fs0 fs1 fs2 where cn: "createNodeDataDir F fs ?dir = (Ok (), fs0)"
    and sv: "saveCurrentDBDirName F fs0 ?dir ?p = (Ok (), fs1)" and rp: "replaceCurrentDBFile F fs1 ?dir = (Ok (), fs2)"
    and oa: "open_at P F ?p (d, fs2) = (Ok i, d', fs')"
    using Open_fresh_steps [OF assms(1,6)] unfolding p by blast
  have cur: "map_of fs2 (join_path ?dir currentDBFilename) = Some (FFile (current_bytes ?p))"
    using replaceCurrent_cases [OF rp] saveCurrent_Ok [OF sv] by auto
  have none: "map_of fs2 ?p = None"
    using replaceCurrent_frame(1) [OF rp n] saveCurrent_frame [OF sv, of ?p] n(3)
      createNodeDataDir_frame [OF cn] assms(5) p by simp
  have dirs: "dirs_ok fs2 ?dir"
    using replaceCurrent_dirs [OF rp] saveCurrent_dirs [OF sv] createNodeDataDir_dirs [OF cn assms(2)] by simp
  obtain c where c: "pb_open P None = Inr c" "fs' = fs_put ?p (FDB c) (fs_put ?p FDir fs2)"
    "queryAppliedIndex P c = Ok i"
    "d' = d\<lparr>db := Some \<lparr>pd_dir = ?p, pd_closed = False\<rparr>, lastApplied := i\<rparr>"
    using oa none by (auto simp: open_at_def createDB_def fs_mkdir_def db_content_def Let_def
        split: option.splits sum.splits outcome.splits)
  have e: "contents P c = Map.empty" using c(1) by (rule open_new)
  then have i: "i = 0" using c(3) by (simp add: queryAppliedIndex_contents)
  have "getCurrentDBDirName no_faults fs' ?dir = Ok ?p"
    using cur n(2) by (intro getCurrent_current_bytes) (auto simp: c(2) join_path_def)
  then have db: "current_db fs' ?dir = Some (?p, c)" by (simp add: current_db_Some c(2))
  have "disk_ok P ?dir fs'"
    using db simple dirs by (auto simp: disk_ok_def map_ok_def e c(2))
  with c i e db assms(3,4) show "i = 0 \<and> replica_ok P (d', fs') \<and> store P (d', fs') = Some Map.empty \<and>
      node_dir d' = node_dir d \<and> lastApplied d' = 0"
    by (auto simp: replica_ok_def store_def live_def db_content_def)
  assume m: "simple_name m" "join_path ?dir m \<noteq> getNewRandomDBDirName ?dir rn ct"
  then have "map_of fs2 (join_path ?dir m) = map_of fs (join_path ?dir m)"
    using replaceCurrent_frame(1) [OF rp, of m] saveCurrent_frame [OF sv, of "join_path ?dir m"]
      createNodeDataDir_frame [OF cn] by (simp add: simple_name_def)
  with m(2) show "map_of fs' (join_path ?dir m) = map_of fs (join_path ?dir m)" by (simp add: c(2) p)
qed

lemma Open_fresh_Ok:
  assumes "isNewRun fs (node_dir d)" "dirs_ok fs (node_dir d)" "engine_ok P"
    and "map_of fs (getNewRandomDBDirName (node_dir d) rn ct) = None"
  shows "\<exists>i s'. Open P no_faults rn ct (d, fs) = (Ok i, s')"
proof -
  let ?dir = "node_dir d"
  obtain n where p: "getNewRandomDBDirName ?dir rn ct = join_path ?dir n" and n: "simple_name n"
    using random_name_simple by (metis getNewRandomDBDirName_def)
  from assms(1,2) assms(4) [unfolded p] n obtain fs0 fs1 fs2 where
    fs: "createNodeDataDir no_faults fs ?dir = (Ok (), fs0)" "isNewRun fs0 ?dir"
      "saveCurrentDBDirName no_faults fs0 ?dir (join_path ?dir n) = (Ok (), fs1)"
      "replaceCurrentDBFile no_faults fs1 ?dir = (Ok (), fs2)" "map_of fs2 (join_path ?dir n) = None"
    by (rule first_start_files)
  obtain c where c: "pb_open P None = Inr c" using assms(3) unfolding engine_ok_def by blast
  then have "queryAppliedIndex P c = Ok 0" by (simp add: queryAppliedIndex_contents open_new)
  with c fs(5) have "\<exists>i s'. open_at P no_faults (join_path ?dir n) (d, fs2) = (Ok i, s')"
    by (simp add: open_at_def createDB_def fs_mkdir_def db_content_def Let_def)
  then show ?thesis using fs p by (auto simp: Open_def Let_def)
qed

section \<open>Update and Close\<close>

text \<open>
  What \<open>Update\<close> writes on a well-formed replica: nothing, or a map with the keys and the index of
  the entries it was given.
\<close>

lemma Update_unwritten:
  assumes "live (d, fs) = Some c" "Update P (d, fs) ents = (r, d', fs')"
    and "\<nexists>es ops c'. update_loop ents = Ok (es, ops) \<and> ents \<noteq> [] \<and>
      pb_apply P c (ops @ [BSet (str_bytes appliedIndexKey) (le64_put (Index (last ents)))]) = Inr c'"
  shows "d' = d \<and> fs' = fs \<and> (\<nexists>es. r = Ok es)"
proof (cases "ents = []")
  case True
  then show ?thesis using assms(1,2) by (auto simp: Update_def live_Some)
next
  case ne: False
  show ?thesis
  proof (cases "update_loop ents")
    case (Ok x)
    then obtain es ops where u: "update_loop ents = Ok (es, ops)" by (cases x) auto
    with assms(3) ne obtain e where
      "pb_apply P c (ops @ [BSet (str_bytes appliedIndexKey) (le64_put (Index (last ents)))]) = Inl e"
      by (metis obj_sumE)
    with u assms(2) Update_live [OF assms(1) ne, of P] show ?thesis by auto
  qed (use assms(2) Update_live [OF assms(1) ne, of P] in auto)
qed

lemma Update_writes:
  assumes "replica_ok P (d, fs)" "Update P (d, fs) ents = (r, d', fs')"
  obtains (none) "d' = d" "fs' = fs" "\<nexists>es. r = Ok es"
  | (written) p c c' i where "current_db fs (node_dir d) = Some (p, c)" "fs' = fs_put p (FDB c') fs"
      "contents P c' = with_index i (contents P c')" "utf8_store (contents P c')"
      "(r = Panic ''lastApplied not moving forward'' \<and> d' = d) \<or>
       ((\<exists>es. r = Ok es) \<and> d' = d\<lparr>lastApplied := i\<rparr> \<and> lastApplied d < i)"
proof -
  obtain p c where c: "current_db fs (node_dir d) = Some (p, c)"
    "db d = Some \<lparr>pd_dir = p, pd_closed = False\<rparr>" "\<not> closed d" "\<not> aborted d" "utf8_store (contents P c)"
    using assms(1) by (auto simp: replica_ok_def disk_ok_def map_ok_def)
  then have l: "live (d, fs) = Some c" by (simp add: live_def db_content_def current_db_Some)
  show thesis
  proof (cases "\<exists>es ops c'. update_loop ents = Ok (es, ops) \<and> ents \<noteq> [] \<and>
      pb_apply P c (ops @ [BSet (str_bytes appliedIndexKey) (le64_put (Index (last ents)))]) = Inr c'")
    case True
    then obtain es ops c' where u: "update_loop ents = Ok (es, ops)" "ents \<noteq> []"
      "pb_apply P c (ops @ [BSet (str_bytes appliedIndexKey) (le64_put (Index (last ents)))]) = Inr c'"
      by blast
    have w: "contents P c' = with_index (Index (last ents)) (apply_ops ops (contents P c))"
      using u(3) by (rule contents_write)
    show thesis
    proof (rule written [of p c c' "Index (last ents)"])
      show "contents P c' = with_index (Index (last ents)) (contents P c')"
        by (simp add: w with_index_def)
      show "utf8_store (contents P c')"
        using w utf8_store_with_index apply_ops_utf8 c(5) update_loop_utf8 [OF u(1)] by simp
      show "fs' = fs_put p (FDB c') fs"
        "(r = Panic ''lastApplied not moving forward'' \<and> d' = d) \<or>
         ((\<exists>es. r = Ok es) \<and> d' = d\<lparr>lastApplied := Index (last ents)\<rparr> \<and> lastApplied d < Index (last ents))"
        using assms(2) Update_live [OF l u(2), of P] u c(2) by (auto simp: Let_def not_le split: if_splits)
    qed (rule c(1))
  next
    case False
    from Update_unwritten [OF l assms(2) this] show thesis using none by blast
  qed
qed

lemma Update_replica_ok:
  assumes "replica_ok P (d, fs)" "Update P (d, fs) ents = (r, d', fs')"
  shows "disk_ok P (node_dir d) fs'"
    and "(\<exists>es. r = Ok es) \<Longrightarrow> replica_ok P (d', fs') \<and> node_dir d' = node_dir d \<and> lastApplied d < lastApplied d'"
    and "\<exists>e. r = Err e \<Longrightarrow> d' = d \<and> fs' = fs"
proof -
  have disk: "disk_ok P (node_dir d) fs" using assms(1) by (simp add: replica_ok_def)
  from assms(1) have live: "\<not> closed d" "\<not> aborted d"
    "current_db fs (node_dir d) = Some (p, c) \<Longrightarrow> db d = Some \<lparr>pd_dir = p, pd_closed = False\<rparr>" for p c
    by (auto simp: replica_ok_def)
  from assms have "disk_ok P (node_dir d) fs' \<and>
    ((\<exists>es. r = Ok es) \<longrightarrow> replica_ok P (d', fs') \<and> node_dir d' = node_dir d \<and> lastApplied d < lastApplied d') \<and>
    ((\<exists>e. r = Err e) \<longrightarrow> d' = d \<and> fs' = fs)"
  proof (cases rule: Update_writes)
    case (written p c c' i)
    obtain n where n: "p = join_path (node_dir d) n" "simple_name n" using disk written(1) by (auto simp: disk_ok_def)
    have cur: "current_db fs' (node_dir d) = Some (p, c')"
      using current_db_put n written(1,2) by simp
    have idx: "index_of (contents P c') = Ok i" by (metis written(3) index_of_with_index)
    have "disk_ok P (node_dir d) fs'"
      using cur idx n disk written(2,4) by (auto simp: disk_ok_def map_ok_def)
    then show ?thesis using written(1,5) cur idx live by (auto simp: replica_ok_def)
  qed (use disk in auto)
  then show "disk_ok P (node_dir d) fs'"
    "(\<exists>es. r = Ok es) \<Longrightarrow> replica_ok P (d', fs') \<and> node_dir d' = node_dir d \<and> lastApplied d < lastApplied d'"
    "\<exists>e. r = Err e \<Longrightarrow> d' = d \<and> fs' = fs" by blast+
qed

end

lemma Close_disk: "Close (d, fs) = (r, d', fs') \<Longrightarrow> fs' = fs"
  by (auto simp: Close_def split: option.splits if_splits)

section \<open>Properties\<close>

lemma dirs_ok_empty [simp]: "dirs_ok [] dir"
  by (simp add: dirs_ok_def not_file_def)

definition example_node :: "ref_db replica" where
  "example_node = snd (Open ref_pebble no_faults 7 9 (NewDiskKV 1 2, []))"

lemma example_node_open:
  "Open ref_pebble no_faults 7 9 (NewDiskKV 1 2, []) = (Ok 0, example_node)"
  "replica_ok ref_pebble example_node" "store ref_pebble example_node = Some Map.empty"
  "lastApplied (fst example_node) = 0" "node_dir (fst example_node) = getNodeDBDirName 1 2"
  "map_of (snd example_node) (getNewRandomDBDirName (getNodeDBDirName 1 2) 8 10) = None"
proof -
  have new: "isNewRun ([] :: ref_db fs) (node_dir (NewDiskKV 1 2))"
    "\<not> closed (NewDiskKV 1 2)" "\<not> aborted (NewDiskKV 1 2)" by (simp_all add: isNewRun_def NewDiskKV_def)
  obtain i d' fs' where o: "Open ref_pebble no_faults 7 9 (NewDiskKV 1 2, []) = (Ok i, d', fs')"
    using refdb.Open_fresh_Ok [OF new(1) _ engine_ok_ref, of 7 9] by auto
  have e: "example_node = (d', fs')" by (simp add: example_node_def o)
  note f = refdb.Open_fresh(1) [OF new(1) dirs_ok_empty new(2,3) _ o]
  show "Open ref_pebble no_faults 7 9 (NewDiskKV 1 2, []) = (Ok 0, example_node)"
    "replica_ok ref_pebble example_node" "store ref_pebble example_node = Some Map.empty"
    "lastApplied (fst example_node) = 0" unfolding e using f o by simp_all
  show "node_dir (fst example_node) = getNodeDBDirName 1 2" unfolding e using f by (simp add: NewDiskKV_def)
  let ?n = "show_uint64 8 @ ''_'' @ show_int 10"
  have eq: "getNewRandomDBDirName (getNodeDBDirName 1 2) 8 10 = join_path (node_dir (NewDiskKV 1 2)) ?n"
    by (simp add: getNewRandomDBDirName_def NewDiskKV_def)
  have "show_nat 8 = ''8''" "show_nat 7 = ''7''" by code_simp+
  then have neq: "join_path (node_dir (NewDiskKV 1 2)) ?n \<noteq> getNewRandomDBDirName (node_dir (NewDiskKV 1 2)) 7 9"
    by (simp add: getNewRandomDBDirName_def show_uint64_def)
  show "map_of (snd example_node) (getNewRandomDBDirName (getNodeDBDirName 1 2) 8 10) = None"
    unfolding e eq using refdb.Open_fresh(2) [OF new(1) dirs_ok_empty new(2,3) _ o random_name_simple neq] by simp
qed

text \<open>
  A first start of a node creates an empty store: \<open>Open\<close> returns index 0, the replica is
  well-formed and its current file points to the new database.
\<close>

theorem open_first:
  assumes "pebble_db P" "engine_ok P"
    and "isNewRun fs (getNodeDBDirName cid rid)" "dirs_ok fs (getNodeDBDirName cid rid)"
    and "map_of fs (getNewRandomDBDirName (getNodeDBDirName cid rid) rn ct) = None"
  shows "\<exists>s. Open P no_faults rn ct (NewDiskKV cid rid, fs) = (Ok 0, s) \<and> replica_ok P s
    \<and> store P s = Some Map.empty"
proof -
  have d: "node_dir (NewDiskKV cid rid) = getNodeDBDirName cid rid" "\<not> closed (NewDiskKV cid rid)"
    "\<not> aborted (NewDiskKV cid rid)" by (simp_all add: NewDiskKV_def)
  obtain i d' fs' where o: "Open P no_faults rn ct (NewDiskKV cid rid, fs) = (Ok i, d', fs')"
    using pebble_db.Open_fresh_Ok [OF assms(1), of fs "NewDiskKV cid rid" rn ct] assms(2-5) d by auto
  then show ?thesis
    using pebble_db.Open_fresh(1) [OF assms(1), of fs "NewDiskKV cid rid" rn ct] assms(3-5) d by auto
qed

theorem open_first_witness:
  "\<exists>s. Open ref_pebble no_faults 3 4 (NewDiskKV 1 2, []) = (Ok 0, s) \<and> replica_ok ref_pebble s
    \<and> store ref_pebble s = Some Map.empty"
  by (rule open_first [OF refdb.pebble_db_axioms engine_ok_ref]) (simp_all add: isNewRun_def)

text \<open>
  C16. A restart after a crash continues where the replica stopped: a new \<open>DiskKV\<close> object opened on
  what a well-formed replica left on disk returns the index of the last applied entry, so that the
  raft layer replays exactly the entries after it, and holds the same map.
\<close>

theorem open_restart:
  assumes "pebble_db P" "engine_ok P" "replica_ok P (d, fs)"
  shows "\<exists>s. Open P no_faults rn ct (NewDiskKV (clusterID d) (ReplicaID d), fs) = (Ok (lastApplied d), s)
    \<and> replica_ok P s \<and> store P s = store P (d, fs)"
proof -
  let ?d = "NewDiskKV (clusterID d) (ReplicaID d)"
  have nd: "node_dir ?d = node_dir d" "\<not> closed ?d" "\<not> aborted ?d" by (simp_all add: NewDiskKV_def)
  obtain p c where pc: "current_db fs (node_dir ?d) = Some (p, c)" "disk_ok P (node_dir ?d) fs"
    "index_of (contents P c) = Ok (lastApplied d)" "store P (d, fs) = Some (contents P c)"
    using assms(3) nd by (auto simp: replica_ok_def store_def live_def db_content_def current_db_Some)
  obtain i d' fs' where o: "Open P no_faults rn ct (?d, fs) = (Ok i, d', fs')"
    using pebble_db.Open_existing_Ok [OF assms(1,2) pc(2)] by fastforce
  from pebble_db.Open_existing(2) [OF assms(1) pc(2,1) o refl nd(2,3)] pc(3,4) o show ?thesis by auto
qed

theorem open_restart_witness:
  "\<exists>s. Open ref_pebble no_faults 5 6 (NewDiskKV 1 2, snd example_node) = (Ok 0, s)
    \<and> replica_ok ref_pebble s \<and> store ref_pebble s = Some Map.empty"
proof -
  obtain d fs where e: "example_node = (d, fs)" by fastforce
  have id: "clusterID d = 1" "ReplicaID d = 2"
    using Open_ids [OF example_node_open(1) [unfolded e]] by (simp_all add: NewDiskKV_def)
  have "replica_ok ref_pebble (d, fs)" using example_node_open(2) e by simp
  from open_restart [OF refdb.pebble_db_axioms engine_ok_ref this, of 5 6] show ?thesis
    using example_node_open(3,4) id unfolding e by simp
qed



end
