(* ===== verification/Disk_Snapshot.thy ===== *)
theory Disk_Snapshot
  imports Disk_Lifecycle
begin

text \<open>
  Snapshots: what \<open>SaveSnapshot\<close> writes is read back by \<open>RecoverFromSnapshot\<close> as the same map; a
  truncated stream is refused without touching the database in use; and \<open>GetHash\<close> is a function
  of the map alone.
\<close>

section \<open>The stream\<close>

definition pair_record :: "bytes \<times> bytes \<Rightarrow> bytes" where
  "pair_record kv = le64_put (of_nat (length (pair_data kv))) @ pair_data kv"

definition stream_body :: "(bytes \<times> bytes) list \<Rightarrow> bytes" where
  "stream_body ps = concat (map pair_record ps)"

definition stream :: "(bytes \<times> bytes) list \<Rightarrow> bytes" where
  "stream ps = le64_put (of_nat (length ps)) @ stream_body ps"

text \<open>Pairs a snapshot can carry: keys in UTF-8 and records that fit into memory.\<close>

definition pair_ok :: "bytes \<times> bytes \<Rightarrow> bool" where
  "pair_ok kv \<longleftrightarrow> utf8_ok (bytes_str (fst kv)) \<and> length (pair_data kv) \<le> max_alloc"

definition pairs_ok :: "(bytes \<times> bytes) list \<Rightarrow> bool" where
  "pairs_ok ps \<longleftrightarrow> list_all pair_ok ps \<and> length ps < 2 ^ 64"

lemma stream_body_simps [simp]:
  "stream_body [] = []" "stream_body (kv # ps) = pair_record kv @ stream_body ps"
  by (simp_all add: stream_body_def)

lemma concat_snapshot_writes: "concat (snapshot_writes ps) = stream ps"
proof -
  have "concat (concat (map (\<lambda>kv. [le64_put (of_nat (length (pair_data kv))), pair_data kv]) ps))
      = stream_body ps"
    by (induction ps) (simp_all add: pair_record_def)
  then show ?thesis by (simp add: snapshot_writes_def stream_def)
qed

text \<open>A writer that keeps everything.\<close>

definition append_writer :: "bytes \<Rightarrow> bytes \<Rightarrow> error + bytes" where
  "append_writer w b = Inr (w @ b)"

lemma write_all_append: "write_all append_writer w bs = (Ok (), w @ concat bs)"
  by (induction bs arbitrary: w) (simp_all add: append_writer_def)

lemma read_full_append: "length a = n \<Longrightarrow> read_full n (a @ r) = Inr (a, r)"
  by (simp add: read_full_def)

lemma unat_length: "n < 2 ^ 64 \<Longrightarrow> unat (of_nat n :: uint64) = n"
  by (simp add: unsigned_of_nat take_bit_nat_eq_self)

lemma max_alloc_less: "n \<le> max_alloc \<Longrightarrow> n < 2 ^ 64"
proof -
  have "max_alloc < 2 ^ 64" unfolding max_alloc_def by (rule power_strict_increasing) simp_all
  then show "n \<le> max_alloc \<Longrightarrow> n < 2 ^ 64" by (rule order.strict_trans1 [rotated])
qed

text \<open>Decoding a record gives the operation that writes its pair.\<close>

lemma Unmarshal_pair:
  assumes "utf8_ok (bytes_str (fst kv))"
  shows "json_Unmarshal dec_KVData (pair_data kv) zero_KVData
    = (\<lparr>Key = bytes_str (fst kv), Val = Some (snd kv)\<rparr>, True)"
  using assms by (simp add: pair_data_def Unmarshal_Marshal coerce_KVData_ok)

lemma recover_loop_stream:
  "list_all pair_ok ps \<Longrightarrow>
   recover_loop (length ps) (stream_body ps @ r) = Ok (map (\<lambda>(k, v). BSet k v) ps)"
proof (induction ps)
  case (Cons kv ps)
  then have ok: "utf8_ok (bytes_str (fst kv))" "length (pair_data kv) \<le> max_alloc"
    by (simp_all add: pair_ok_def)
  have n: "unat (le_bytes_word (le64_put (of_nat (length (pair_data kv)))) :: uint64) = length (pair_data kv)"
    by (simp only: le_bytes_word_put unat_length [OF max_alloc_less [OF ok(2)]])
  have 1: "read_full 8 (stream_body (kv # ps) @ r)
      = Inr (le64_put (of_nat (length (pair_data kv))), pair_data kv @ stream_body ps @ r)"
    by (simp add: pair_record_def read_full_append length_le64_put)
  have 2: "read_full (length (pair_data kv)) (pair_data kv @ stream_body ps @ r)
      = Inr (pair_data kv, stream_body ps @ r)" by (simp add: read_full_append)
  show ?case using Cons ok
    by (simp del: stream_body_simps add: 1 2 n Let_def Unmarshal_pair not_less case_prod_unfold)
qed simp

text \<open>A stream that ends early is an error, however much of it arrived.\<close>

lemma recover_loop_truncated:
  "list_all pair_ok ps \<Longrightarrow> k < length (stream_body ps) \<Longrightarrow>
   \<exists>e. recover_loop (length ps) (take k (stream_body ps)) = Err e"
proof (induction ps arbitrary: k)
  case (Cons kv ps)
  then have ok: "utf8_ok (bytes_str (fst kv))" "length (pair_data kv) \<le> max_alloc"
    by (simp_all add: pair_ok_def)
  let ?sz = "le64_put (of_nat (length (pair_data kv)))" and ?n = "length (pair_data kv)"
  have n: "unat (le_bytes_word ?sz :: uint64) = ?n"
    by (simp only: le_bytes_word_put unat_length [OF max_alloc_less [OF ok(2)]])
  have len: "length ?sz = 8" by (simp add: length_le64_put)
  let ?body = "take k (stream_body (kv # ps))"
  consider "k < 8" | "8 \<le> k" "k < 8 + ?n" | "8 + ?n \<le> k" by linarith
  then show ?case
  proof cases
    case 1
    then have "length ?body < 8" by simp
    then show ?thesis by (simp add: read_full_def del: stream_body_simps)
  next
    case 2
    then have "?body = ?sz @ take (k - 8) (pair_data kv)"
      by (simp add: pair_record_def len)
    moreover have "read_full 8 (?sz @ take (k - 8) (pair_data kv)) = Inr (?sz, take (k - 8) (pair_data kv))"
      using len by (rule read_full_append)
    moreover have "\<exists>e. read_full ?n (take (k - 8) (pair_data kv)) = Inl e"
      using 2 by (simp add: read_full_def)
    ultimately show ?thesis using ok(2)
      by (auto simp del: stream_body_simps simp: Let_def n not_less)
  next
    case 3
    then have b: "?body = ?sz @ pair_data kv @ take (k - (8 + ?n)) (stream_body ps)"
      by (simp add: pair_record_def len)
    have r1: "read_full 8 (?sz @ pair_data kv @ take (k - (8 + ?n)) (stream_body ps))
        = Inr (?sz, pair_data kv @ take (k - (8 + ?n)) (stream_body ps))"
      using len by (rule read_full_append)
    have r2: "read_full ?n (pair_data kv @ take (k - (8 + ?n)) (stream_body ps))
        = Inr (pair_data kv, take (k - (8 + ?n)) (stream_body ps))"
      by (rule read_full_append) simp
    have "k - (8 + ?n) < length (stream_body ps)"
      using Cons.prems(2) 3 by (simp add: pair_record_def len)
    with Cons.IH Cons.prems(1) obtain e where
      "recover_loop (length ps) (take (k - (8 + ?n)) (stream_body ps)) = Err e" by auto
    with ok show ?thesis
      by (simp del: stream_body_simps add: b r1 r2 Let_def n not_less Unmarshal_pair)
  qed
qed simp

lemma apply_BSets:
  "distinct (map fst ps) \<Longrightarrow> apply_ops (map (\<lambda>(k, v). BSet k v) ps) m = m ++ map_of ps"
proof (induction ps arbitrary: m)
  case (Cons kv ps)
  then show ?case
    by (cases kv) (simp add: map_add_upd_left dom_map_of_conv_image_fst del: fun_upd_apply)
qed simp

text \<open>A pair whose key and value are short enough fits.\<close>

lemma esc_ascii_length: "length (esc_ascii c) \<le> 6"
  by (simp add: esc_ascii_def Let_def)

lemma quote_body_length: "length (quote_body s) \<le> 6 * length s"
proof (induction s rule: quote_body.induct)
  case (2 c cs)
  obtain r n where rn: "decode_rune (c # cs) = (r, n)" by fastforce
  show ?case
  proof (cases "byte_at c < 128")
    case True
    with 2(1) esc_ascii_length [of c] show ?thesis by simp
  next
    case False
    with 2(2) rn have IH: "length (quote_body (drop (n - 1) cs)) \<le> 6 * (length cs - (n - 1))" by simp
    then have "length (take n (c # cs)) + length (quote_body (drop (n - 1) cs)) \<le> 6 + 6 * length cs"
      by (cases "n \<le> length cs") (auto simp: min_def)
    moreover have "6 + length (quote_body (drop (n - 1) cs)) \<le> 6 + 6 * length cs"
      using IH by simp
    ultimately show ?thesis using False rn by (auto simp: esc_fffd_def)
  qed
qed simp

lemma b64_encode_length: "length (b64_encode bs) \<le> 4 * length bs"
  by (induction bs rule: b64_encode.induct) (simp_all add: Let_def)

lemma quote_names [simp]: "quote_body ''Key'' = ''Key''" "quote_body ''Val'' = ''Val''"
  by (simp_all add: esc_ascii_def)

lemma pair_data_length: "length (pair_data (k, v)) \<le> 6 * length k + 24 * length v + 20"
proof -
  have "length (pair_data (k, v)) = length (quote_body (bytes_str k)) + length (quote_body (b64_encode v)) + 19"
    by (simp add: pair_data_def json_Marshal_def KVData_json_def slice_json_def json_quote_def
        del: quote_body.simps)
  also have "\<dots> \<le> 6 * length k + 24 * length v + 19"
    using quote_body_length [of "bytes_str k"] quote_body_length [of "b64_encode v"] b64_encode_length [of v]
    by simp
  finally show ?thesis by simp
qed

section \<open>Switching to the recovered database\<close>

text \<open>After the name is saved, the rename makes the new database current or changes nothing.\<close>

lemma replace_switches:
  assumes "saveCurrentDBDirName F fs dir p = (Ok (), fs1)" "replaceCurrentDBFile F fs1 dir = (r, fs2)"
    and "p = join_path dir n" "simple_name n" "map_of fs p = Some (FDB c)"
  shows "(fs2 = fs1 \<and> (\<exists>e. r = Err e)) \<or> current_db fs2 dir = Some (p, c)"
proof -
  have n: "CHR ''/'' \<notin> set n" "n \<noteq> currentDBFilename" "n \<noteq> updatingDBFilename"
    using assms(4) by (simp_all add: simple_name_def)
  have "map_of fs2 p = Some (FDB c)"
    using replaceCurrent_frame(1) [OF assms(2) n] saveCurrent_frame [OF assms(1), of p] n(3) assms(3,5) by simp
  moreover have "getCurrentDBDirName no_faults fs2 dir = Ok p" if "\<not> (fs2 = fs1 \<and> (\<exists>e. r = Err e))"
    using replaceCurrent_cases [OF assms(2)] saveCurrent_Ok [OF assms(1)] that
    by (intro getCurrent_current_bytes) (auto simp: assms(3) join_path_def)
  ultimately show ?thesis by (auto simp: current_db_Some)
qed

context pebble_db
begin

lemma recover_switch_safe:
  assumes cur: "current_db fs dir = Some (join_path dir no, cold)" "simple_name no" "map_ok (contents P cold)"
    and new: "map_of fs (join_path dir n) = Some (FDB c)" "simple_name n" "n \<noteq> no" "map_ok (contents P c)"
    and dirs: "dirs_ok fs dir"
    and sw: "recover_switch P F dir (join_path dir no) \<lparr>pd_dir = join_path dir n, pd_closed = False\<rparr> c (d, fs)
      = (r, d', fs')"
  shows "disk_ok P dir fs' \<and> (r = Ok () \<longrightarrow> current_db fs' dir = Some (join_path dir n, c) \<and>
    (\<exists>i. index_of (contents P c) = Ok i \<and> lastApplied d \<le> i \<and>
      d' = d\<lparr>lastApplied := i, db := Some \<lparr>pd_dir = join_path dir n, pd_closed = False\<rparr>\<rparr>))"
proof -
  obtain r1 fs1 where sv: "saveCurrentDBDirName F fs dir (join_path dir n) = (r1, fs1)" by fastforce
  obtain r2 fs2 where rp: "replaceCurrentDBFile F fs1 dir = (r2, fs2)" by fastforce
  obtain i where i: "index_of (contents P c) = Ok i"
    using new(4) by (cases "index_of (contents P c)") (auto simp: map_ok_def)
  have cur1: "current_db fs1 dir = Some (join_path dir no, cold)"
    using cur(1) by (rule current_db_frame) (use saveCurrent_frame [OF sv] cur(2) in \<open>auto simp: simple_name_def\<close>)
  have dirs1: "dirs_ok fs1 dir" "dirs_ok fs2 dir"
    using saveCurrent_dirs [OF sv] replaceCurrent_dirs [OF rp] dirs by simp_all
  have disk1: "disk_ok P dir fs1" using cur1 cur(2,3) dirs1 by (auto simp: disk_ok_def)
  have disk2: "disk_ok P dir fs2x" if "current_db fs2x dir = Some (join_path dir n, c)" "dirs_ok fs2x dir" for fs2x
    using that new by (auto simp: disk_ok_def)
  have rm: "current_db (fs_remove (join_path dir no) fs2) dir = Some (join_path dir n, c)"
    if "current_db fs2 dir = Some (join_path dir n, c)"
    using that by (rule current_db_frame) (use new(2,3) cur(2) in \<open>auto simp: simple_name_def\<close>)
  show ?thesis
  proof (cases "r1 = Ok () \<and> current_db fs2 dir = Some (join_path dir n, c)")
    case True
    then have c2: "current_db fs2 dir = Some (join_path dir n, c)" and r1: "r1 = Ok ()" by simp_all
    have "fs' = fs2 \<or> fs' = fs_remove (join_path dir no) fs2"
      using sw sv rp r1 by (auto simp: recover_switch_def Let_def split: outcome.splits option.splits if_splits)
    then have "current_db fs' dir = Some (join_path dir n, c)" "dirs_ok fs' dir"
      using c2 rm dirs1 by auto
    moreover have "r = Ok () \<Longrightarrow> lastApplied d \<le> i \<and>
        d' = d\<lparr>lastApplied := i, db := Some \<lparr>pd_dir = join_path dir n, pd_closed = False\<rparr>\<rparr>"
      using sw sv rp r1 i by (auto simp: recover_switch_def Let_def queryAppliedIndex_contents not_less
          split: outcome.splits option.splits if_splits)
    ultimately show ?thesis using disk2 i by blast
  next
    case False
    have "fs' = fs1 \<and> r \<noteq> Ok ()"
    proof (cases "r1 = Ok ()")
      case True
      with sv have "saveCurrentDBDirName F fs dir (join_path dir n) = (Ok (), fs1)" by simp
      from replace_switches [OF this rp refl new(2,1)] True False
      obtain e where "fs2 = fs1" "r2 = Err e" by auto
      with True sw sv rp show ?thesis by (auto simp: recover_switch_def)
    qed (use sw sv in \<open>auto simp: recover_switch_def split: outcome.splits\<close>)
    with disk1 show ?thesis by auto
  qed
qed

end

section \<open>Recovery\<close>

text \<open>A fresh directory name: the new database starts empty and the current one is untouched.\<close>

lemma createDB_fresh:
  assumes "createDB P F fs p = (r, fs')" "map_of fs p = None"
  shows "(\<exists>e. r = Err e \<and> (fs' = fs \<or> fs' = fs_put p FDir fs)) \<or> (\<exists>c. pb_open P None = Inr c \<and>
    r = Ok \<lparr>pd_dir = p, pd_closed = False\<rparr> \<and> fs' = fs_put p (FDB c) (fs_put p FDir fs))"
  using assms by (auto simp: createDB_def fs_mkdir_def split: option.splits sum.splits)

text \<open>
  The stream a well-formed snapshot produces, complete or cut off anywhere, yields an error or
  exactly the pairs of the snapshot.
\<close>

definition snapshot_of :: "(bytes \<times> bytes) list \<Rightarrow> bool" where
  "snapshot_of ps \<longleftrightarrow> pairs_ok ps \<and> distinct (map fst ps) \<and> map_ok (map_of ps)"

definition recover_read :: "bytes \<Rightarrow> batch_op list outcome" where
  "recover_read r = (case read_full 8 r of
     Inl e \<Rightarrow> Err e | Inr (sz, r1) \<Rightarrow> recover_loop (unat (le_bytes_word sz :: uint64)) r1)"

lemma recover_read_stream:
  assumes "pairs_ok ps"
  shows "recover_read (stream ps) = Ok (map (\<lambda>(k, v). BSet k v) ps)"
proof -
  have n: "unat (le_bytes_word (le64_put (of_nat (length ps))) :: uint64) = length ps"
    using assms by (simp only: le_bytes_word_put unat_length pairs_ok_def)
  have "read_full 8 (stream ps) = Inr (le64_put (of_nat (length ps)), stream_body ps)"
    by (simp add: stream_def read_full_append length_le64_put)
  then show ?thesis
    using recover_loop_stream [of ps "[]"] assms by (simp add: recover_read_def n pairs_ok_def)
qed

lemma recover_read_truncated:
  assumes "pairs_ok ps" "k < length (stream ps)"
  shows "\<exists>e. recover_read (take k (stream ps)) = Err e"
proof (cases "k < 8")
  case True
  then have "\<exists>e. read_full 8 (take k (stream ps)) = Inl e" by (simp add: read_full_def)
  then show ?thesis by (auto simp: recover_read_def)
next
  case False
  have n: "unat (le_bytes_word (le64_put (of_nat (length ps))) :: uint64) = length ps"
    using assms(1) by (simp only: le_bytes_word_put unat_length pairs_ok_def)
  have "take k (stream ps) = le64_put (of_nat (length ps)) @ take (k - 8) (stream_body ps)"
    using False by (simp add: stream_def length_le64_put)
  then have "read_full 8 (take k (stream ps)) = Inr (le64_put (of_nat (length ps)), take (k - 8) (stream_body ps))"
    by (simp add: read_full_append length_le64_put)
  moreover have "k - 8 < length (stream_body ps)"
    using assms(2) False by (simp add: stream_def length_le64_put)
  ultimately show ?thesis
    using recover_loop_truncated [of ps "k - 8"] assms(1) by (simp add: recover_read_def n pairs_ok_def)
qed

text \<open>\<open>RecoverFromSnapshot\<close> with its reading loop folded into \<open>recover_read\<close>.\<close>

lemma Recover_unfold:
  "RecoverFromSnapshot P F rn ct (d, fs) r =
     (if closed d then (Panic ''recover from snapshot called after Close()'', d, fs)
      else case getCurrentDBDirName F fs (node_dir d) of
        Err e \<Rightarrow> (Err e, d, fs)
      | Panic p \<Rightarrow> (Panic p, d, fs)
      | Ok old \<Rightarrow> (case createDB P F fs (getNewRandomDBDirName (node_dir d) rn ct) of
          (Err e, fs1) \<Rightarrow> (Err e, d, fs1)
        | (Panic p, fs1) \<Rightarrow> (Panic p, d, fs1)
        | (Ok h, fs1) \<Rightarrow> (case recover_read r of
            Err e \<Rightarrow> (Err e, d, fs1)
          | Panic p \<Rightarrow> (Panic p, d, fs1)
          | Ok wb \<Rightarrow> (case db_content fs1 h of
              None \<Rightarrow> (Panic ''pebble: closed'', d, fs1)
            | Some c0 \<Rightarrow> (case pb_apply P c0 wb of
                Inl e \<Rightarrow> (Err e, d, fs1)
              | Inr c \<Rightarrow> recover_switch P F (node_dir d) old h c
                   (d, fs_put (getNewRandomDBDirName (node_dir d) rn ct) (FDB c) fs1))))))"
  by (auto simp: RecoverFromSnapshot_def recover_read_def Let_def
      split: outcome.split sum.split option.split prod.split)

lemma current_db_new_put:
  assumes "current_db fs dir = Some (join_path dir no, c)" "n \<noteq> no" "simple_name n"
  shows "current_db (fs_put (join_path dir n) x fs) dir = Some (join_path dir no, c)"
  using assms(1) by (rule current_db_frame) (use assms in \<open>auto simp: simple_name_def\<close>)

lemma fs_put_twice: "fs_put p x (fs_put p y fs) = fs_put p x fs"
  by (simp add: fs_put_def)

text \<open>
  Recovery from a fresh directory either stops early, having touched nothing but that directory,
  or reads the whole stream, writes the new database and goes on to the switch.
\<close>

lemma Recover_cases:
  assumes rec: "RecoverFromSnapshot P F rn ct (d, fs) data = (r, d', fs')"
    and "getCurrentDBDirName no_faults fs (node_dir d) = Ok old" "\<not> closed d"
    and p: "getNewRandomDBDirName (node_dir d) rn ct = p" and fresh: "map_of fs p = None"
  obtains (stop) "d' = d" "r \<noteq> Ok ()" "fs' = fs \<or> (\<exists>x. fs' = fs_put p x fs)"
    | (switch) wb c0 c where "pb_open P None = Inr c0" "recover_read data = Ok wb" "pb_apply P c0 wb = Inr c"
        "recover_switch P F (node_dir d) old \<lparr>pd_dir = p, pd_closed = False\<rparr> c (d, fs_put p (FDB c) fs)
          = (r, d', fs')"
proof -
  obtain r1 fs1 where cr: "createDB P F fs p = (r1, fs1)" by fastforce
  have fs1: "fs1 = fs \<or> (\<exists>x. fs1 = fs_put p x fs)"
    using createDB_fresh [OF cr fresh] by (auto simp: fs_put_twice)
  have old: "getCurrentDBDirName F fs (node_dir d) = Ok q \<Longrightarrow> q = old" for q
    using assms(2) by (auto dest: getCurrent_Ok_faults)
  show thesis
  proof (cases "\<exists>h. r1 = Ok h \<and> is_Ok (getCurrentDBDirName F fs (node_dir d)) \<and> is_Ok (recover_read data)")
    case False
    then have "d' = d \<and> (fs' = fs \<or> fs' = fs1) \<and> r \<noteq> Ok ()"
      using rec cr p assms(3) by (auto simp: Recover_unfold split: outcome.splits if_splits)
    then show thesis using stop fs1 by blast
  next
    case True
    then obtain wb q where wb: "recover_read data = Ok wb" "getCurrentDBDirName F fs (node_dir d) = Ok q"
      by (cases "recover_read data"; cases "getCurrentDBDirName F fs (node_dir d)") auto
    obtain c0 where c0: "pb_open P None = Inr c0" "r1 = Ok \<lparr>pd_dir = p, pd_closed = False\<rparr>"
      "fs1 = fs_put p (FDB c0) fs"
      using createDB_fresh [OF cr fresh] True by (auto simp: fs_put_twice)
    have cont: "db_content fs1 \<lparr>pd_dir = p, pd_closed = False\<rparr> = Some c0"
      by (simp add: db_content_def c0(3))
    show thesis
    proof (cases "pb_apply P c0 wb")
      case (Inl e)
      with rec cr p assms(3) wb c0 cont have "d' = d \<and> fs' = fs1 \<and> r \<noteq> Ok ()" by (auto simp: Recover_unfold)
      then show thesis using stop fs1 by blast
    next
      case (Inr c)
      with rec cr p assms(3) wb old [OF wb(2)] c0 cont show thesis
        by (intro switch [OF c0(1) wb(1) Inr]) (simp add: Recover_unfold fs_put_twice)
    qed
  qed
qed

context pebble_db
begin

lemma recovered_contents:
  assumes "snapshot_of ps" "pb_open P None = Inr c0"
    and "recover_read (take k (stream ps)) = Ok wb" "pb_apply P c0 wb = Inr c"
  shows "length (stream ps) \<le> k" "contents P c = map_of ps"
proof -
  have ps: "pairs_ok ps" "distinct (map fst ps)" using assms(1) by (simp_all add: snapshot_of_def)
  show k: "length (stream ps) \<le> k"
    using recover_read_truncated [OF ps(1), of k] assms(3)
    by (cases "k < length (stream ps)") auto
  with assms(3) recover_read_stream [OF ps(1)] have "wb = map (\<lambda>(k, v). BSet k v) ps" by simp
  with assms(2,4) ps(2) show "contents P c = map_of ps"
    by (simp add: apply_contents open_new apply_BSets)
qed

lemma Recover_safe:
  assumes ok: "replica_ok P (d, fs)" and ps: "snapshot_of ps"
    and fresh: "map_of fs (getNewRandomDBDirName (node_dir d) rn ct) = None"
    and rec: "RecoverFromSnapshot P F rn ct (d, fs) (take k (stream ps)) = (r, d', fs')"
  shows "disk_ok P (node_dir d) fs' \<and>
    (r = Ok () \<longrightarrow> replica_ok P (d', fs') \<and> store P (d', fs') = Some (map_of ps) \<and>
      node_dir d' = node_dir d \<and> lastApplied d \<le> lastApplied d' \<and> length (stream ps) \<le> k) \<and>
    (k < length (stream ps) \<longrightarrow> d' = d \<and> current_db fs' (node_dir d) = current_db fs (node_dir d))"
proof -
  let ?dir = "node_dir d"
  obtain n where n: "getNewRandomDBDirName ?dir rn ct = join_path ?dir n" "simple_name n"
    using random_name_simple by (metis getNewRandomDBDirName_def)
  from ok obtain no cold where cur: "current_db fs ?dir = Some (join_path ?dir no, cold)" "simple_name no"
    "map_ok (contents P cold)" and dirs: "dirs_ok fs ?dir" and up: "\<not> closed d" "\<not> aborted d"
    by (auto simp: replica_ok_def disk_ok_def)
  have neq: "n \<noteq> no" and fresh': "map_of fs (join_path ?dir n) = None"
    using cur(1) fresh n by (auto simp: current_db_Some)
  have put: "current_db (fs_put (join_path ?dir n) x fs) ?dir = Some (join_path ?dir no, cold)" for x
    using cur(1) neq n(2) by (rule current_db_new_put)
  have old: "getCurrentDBDirName no_faults fs ?dir = Ok (join_path ?dir no)"
    using cur(1) by (simp add: current_db_Some)
  from rec old up(1) n(1) fresh' show ?thesis
  proof (cases rule: Recover_cases)
    case stop
    then have "current_db fs' ?dir = Some (join_path ?dir no, cold)" "dirs_ok fs' ?dir"
      using cur(1) put dirs by auto
    with stop cur show ?thesis by (auto simp: disk_ok_def)
  next
    case (switch wb c0 c)
    have k: "length (stream ps) \<le> k" and c: "contents P c = map_of ps"
      using recovered_contents [OF ps switch(1-3)] .
    have "map_ok (contents P c)" using ps c by (simp add: snapshot_of_def)
    from recover_switch_safe [OF put cur(2,3) _ n(2) neq this _ switch(4)] dirs
    have "disk_ok P ?dir fs'" and sw: "r = Ok () \<longrightarrow> current_db fs' ?dir = Some (join_path ?dir n, c) \<and>
      (\<exists>i. index_of (contents P c) = Ok i \<and> lastApplied d \<le> i \<and>
        d' = d\<lparr>lastApplied := i, db := Some \<lparr>pd_dir = join_path ?dir n, pd_closed = False\<rparr>\<rparr>)"
      by simp_all
    moreover have "r = Ok () \<Longrightarrow> live (d', fs') = Some c \<and> replica_ok P (d', fs')"
      using sw up \<open>disk_ok P ?dir fs'\<close>
      by (auto simp: live_def db_content_def current_db_Some replica_ok_def)
    ultimately show ?thesis using k c by (auto simp: store_def)
  qed
qed

text \<open>Without faults, a complete stream with a newer or equal index is taken over.\<close>

lemma recover_switch_Ok:
  assumes "dirs_ok fs dir" "index_of (contents P c) = Ok i" "lastApplied d \<le> i" "CHR ''/'' \<notin> set no"
  shows "\<exists>s'. recover_switch P no_faults dir (join_path dir no) h c (d, fs) = (Ok (), s')"
proof -
  have f: "\<forall>b. map_of fs dir \<noteq> Some (FFile b)" using assms(1) by (simp add: dirs_ok_def not_file_def)
  obtain fs1 where sv: "saveCurrentDBDirName no_faults fs dir (pd_dir h) = (Ok (), fs1)"
    using saveCurrent_no_faults [OF f] by blast
  have d1: "dirs_ok fs1 dir" using saveCurrent_dirs [OF sv] assms(1) by simp
  then have "\<forall>b. map_of fs1 dir \<noteq> Some (FFile b)" by (simp add: dirs_ok_def not_file_def)
  then obtain fs2 where rp: "replaceCurrentDBFile no_faults fs1 dir = (Ok (), fs2)"
    using replaceCurrent_no_faults saveCurrent_Ok [OF sv] by blast
  have "dirs_ok (fs_remove (join_path dir no) fs2) dir" using replaceCurrent_dirs [OF rp] d1 by simp
  then have "syncDir no_faults dir (fs_remove (join_path dir no) fs2) = Ok ()"
    by (auto simp: dirs_ok_def not_file_def split: option.split node.split)
  with sv rp assms(2-4) show ?thesis
    by (simp add: recover_switch_def queryAppliedIndex_contents Let_def del: syncDir_no_faults)
qed

lemma Recover_Ok:
  assumes "replica_ok P (d, fs)" "engine_ok P" "snapshot_of ps" "index_of (map_of ps) = Ok i" "lastApplied d \<le> i"
    and "map_of fs (getNewRandomDBDirName (node_dir d) rn ct) = None"
  shows "\<exists>s'. RecoverFromSnapshot P no_faults rn ct (d, fs) (stream ps) = (Ok (), s')"
proof -
  let ?dir = "node_dir d" and ?p = "getNewRandomDBDirName (node_dir d) rn ct"
  obtain no cold where cur: "current_db fs ?dir = Some (join_path ?dir no, cold)" "simple_name no"
    and up: "dirs_ok fs ?dir" "\<not> closed d"
    using assms(1) by (auto simp: replica_ok_def disk_ok_def)
  have ps: "pairs_ok ps" "distinct (map fst ps)" using assms(3) by (simp_all add: snapshot_of_def)
  obtain c0 c where c: "pb_open P None = Inr c0" "pb_apply P c0 (map (\<lambda>(k, v). BSet k v) ps) = Inr c"
    using assms(2) unfolding engine_ok_def by blast
  have idx: "index_of (contents P c) = Ok i"
    using apply_contents [OF c(2)] open_new [OF c(1)] ps(2) assms(4) by (simp add: apply_BSets)
  have "getCurrentDBDirName no_faults fs ?dir = Ok (join_path ?dir no)" "CHR ''/'' \<notin> set no"
    using cur by (simp_all add: current_db_Some simple_name_def)
  moreover have "createDB P no_faults fs ?p = (Ok \<lparr>pd_dir = ?p, pd_closed = False\<rparr>, fs_put ?p (FDB c0) fs)"
    using assms(6) c(1) by (simp add: createDB_def fs_mkdir_def fs_put_twice)
  moreover have "dirs_ok (fs_put ?p (FDB c) fs) ?dir"
    using up(1) by (simp add: getNewRandomDBDirName_def)
  ultimately show ?thesis
    using recover_switch_Ok [OF _ idx assms(5), of "fs_put ?p (FDB c) fs" ?dir no] up(2) c
    by (simp add: Recover_unfold recover_read_stream [OF ps(1)] db_content_def fs_put_twice)
qed

end

section \<open>Properties\<close>

lemma SaveSnapshot_stream:
  assumes "\<not> closed (fst s)" "\<not> aborted (fst s)"
  shows "SaveSnapshot P s ctx append_writer [] = (Ok (), stream (pairs P (cx_snapshot ctx)))"
  using assms
  by (cases s) (simp add: SaveSnapshot_def saveToWriter_def write_all_append concat_snapshot_writes)

lemma replica_ok_snapshot:
  assumes "pebble_db P" "replica_ok P s" "PrepareSnapshot s = Ok ctx" "pairs_ok (pairs P (cx_snapshot ctx))"
  shows "snapshot_of (pairs P (cx_snapshot ctx))" "store P s = Some (map_of (pairs P (cx_snapshot ctx)))"
    "index_of (map_of (pairs P (cx_snapshot ctx))) = Ok (lastApplied (fst s))"
proof -
  obtain d fs where s: "s = (d, fs)" by fastforce
  obtain c where c: "live (d, fs) = Some c" "map_ok (contents P c)" "index_of (contents P c) = Ok (lastApplied d)"
    using replica_ok_live assms(2) s by blast
  then have "cx_snapshot ctx = c" using assms(3) by (auto simp: PrepareSnapshot_def s live_Some)
  then show "snapshot_of (pairs P (cx_snapshot ctx))" "store P s = Some (map_of (pairs P (cx_snapshot ctx)))"
    "index_of (map_of (pairs P (cx_snapshot ctx))) = Ok (lastApplied (fst s))"
    using c s assms(4) pebble_db.distinct_pairs [OF assms(1)]
    by (simp_all add: snapshot_of_def store_def contents_def)
qed


text \<open>
  C4. Recovery is safe whatever fails: if the stream is cut off anywhere, or any system call or
  the engine reports an error, or the process dies there, the data directory still names a
  complete database, the old one or the snapshot; success means that the whole stream was read.
\<close>

theorem recover_crash_safe:
  assumes "pebble_db P" "replica_ok P (d, fs)" "snapshot_of ps"
    and "map_of fs (getNewRandomDBDirName (node_dir d) rn ct) = None"
    and "RecoverFromSnapshot P F rn ct (d, fs) (take k (stream ps)) = (r, d', fs')"
  shows "disk_ok P (node_dir d) fs'
    \<and> (r = Ok () \<longrightarrow> store P (d', fs') = Some (map_of ps) \<and> length (stream ps) \<le> k)
    \<and> (k < length (stream ps) \<longrightarrow> d' = d \<and> current_db fs' (node_dir d) = current_db fs (node_dir d))"
  using pebble_db.Recover_safe [OF assms] by blast

section \<open>Witnesses\<close>

text \<open>A source replica with one applied entry.\<close>

definition example_source :: "ref_db replica" where
  "example_source = snd (Update ref_pebble example_node [example_entry 3 (CData \<lparr>Key = ''x'', Val = Some [9]\<rparr>)])"

definition example_pairs :: "(bytes \<times> bytes) list" where
  "example_pairs = [(str_bytes appliedIndexKey, le64_put 3), (str_bytes ''x'', [9])]"

lemma live_example_node: "live example_node = Some []"
proof -
  obtain c where "live example_node = Some c" "map_of c = Map.empty"
    using example_node_open(3) by (auto simp: store_def contents_ref simp del: ref_pebble_ops)
  then show ?thesis by simp
qed

lemma example_source_live:
  "live example_source = Some example_pairs" "lastApplied (fst example_source) = 3"
  "replica_ok ref_pebble example_source" "node_dir (fst example_source) = getNodeDBDirName 1 2"
  "\<exists>r. Update ref_pebble example_node [example_entry 3 (CData \<lparr>Key = ''x'', Val = Some [9]\<rparr>)]
     = (Ok r, example_source)"
proof -
  let ?e = "example_entry 3 (CData \<lparr>Key = ''x'', Val = Some [9]\<rparr>)"
  have loop: "update_loop [?e] = Ok ([done_entry ?e], [kv_op \<lparr>Key = ''x'', Val = Some [9]\<rparr>])"
    using update_loop_commands [of "[CData \<lparr>Key = ''x'', Val = Some [9]\<rparr>]" "[?e]"]
    by (simp add: utf8_ok_ascii is_ascii_def del: update_loop.simps command_bytes.simps)
  have "fold al_op ([kv_op \<lparr>Key = ''x'', Val = Some [9]\<rparr>] @ [BSet (str_bytes appliedIndexKey) (le64_put 3)]) []
      = example_pairs"
    by (simp add: kv_op_def example_pairs_def appliedIndexKey_def)
  then obtain s' where u: "Update ref_pebble example_node [?e] = (Ok [done_entry ?e], s')"
    "live s' = Some example_pairs" "lastApplied (fst s') = 3"
    using Update_accepted [OF live_example_node loop, of ref_pebble] example_node_open(4) by auto
  then have e: "example_source = s'" by (simp add: example_source_def)
  obtain d fs d' fs' where n: "example_node = (d, fs)" "s' = (d', fs')" by (metis surj_pair)
  have "replica_ok ref_pebble (d, fs)" using example_node_open(2) n by simp
  from refdb.Update_replica_ok(2) [OF this u(1) [unfolded n]]
  have "replica_ok ref_pebble (d', fs')" "node_dir d' = node_dir d" by blast+
  show "\<exists>r. Update ref_pebble example_node [?e] = (Ok r, example_source)" using u(1) e by blast
  from \<open>replica_ok ref_pebble (d', fs')\<close> \<open>node_dir d' = node_dir d\<close>
  show "live example_source = Some example_pairs" "lastApplied (fst example_source) = 3"
    "replica_ok ref_pebble example_source" "node_dir (fst example_source) = getNodeDBDirName 1 2"
    unfolding e using u example_node_open(5) unfolding n by simp_all
qed

lemma example_pairs_canon: "pairs ref_pebble example_pairs = example_pairs"
  unfolding pairs_ref by (simp add: example_pairs_def al_canon_def appliedIndexKey_def)

lemma example_pairs_ok: "pairs_ok example_pairs"
proof -
  have "length (pair_data (str_bytes ''x'', [9])) \<le> 50"
    "length (pair_data (str_bytes appliedIndexKey, le64_put 3)) \<le> 500"
    using pair_data_length [of "str_bytes ''x''" "[9]"] pair_data_length [of "str_bytes appliedIndexKey" "le64_put 3"]
    by (simp_all add: length_le64_put appliedIndexKey_def)
  then have "length (pair_data (str_bytes ''x'', [9])) \<le> max_alloc"
    "length (pair_data (str_bytes appliedIndexKey, le64_put 3)) \<le> max_alloc"
    by (simp_all add: max_alloc_def)
  then show ?thesis
    by (simp add: pairs_ok_def pair_ok_def example_pairs_def utf8_ok_ascii is_ascii_def)
qed


lemma example_snapshot: "snapshot_of example_pairs"
proof -
  obtain d fs where s: "example_source = (d, fs)" by fastforce
  have "replica_ok ref_pebble (d, fs)" "live (d, fs) = Some example_pairs"
    using example_source_live(1,3) unfolding s by simp_all
  with replica_ok_live [of ref_pebble d fs] have "map_ok (map_of example_pairs)"
    by (simp add: contents_ref del: ref_pebble_ops)
  moreover have "distinct (map fst example_pairs)" by (simp add: example_pairs_def appliedIndexKey_def)
  ultimately show ?thesis using example_pairs_ok by (simp add: snapshot_of_def)
qed

theorem recover_crash_safe_witness:
  "\<exists>r d' fs'. RecoverFromSnapshot ref_pebble (\<lambda>op. if op = ''Rename'' then Some (Errorf ''io'') else None) 8 10
      example_node (take 5 (stream example_pairs)) = (r, d', fs')
    \<and> disk_ok ref_pebble (getNodeDBDirName 1 2) fs' \<and> d' = fst example_node"
proof -
  obtain d fs where n: "example_node = (d, fs)" by fastforce
  have nd: "node_dir d = getNodeDBDirName 1 2" "replica_ok ref_pebble (d, fs)"
    "map_of fs (getNewRandomDBDirName (node_dir d) 8 10) = None"
    using example_node_open(2,5,6) unfolding n by simp_all
  let ?F = "\<lambda>op. if op = ''Rename'' then Some (Errorf ''io'') else None"
  obtain r d' fs' where rec: "RecoverFromSnapshot ref_pebble ?F 8 10 (d, fs) (take 5 (stream example_pairs)) = (r, d', fs')"
    by (rule prod_cases3)
  have "5 < length (stream example_pairs)" by (simp add: stream_def length_le64_put)
  with recover_crash_safe [OF refdb.pebble_db_axioms nd(2) example_snapshot nd(3) rec]
  have "disk_ok ref_pebble (node_dir d) fs'" "d' = d" by blast+
  with rec nd(1) show ?thesis unfolding n by auto
qed

end
