(* ===== verification/Disk_Node.thy ===== *)
theory Disk_Node
  imports Disk_Snapshot
begin

text \<open>
  The life of a node as a state machine: it is started, applies entries, recovers from snapshots,
  is closed or crashes, in any order and with any system call failing. Dragonboat treats an error
  of \<open>RecoverFromSnapshot\<close> and a panic of any operation as fatal, so the node is down afterwards.
  The invariant is that the disk always holds a complete database, hence a node can be restarted
  from every reachable state.
\<close>

datatype 'db node_state = Down "'db fs" | Up "'db replica"

inductive node_step ::
    "('db, 'a) pebble_scheme \<Rightarrow> uint64 \<Rightarrow> uint64 \<Rightarrow> 'db node_state \<Rightarrow> 'db node_state \<Rightarrow> bool"
  for P :: "('db, 'a) pebble_scheme" and cid rid :: uint64 where
  start: "Open P F rn ct (NewDiskKV cid rid, fs) = (Ok i, s) \<Longrightarrow>
    map_of fs (getNewRandomDBDirName (getNodeDBDirName cid rid) rn ct) = None \<Longrightarrow>
    node_step P cid rid (Down fs) (Up s)"
| start_failed: "Open P F rn ct (NewDiskKV cid rid, fs) = (r, d, fs') \<Longrightarrow> \<not> is_Ok r \<Longrightarrow>
    \<not> isNewRun fs (getNodeDBDirName cid rid) \<Longrightarrow> node_step P cid rid (Down fs) (Down fs')"
| update: "Update P s ents = (r, s') \<Longrightarrow> \<not> is_Panic r \<Longrightarrow> node_step P cid rid (Up s) (Up s')"
| update_panic: "Update P s ents = (Panic p, d, fs) \<Longrightarrow> node_step P cid rid (Up s) (Down fs)"
| recover: "RecoverFromSnapshot P F rn ct (d, fs) (take k (stream ps)) = (Ok (), s') \<Longrightarrow> snapshot_of ps \<Longrightarrow>
    map_of fs (getNewRandomDBDirName (getNodeDBDirName cid rid) rn ct) = None \<Longrightarrow>
    node_step P cid rid (Up (d, fs)) (Up s')"
| recover_failed: "RecoverFromSnapshot P F rn ct (d, fs) (take k (stream ps)) = (r, d', fs') \<Longrightarrow> \<not> is_Ok r \<Longrightarrow>
    snapshot_of ps \<Longrightarrow> map_of fs (getNewRandomDBDirName (getNodeDBDirName cid rid) rn ct) = None \<Longrightarrow>
    node_step P cid rid (Up (d, fs)) (Down fs')"
| close: "Close s = (r, d, fs) \<Longrightarrow> node_step P cid rid (Up s) (Down fs)"
| crash: "node_step P cid rid (Up (d, fs)) (Down fs)"

inductive_cases step_from_Down: "node_step P cid rid (Down fs) x"
inductive_cases step_from_Up: "node_step P cid rid (Up s) x"

fun node_ok :: "('db, 'a) pebble_scheme \<Rightarrow> uint64 \<Rightarrow> uint64 \<Rightarrow> 'db node_state \<Rightarrow> bool" where
  "node_ok P cid rid (Down fs) \<longleftrightarrow> dirs_ok fs (getNodeDBDirName cid rid) \<and>
     (isNewRun fs (getNodeDBDirName cid rid) \<or> disk_ok P (getNodeDBDirName cid rid) fs)"
| "node_ok P cid rid (Up s) \<longleftrightarrow> replica_ok P s \<and> clusterID (fst s) = cid \<and> ReplicaID (fst s) = rid"

section \<open>Identities\<close>

lemma Update_ids:
  assumes "Update P (d, fs) ents = (r, d', fs')"
  shows "clusterID d' = clusterID d \<and> ReplicaID d' = ReplicaID d"
  using assms unfolding Update_def Let_def
  by (auto split: if_splits option.splits outcome.splits prod.splits sum.splits)

lemma recover_switch_ids:
  assumes "recover_switch P F dir old h c (d, fs) = (r, d', fs')"
  shows "clusterID d' = clusterID d \<and> ReplicaID d' = ReplicaID d"
  using assms unfolding recover_switch_def Let_def
  by (auto split: if_splits option.splits outcome.splits prod.splits)

lemma Recover_ids:
  assumes "RecoverFromSnapshot P F rn ct (d, fs) data = (r, d', fs')"
  shows "clusterID d' = clusterID d \<and> ReplicaID d' = ReplicaID d"
  using assms unfolding Recover_unfold
  by (auto split: if_splits option.splits outcome.splits prod.splits sum.splits dest: recover_switch_ids)

lemma disk_ok_dirs: "disk_ok P dir fs \<Longrightarrow> dirs_ok fs dir"
  by (simp add: disk_ok_def)

section \<open>Every step keeps the invariant\<close>

context pebble_db
begin

lemma start_node_ok:
  assumes "node_ok P cid rid (Down fs)" "Open P F rn ct (NewDiskKV cid rid, fs) = (r, d', fs')"
    and "is_Ok r \<Longrightarrow> map_of fs (getNewRandomDBDirName (getNodeDBDirName cid rid) rn ct) = None"
    and "\<not> is_Ok r \<Longrightarrow> \<not> isNewRun fs (getNodeDBDirName cid rid)"
  shows "if is_Ok r then node_ok P cid rid (Up (d', fs')) else node_ok P cid rid (Down fs')"
proof -
  let ?d = "NewDiskKV cid rid"
  have d: "node_dir ?d = getNodeDBDirName cid rid" "\<not> closed ?d" "\<not> aborted ?d"
    by (simp_all add: NewDiskKV_def)
  have id: "clusterID d' = cid" "ReplicaID d' = rid"
    using Open_ids [OF assms(2)] by (simp_all add: NewDiskKV_def)
  consider (old) "disk_ok P (node_dir ?d) fs" | (new) "isNewRun fs (node_dir ?d)" "is_Ok r"
    using assms(1,4) d by auto
  then show ?thesis
  proof cases
    case old
    then obtain p c where "current_db fs (node_dir ?d) = Some (p, c)" by (auto simp: disk_ok_def)
    from Open_existing [OF old this assms(2)] id d show ?thesis
      by (cases r) (auto dest: disk_ok_dirs)
  next
    case new
    then obtain i where r: "r = Ok i" by (cases r) auto
    from Open_fresh(1) [OF new(1) _ d(2,3) _ assms(2) [unfolded r]] assms(1,3) d id r show ?thesis by simp
  qed
qed

lemma node_step_ok:
  assumes "node_step P cid rid x y" "node_ok P cid rid x"
  shows "node_ok P cid rid y"
  using assms
proof (induction rule: node_step.cases)
  case (start F rn ct fs i s)
  then show ?case using start_node_ok [of cid rid fs F rn ct "Ok i" "fst s" "snd s"] by simp
next
  case (start_failed F rn ct fs r d fs')
  then show ?case using start_node_ok [of cid rid fs F rn ct r d fs'] by simp
next
  case (update s ents r s')
  obtain d fs d' fs' where s: "s = (d, fs)" "s' = (d', fs')" by (metis surj_pair)
  from update s show ?case
    using Update_replica_ok(2,3) [of d fs ents r d' fs'] Update_ids [of P d fs ents r d' fs']
    by (cases r) auto
next
  case (update_panic s ents p d fs)
  then show ?case
    using Update_replica_ok(1) [of "fst s" "snd s" ents "Panic p" d fs] by (auto dest: disk_ok_dirs)
next
  case (recover F rn ct d fs k ps s')
  then show ?case
    using Recover_safe [of d fs ps rn ct F k "Ok ()" "fst s'" "snd s'"]
      Recover_ids [of P F rn ct d fs "take k (stream ps)" "Ok ()" "fst s'" "snd s'"] by simp
next
  case (recover_failed F rn ct d fs k ps r d' fs')
  then show ?case using Recover_safe [of d fs ps rn ct F k r d' fs'] by (auto dest: disk_ok_dirs)
next
  case (close s r d fs)
  then show ?case using Close_disk [of "fst s" "snd s" r d fs]
    by (cases s) (auto simp: replica_ok_def dest: disk_ok_dirs)
qed (auto simp: replica_ok_def dest: disk_ok_dirs)

lemma reachable_ok:
  assumes "(node_step P cid rid)\<^sup>*\<^sup>* (Down []) x"
  shows "node_ok P cid rid x"
  using assms by induction (auto simp: isNewRun_def intro: node_step_ok)

end

section \<open>Properties\<close>



text \<open>A run that starts, applies an entry and crashes.\<close>

lemma example_run: "(node_step ref_pebble 1 2)\<^sup>*\<^sup>* (Down []) (Down (snd example_source))"
proof -
  have "node_step ref_pebble 1 2 (Down []) (Up example_node)"
    using example_node_open(1) by (rule node_step.start) simp
  moreover have "node_step ref_pebble 1 2 (Up example_node) (Up example_source)"
    using example_source_live(5) by (auto intro: node_step.update)
  moreover have "node_step ref_pebble 1 2 (Up example_source) (Down (snd example_source))"
    using node_step.crash [of ref_pebble 1 2 "fst example_source" "snd example_source"] by simp
  ultimately show ?thesis
    by (rule rtranclp.rtrancl_into_rtrancl [OF rtranclp.rtrancl_into_rtrancl [OF r_into_rtranclp]])
qed



end
