(* ===== verification/Disk_Replication.thy ===== *)
theory Disk_Replication
  imports Disk_Node
begin

text \<open>
  The contract of an on-disk state machine, as the Raft library needs it, and what follows from it
  for the replicas of a cluster. A replica gets at its state in many ways: it applies the log in
  groups of entries, receives snapshots from other replicas, which got at theirs in just as many, and
  is stopped or crashes and is opened again. \<open>replica_run\<close> describes all of them; \<open>on_disk_sm\<close> is what
  each step has to promise, and the operations of \<open>kvdisk.go\<close> keep these promises on every storage
  engine, with any system call failing in between.
\<close>

section \<open>The contract\<close>

inductive replica_run ::
    "('s \<Rightarrow> bool) \<Rightarrow> ('s \<Rightarrow> 'e list \<Rightarrow> 's \<Rightarrow> bool) \<Rightarrow> ('s \<Rightarrow> 's \<Rightarrow> 's \<Rightarrow> bool) \<Rightarrow> ('s \<Rightarrow> 's \<Rightarrow> bool) \<Rightarrow> 'e list \<Rightarrow> 's \<Rightarrow> bool"
  for init update install reopen where
  first: "init s \<Longrightarrow> replica_run init update install reopen [] s"
| batch: "replica_run init update install reopen log s \<Longrightarrow> update s es s' \<Longrightarrow>
    replica_run init update install reopen (log @ es) s'"
| transfer: "replica_run init update install reopen log t \<Longrightarrow> replica_run init update install reopen log' s \<Longrightarrow>
    install t s s' \<Longrightarrow> replica_run init update install reopen log s'"
| restart: "replica_run init update install reopen log s \<Longrightarrow> reopen s s' \<Longrightarrow>
    replica_run init update install reopen log s'"

locale on_disk_sm =
  fixes init :: "'s \<Rightarrow> bool" and update :: "'s \<Rightarrow> 'e list \<Rightarrow> 's \<Rightarrow> bool" and install :: "'s \<Rightarrow> 's \<Rightarrow> 's \<Rightarrow> bool"
    and reopen :: "'s \<Rightarrow> 's \<Rightarrow> bool" and view :: "'s \<Rightarrow> 'v" and effect :: "'e list \<Rightarrow> 'v \<Rightarrow> 'v" and start :: 'v and ok :: "'s \<Rightarrow> bool"
  assumes init_view: "init s \<Longrightarrow> ok s \<and> view s = start"
    and update_view: "ok s \<Longrightarrow> update s es s' \<Longrightarrow> ok s' \<and> view s' = effect es (view s)"
    and install_view: "ok t \<Longrightarrow> ok s \<Longrightarrow> install t s s' \<Longrightarrow> ok s' \<and> view s' = view t"
    and reopen_view: "ok s \<Longrightarrow> reopen s s' \<Longrightarrow> ok s' \<and> view s' = view s"
    and effect_Nil: "effect [] v = v"
    and effect_append: "effect (xs @ ys) v = effect ys (effect xs v)"
begin

text \<open>The state of a replica is determined by the log.\<close>

lemma run_view:
  assumes "replica_run init update install reopen log s"
  shows "ok s \<and> view s = effect log start"
  using assms
proof induction
  case (first s)
  then show ?case using init_view by (simp add: effect_Nil)
next
  case (batch log s es s')
  then show ?case using update_view [OF _ batch.hyps(2)] by (simp add: effect_append)
next
  case (transfer log t log' s s')
  then show ?case using install_view [OF _ _ transfer.hyps(3)] by simp
next
  case (restart log s s')
  then show ?case using reopen_view [OF _ restart.hyps(2)] by simp
qed

end

section \<open>The operations of the state machine\<close>

text \<open>The first start of a replica, on a disk without data of it.\<close>

definition disk_init :: "('db, 'a) pebble_scheme \<Rightarrow> 'db replica \<Rightarrow> bool" where
  "disk_init P s \<longleftrightarrow> (\<exists>cid rid F rn ct fs i. isNewRun fs (getNodeDBDirName cid rid) \<and> dirs_ok fs (getNodeDBDirName cid rid)
     \<and> map_of fs (getNewRandomDBDirName (getNodeDBDirName cid rid) rn ct) = None
     \<and> Open P F rn ct (NewDiskKV cid rid, fs) = (Ok i, s))"

definition disk_update :: "('db, 'a) pebble_scheme \<Rightarrow> 'db replica \<Rightarrow> entry list \<Rightarrow> 'db replica \<Rightarrow> bool" where
  "disk_update P s es s' \<longleftrightarrow> (\<exists>r. Update P s es = (Ok r, s'))"

text \<open>A snapshot of \<open>t\<close>, saved at any later time and recovered by \<open>s\<close>.\<close>

definition disk_install :: "('db, 'a) pebble_scheme \<Rightarrow> 'db replica \<Rightarrow> 'db replica \<Rightarrow> 'db replica \<Rightarrow> bool" where
  "disk_install P t s s' \<longleftrightarrow> (\<exists>ctx t1 data F rn ct. PrepareSnapshot t = Ok ctx \<and> pairs_ok (pairs P (cx_snapshot ctx))
     \<and> \<not> closed (fst t1) \<and> \<not> aborted (fst t1) \<and> SaveSnapshot P t1 ctx append_writer [] = (Ok (), data)
     \<and> map_of (snd s) (getNewRandomDBDirName (node_dir (fst s)) rn ct) = None
     \<and> RecoverFromSnapshot P F rn ct s data = (Ok (), s'))"

text \<open>A new process on the disk that the old one has left, however it ended.\<close>

definition disk_reopen :: "('db, 'a) pebble_scheme \<Rightarrow> 'db replica \<Rightarrow> 'db replica \<Rightarrow> bool" where
  "disk_reopen P s s' \<longleftrightarrow>
     (\<exists>F rn ct i. Open P F rn ct (NewDiskKV (clusterID (fst s)) (ReplicaID (fst s)), snd s) = (Ok i, s'))"

text \<open>The effect of a log on the map, nothing if it holds an entry that cannot be decoded.\<close>

definition log_effect :: "entry list \<Rightarrow> (bytes \<rightharpoonup> bytes) option \<Rightarrow> (bytes \<rightharpoonup> bytes) option" where
  "log_effect es v = (if es = [] then v else
     (case (v, update_loop es) of (Some m, Ok (_, ops)) \<Rightarrow> Some (with_index (Index (last es)) (apply_ops ops m)) | _ \<Rightarrow> None))"

lemma log_effect_append: "log_effect (xs @ ys) v = log_effect ys (log_effect xs v)"
proof (cases "xs = []")
  case xs: False
  show ?thesis
  proof (cases "ys = []")
    case False
    with xs show ?thesis
      by (auto simp: log_effect_def update_loop_append with_index_absorb split: option.splits outcome.splits prod.splits)
  qed (simp add: log_effect_def)
qed (simp add: log_effect_def)

context pebble_db
begin

lemma disk_init_view: "disk_init P s \<Longrightarrow> replica_ok P s \<and> store P s = Some Map.empty"
proof -
  assume "disk_init P s"
  then obtain cid rid F rn ct fs i where o: "isNewRun fs (getNodeDBDirName cid rid)" "dirs_ok fs (getNodeDBDirName cid rid)"
    "map_of fs (getNewRandomDBDirName (getNodeDBDirName cid rid) rn ct) = None"
    "Open P F rn ct (NewDiskKV cid rid, fs) = (Ok i, s)"
    unfolding disk_init_def by blast
  have d: "node_dir (NewDiskKV cid rid) = getNodeDBDirName cid rid" "\<not> closed (NewDiskKV cid rid)" "\<not> aborted (NewDiskKV cid rid)"
    by (simp_all add: NewDiskKV_def)
  obtain d' fs' where s: "s = (d', fs')" by fastforce
  from Open_fresh(1) [of fs "NewDiskKV cid rid" rn ct F i d' fs'] o d s show ?thesis by simp
qed

lemma disk_update_view:
  assumes "replica_ok P s" "disk_update P s es s'"
  shows "replica_ok P s' \<and> store P s' = log_effect es (store P s)"
proof -
  obtain r where u: "Update P s es = (Ok r, s')" using assms(2) unfolding disk_update_def by blast
  obtain d fs d' fs' where s: "s = (d, fs)" "s' = (d', fs')" by (metis surj_pair)
  obtain c where c: "live s = Some c" using replica_ok_live assms(1) s by blast
  from Update_store [OF c u] obtain ops where "update_loop es = Ok (r, ops)" "es \<noteq> []"
    "store P s' = Some (with_index (Index (last es)) (apply_ops ops (contents P c)))" by metis
  moreover have "replica_ok P s'" using Update_replica_ok(2) [of d fs es "Ok r" d' fs'] assms(1) u s by simp
  ultimately show ?thesis using c by (simp add: log_effect_def store_def)
qed

lemma disk_install_view:
  assumes "replica_ok P t" "replica_ok P s" "disk_install P t s s'"
  shows "replica_ok P s' \<and> store P s' = store P t"
proof -
  from assms(3) obtain ctx t1 data F rn ct where i: "PrepareSnapshot t = Ok ctx" "pairs_ok (pairs P (cx_snapshot ctx))"
    "\<not> closed (fst t1)" "\<not> aborted (fst t1)" "SaveSnapshot P t1 ctx append_writer [] = (Ok (), data)"
    "map_of (snd s) (getNewRandomDBDirName (node_dir (fst s)) rn ct) = None" "RecoverFromSnapshot P F rn ct s data = (Ok (), s')"
    unfolding disk_install_def by blast
  let ?ps = "pairs P (cx_snapshot ctx)"
  note snap = replica_ok_snapshot [OF pebble_db_axioms assms(1) i(1,2)]
  have data: "data = take (length (stream ?ps)) (stream ?ps)"
    using SaveSnapshot_stream [OF i(3,4), of P ctx] i(5) by simp
  obtain d fs d' fs' where s: "s = (d, fs)" "s' = (d', fs')" by (metis surj_pair)
  from Recover_safe [of d fs ?ps rn ct F "length (stream ?ps)" "Ok ()" d' fs'] assms(2) snap(1,2) i(6,7) data s
  show ?thesis by simp
qed

lemma disk_reopen_view:
  assumes "replica_ok P s" "disk_reopen P s s'"
  shows "replica_ok P s' \<and> store P s' = store P s"
proof -
  obtain d fs d' fs' where s: "s = (d, fs)" "s' = (d', fs')" by (metis surj_pair)
  let ?d = "NewDiskKV (clusterID d) (ReplicaID d)"
  have nd: "node_dir ?d = node_dir d" "\<not> closed ?d" "\<not> aborted ?d" by (simp_all add: NewDiskKV_def)
  obtain F rn ct i where o: "Open P F rn ct (?d, fs) = (Ok i, d', fs')" using assms(2) s unfolding disk_reopen_def by auto
  obtain p c where pc: "current_db fs (node_dir ?d) = Some (p, c)" "disk_ok P (node_dir ?d) fs" "store P (d, fs) = Some (contents P c)"
    using assms(1) s nd by (auto simp: replica_ok_def store_def live_def db_content_def current_db_Some)
  from Open_existing(2) [OF pc(2,1) o refl nd(2,3)] pc(3) s show ?thesis by simp
qed

end

sublocale pebble_db \<subseteq> replicas: on_disk_sm "disk_init P" "disk_update P" "disk_install P" "disk_reopen P" "store P"
  log_effect "Some Map.empty" "replica_ok P"
proof
  show "log_effect [] v = v" for v by (simp add: log_effect_def)
qed (fact disk_init_view disk_update_view disk_install_view disk_reopen_view log_effect_append)+

interpretation replicas: on_disk_sm "disk_init ref_pebble" "disk_update ref_pebble" "disk_install ref_pebble" "disk_reopen ref_pebble"
  "store ref_pebble" log_effect "Some Map.empty" "replica_ok ref_pebble"
  by (rule refdb.replicas.on_disk_sm_axioms)

abbreviation disk_run :: "('db, 'a) pebble_scheme \<Rightarrow> entry list \<Rightarrow> 'db replica \<Rightarrow> bool" where
  "disk_run P \<equiv> replica_run (disk_init P) (disk_update P) (disk_install P) (disk_reopen P)"

context pebble_db
begin

lemma disk_run_view: "disk_run P log s \<Longrightarrow> replica_ok P s \<and> store P s = log_effect log (Some Map.empty)"
  by (rule replicas.run_view)

end

section \<open>Replicas of a cluster\<close>


text \<open>A replica that applies an entry, and another that takes over its snapshot.\<close>

lemma example_install: "\<exists>t. disk_install ref_pebble example_source example_node t"
proof -
  obtain d fs d1 fs1 where n: "example_node = (d, fs)" "example_source = (d1, fs1)" by (metis surj_pair)
  have l: "live (d1, fs1) = Some example_pairs" "replica_ok ref_pebble (d1, fs1)" "lastApplied d1 = 3"
    using example_source_live(1-3) unfolding n by simp_all
  obtain ctx where ctx: "PrepareSnapshot (d1, fs1) = Ok ctx" "cx_snapshot ctx = example_pairs"
    using l by (auto simp: PrepareSnapshot_def live_Some)
  have up: "\<not> closed d1" "\<not> aborted d1" using l(1) by (simp_all add: live_Some)
  have "index_of (map_of example_pairs) = Ok 3"
    using replica_ok_live [OF l(2)] l(1,3) by (simp add: contents_ref del: ref_pebble_ops)
  moreover have fresh: "replica_ok ref_pebble (d, fs)" "lastApplied d \<le> 3"
    "map_of fs (getNewRandomDBDirName (node_dir d) 8 10) = None"
    using example_node_open(2,4,5,6) unfolding n by simp_all
  ultimately obtain t where "RecoverFromSnapshot ref_pebble no_faults 8 10 (d, fs) (stream example_pairs) = (Ok (), t)"
    using refdb.Recover_Ok [OF fresh(1) engine_ok_ref example_snapshot] by blast
  moreover have "SaveSnapshot ref_pebble (d1, fs1) ctx append_writer [] = (Ok (), stream example_pairs)"
    using SaveSnapshot_stream [of "(d1, fs1)" ref_pebble ctx] up ctx(2) example_pairs_canon by simp
  ultimately show ?thesis
    unfolding disk_install_def n using ctx example_pairs_canon example_pairs_ok up fresh(3)
    by (intro exI [of _ t] exI [of _ ctx] exI [of _ "(d1, fs1)"] exI [of _ "stream example_pairs"] exI [of _ no_faults]
        exI [of _ 8] exI [of _ 10]) (simp del: ref_pebble_ops)
qed

lemma example_replicas:
  "disk_run ref_pebble [] example_node"
  "disk_run ref_pebble [example_entry 3 (CData \<lparr>Key = ''x'', Val = Some [9]\<rparr>)] example_source"
proof -
  have "disk_init ref_pebble example_node"
    unfolding disk_init_def using example_node_open(1)
    by (intro exI [of _ 1] exI [of _ 2] exI [of _ no_faults] exI [of _ 7] exI [of _ 9] exI [of _ "[]"] exI [of _ 0])
      (simp add: isNewRun_def)
  then show r: "disk_run ref_pebble [] example_node" by (rule replica_run.first)
  have "disk_update ref_pebble example_node [example_entry 3 (CData \<lparr>Key = ''x'', Val = Some [9]\<rparr>)] example_source"
    unfolding disk_update_def by (rule example_source_live(5))
  from replica_run.batch [OF r this]
  show "disk_run ref_pebble [example_entry 3 (CData \<lparr>Key = ''x'', Val = Some [9]\<rparr>)] example_source" by simp
qed


end
