(* ===== verification/Raft_KV.thy ===== *)
theory Raft_KV
  imports Disk_Update
begin

text \<open>
  The replicated store as its clients see it. Dragonboat is not part of the repository: the calls
  the program makes on a \<open>NodeHost\<close> are the fields of a record, and the locale \<open>raft_kv\<close> states what
  it relies on, in terms of the map of the replicated state machine (\<open>sm\<close>). A read is linearizable
  and answers from that map; a proposal that succeeds has been applied; a proposal that reports an
  error (a timeout, say) may or may not have been applied. Reads and proposals may fail at any time.

  \<open>single_host\<close> runs the state machine of \<open>kvdisk.go\<close> on one node; it satisfies the contract on
  every storage engine (\<open>sublocale\<close> below), so that the laws the clients use are laws of the
  modelled state machine.
\<close>

record 'nh nodehost =
  nh_SyncRead :: "'nh \<Rightarrow> query \<Rightarrow> error + lookup_result"
  nh_SyncPropose :: "'nh \<Rightarrow> bytes \<Rightarrow> (error + uint64) \<times> 'nh"

text \<open>The effect of a command on the map; the applied index is written along.\<close>

definition cmd_effect :: "bytes \<Rightarrow> (bytes \<rightharpoonup> bytes) \<Rightarrow> (bytes \<rightharpoonup> bytes)" where
  "cmd_effect cmd m = (case entry_ops cmd of Ok (Some ops) \<Rightarrow> apply_ops ops m | _ \<Rightarrow> m)"

definition applied :: "bytes \<Rightarrow> (bytes \<rightharpoonup> bytes) \<Rightarrow> (bytes \<rightharpoonup> bytes) \<Rightarrow> bool" where
  "applied cmd m m' \<longleftrightarrow> (\<exists>i. m' = with_index i (cmd_effect cmd m))"

text \<open>The answers of the state machine, up to the order in which a Go map lists its entries.\<close>

definition answers :: "(bytes \<rightharpoonup> bytes) \<Rightarrow> query \<Rightarrow> lookup_result \<Rightarrow> bool" where
  "answers m q v \<longleftrightarrow> (case decode_query q of
     Ok a \<Rightarrow> (case ka_Data a of
         Some d \<Rightarrow>
           (if ka_Action a = act_SCAN then
              (\<exists>r. v = RMap r \<and> distinct (map fst r) \<and> map_of r = map_scan m (Key d))
            else if ka_Action a = act_REVERSE_SCAN then
              (\<exists>r. v = RMap r \<and> distinct (map fst r) \<and> map_of r = map_range m (Val d) (Key d))
            else v = RBytes (m (str_bytes (Key d))))
       | None \<Rightarrow> False)
   | _ \<Rightarrow> False)"

locale raft_kv =
  fixes H :: "('nh, 'a) nodehost_scheme" and sm :: "'nh \<Rightarrow> bytes \<rightharpoonup> bytes"
  assumes read_answers: "nh_SyncRead H nh q = Inr v \<Longrightarrow> answers (sm nh) q v"
    and propose_done: "nh_SyncPropose H nh cmd = (Inr res, nh') \<Longrightarrow> applied cmd (sm nh) (sm nh')"
    and propose_failed: "nh_SyncPropose H nh cmd = (Inl e, nh') \<Longrightarrow>
      sm nh' = sm nh \<or> applied cmd (sm nh) (sm nh')"
begin

text \<open>A point read by key.\<close>

lemma read_string: "nh_SyncRead H nh (QString k) = Inr v \<Longrightarrow> v = RBytes (sm nh (str_bytes k))"
  by (drule read_answers) (simp add: answers_def decode_query_def)

lemma propose_cases:
  assumes "nh_SyncPropose H nh cmd = (r, nh')"
  shows "sm nh' = sm nh \<or> applied cmd (sm nh) (sm nh')"
  using assms propose_done propose_failed by (cases r) auto

end

text \<open>The host applies the next \<open>n\<close> well-formed proposals.\<close>

fun accepts :: "('nh, 'a) nodehost_scheme \<Rightarrow> nat \<Rightarrow> 'nh \<Rightarrow> bool" where
  "accepts H 0 nh \<longleftrightarrow> True"
| "accepts H (Suc n) nh \<longleftrightarrow>
     (\<forall>cmd ops. entry_ops cmd = Ok (Some ops) \<longrightarrow>
        (\<exists>v nh'. nh_SyncPropose H nh cmd = (Inr v, nh') \<and> accepts H n nh'))"

lemma accepts_mono: "accepts H n nh \<Longrightarrow> m \<le> n \<Longrightarrow> accepts H m nh"
proof (induction n arbitrary: m nh)
  case (Suc n)
  then show ?case by (cases m) (simp_all, metis)
qed simp

section \<open>Commands with arbitrary keys\<close>

lemma utf8_coerce_eq_Nil [simp]: "utf8_coerce s = [] \<longleftrightarrow> s = []"
  by (cases s) (auto simp: utf8_coerce.simps(2) split: prod.splits if_splits)

lemma Key_coerce [simp]: "Key (coerce_KVData kv) = utf8_coerce (Key kv)" "Val (coerce_KVData kv) = Val kv"
  by (simp_all add: coerce_KVData_def)

lemma entry_ops_data:
  "Key kv \<noteq> [] \<Longrightarrow> entry_ops (json_Marshal (KVData_json kv)) = Ok (Some [kv_op (coerce_KVData kv)])"
  by (simp add: entry_ops_def Unmarshal_Marshal dec_KVBatch_other dec_KVAction_json zero_KVBatch_def
      zero_KVData_def)

lemma entry_ops_action:
  "Key kv \<noteq> [] \<Longrightarrow> entry_ops (json_Marshal (KVAction_json \<lparr>ka_Action = a, ka_Data = Some kv\<rparr>))
     = Ok (Some [kv_op (coerce_KVData kv)])"
  by (simp add: entry_ops_def Unmarshal_Marshal dec_KVBatch_other dec_KVAction_json zero_KVBatch_def)

lemma entry_ops_batch:
  "entry_ops (json_Marshal (KVBatch_json \<lparr>kb_Action = a, kb_Batch = Some (map Some kvs)\<rparr>))
     = Ok (Some (map (kv_op \<circ> coerce_KVData) kvs))"
proof -
  have "batch_ops (map (Some \<circ> coerce_KVData) kvs) = Ok (map kv_op (map coerce_KVData kvs))"
    using batch_ops_Some [of "map coerce_KVData kvs"] by (simp only: map_map)
  then show ?thesis by (simp add: entry_ops_def Unmarshal_Marshal dec_KVBatch_json)
qed

lemma cmd_effect_data:
  "Key kv \<noteq> [] \<Longrightarrow> cmd_effect (json_Marshal (KVData_json kv)) m = kv_effect (coerce_KVData kv) m"
  by (simp add: cmd_effect_def entry_ops_data apply_kv_op)

lemma cmd_effect_action:
  "Key kv \<noteq> [] \<Longrightarrow> cmd_effect (json_Marshal (KVAction_json \<lparr>ka_Action = a, ka_Data = Some kv\<rparr>)) m
     = kv_effect (coerce_KVData kv) m"
  by (simp add: cmd_effect_def entry_ops_action apply_kv_op)

lemma cmd_effect_batch:
  "cmd_effect (json_Marshal (KVBatch_json \<lparr>kb_Action = a, kb_Batch = Some (map Some kvs)\<rparr>)) m
     = fold kv_effect (map coerce_KVData kvs) m"
  using apply_kv_ops [of "map coerce_KVData kvs" m]
  by (simp add: cmd_effect_def entry_ops_batch)

section \<open>A cluster of one node\<close>

definition single_read :: "('db, 'a) pebble_scheme \<Rightarrow> 'db replica \<Rightarrow> query \<Rightarrow> error + lookup_result" where
  "single_read P s q = (if live s = None then Inl (Errorf ''shard not ready'')
     else case Lookup P s q of Ok v \<Rightarrow> Inr v | Err e \<Rightarrow> Inl e | Panic p \<Rightarrow> Inl (Errorf p))"

definition single_propose ::
    "('db, 'a) pebble_scheme \<Rightarrow> 'db replica \<Rightarrow> bytes \<Rightarrow> (error + uint64) \<times> 'db replica" where
  "single_propose P s cmd =
     (let i = lastApplied (fst s) + 1 in
      if live s = None \<or> i = 0 then (Inl (Errorf ''shard not ready''), s)
      else case Update P s [\<lparr>Index = i, Cmd = cmd, Result = 0\<rparr>] of
        (Ok (e # _), s') \<Rightarrow> (Inr (Result e), s')
      | _ \<Rightarrow> (Inl (Errorf ''timeout''), s))"

definition single_host :: "('db, 'a) pebble_scheme \<Rightarrow> 'db replica nodehost" where
  "single_host P = \<lparr>nh_SyncRead = single_read P, nh_SyncPropose = single_propose P\<rparr>"

definition host_map :: "('db, 'a) pebble_scheme \<Rightarrow> 'db replica \<Rightarrow> bytes \<rightharpoonup> bytes" where
  "host_map P s = (case store P s of Some m \<Rightarrow> m | None \<Rightarrow> Map.empty)"

lemma single_host_ops [simp]:
  "nh_SyncRead (single_host P) = single_read P" "nh_SyncPropose (single_host P) = single_propose P"
  by (simp_all add: single_host_def)

context pebble_db
begin

lemma Lookup_answers:
  assumes "live s = Some c" "Lookup P s q = Ok v"
  shows "answers (contents P c) q v"
proof -
  obtain a d where a: "decode_query q = Ok a" "ka_Data a = Some d"
    using assms(2) by (auto simp: Lookup_def split: outcome.splits option.splits)
  then have "Lookup P s q = (if ka_Action a = act_SCAN then Scan P s (Key d)
      else if ka_Action a = act_REVERSE_SCAN then ReverseScan P s (Key d) (Val d) else Get P s (Key d))"
    by (simp add: Lookup_def)
  with a assms(2) Scan_spec [OF assms(1), of "Key d"] ReverseScan_spec [OF assms(1), of "Key d" "Val d"]
    Get_spec [OF assms(1), of "Key d"]
  show ?thesis by (auto simp: answers_def split: if_splits)
qed

lemma single_propose_applied:
  assumes "single_propose P s cmd = (Inr v, s')"
  shows "applied cmd (host_map P s) (host_map P s')"
proof -
  let ?e = "\<lparr>Index = lastApplied (fst s) + 1, Cmd = cmd, Result = 0\<rparr>"
  obtain es c where u: "Update P s [?e] = (Ok es, s')" and c: "live s = Some c"
    using assms by (auto simp: single_propose_def Let_def split: if_splits prod.splits outcome.splits list.splits)
  obtain ops where o: "update_loop [?e] = Ok (es, ops)"
    "store P s' = Some (with_index (Index (last [?e])) (apply_ops ops (contents P c)))"
    using Update_store [OF c u] by metis
  from o(1) have "apply_ops ops (contents P c) = cmd_effect cmd (contents P c)"
    by (auto simp: cmd_effect_def split: outcome.splits option.splits)
  with o(2) c show ?thesis by (auto simp: applied_def host_map_def store_def)
qed

end

sublocale pebble_db \<subseteq> single: raft_kv "single_host P" "host_map P"
proof
  fix nh q v
  assume "nh_SyncRead (single_host P) nh q = Inr v"
  then obtain c where "live nh = Some c" "Lookup P nh q = Ok v"
    by (auto simp: single_read_def split: if_splits outcome.splits)
  then show "answers (host_map P nh) q v"
    using Lookup_answers by (simp add: host_map_def store_def)
next
  fix nh cmd v nh'
  assume "nh_SyncPropose (single_host P) nh cmd = (Inr v, nh')"
  then show "applied cmd (host_map P nh) (host_map P nh')" by (simp add: single_propose_applied)
next
  fix nh cmd e nh'
  assume "nh_SyncPropose (single_host P) nh cmd = (Inl e, nh')"
  then show "host_map P nh' = host_map P nh \<or> applied cmd (host_map P nh) (host_map P nh')"
    by (auto simp: single_propose_def Let_def split: if_splits prod.splits outcome.splits list.splits)
qed

interpretation single: raft_kv "single_host ref_pebble" "host_map ref_pebble"
  by (rule refdb.single.raft_kv_axioms)

section \<open>Example hosts\<close>

definition example_host :: "ref_db \<Rightarrow> ref_db replica" where
  "example_host c =
     (\<lparr>clusterID = 1, ReplicaID = 2, lastApplied = 5, db = Some \<lparr>pd_dir = ''d'', pd_closed = False\<rparr>,
       closed = False, aborted = False\<rparr>, [(''d'', FDB c)])"

lemma example_host_simps [simp]:
  "live (example_host c) = Some c" "lastApplied (fst (example_host c)) = 5"
  "host_map ref_pebble (example_host c) = map_of c"
  by (simp_all add: example_host_def live_def db_content_def host_map_def store_def contents_ref
      del: ref_pebble_ops)

text \<open>On the reference engine a well-formed command is accepted until the index is exhausted.\<close>

lemma single_propose_Ok:
  assumes "live s = Some c" "entry_ops cmd = Ok (Some ops)" "lastApplied (fst s) < lastApplied (fst s) + 1"
  obtains v s' c' where "single_propose ref_pebble s cmd = (Inr v, s')" "live s' = Some c'"
    "lastApplied (fst s') = lastApplied (fst s) + 1"
proof -
  let ?e = "\<lparr>Index = lastApplied (fst s) + 1, Cmd = cmd, Result = 0\<rparr>"
  have loop: "update_loop [?e] = Ok ([done_entry ?e], ops)" using assms(2) by simp
  obtain s' c' where "Update ref_pebble s [?e] = (Ok [done_entry ?e], s')" "live s' = Some c'"
    "lastApplied (fst s') = lastApplied (fst s) + 1"
    using Update_accepted [OF assms(1) loop, of ref_pebble] assms(3) by auto
  moreover have "lastApplied (fst s) + 1 \<noteq> 0" using assms(3) by auto
  ultimately show thesis using that assms(1) by (simp add: single_propose_def Let_def)
qed

lemma single_accepts:
  "live s = Some c \<Longrightarrow> unat (lastApplied (fst s)) + n < 2 ^ 64 \<Longrightarrow> accepts (single_host ref_pebble) n s"
proof (induction n arbitrary: s c)
  case (Suc n)
  have next_index: "unat (lastApplied (fst s) + 1) = unat (lastApplied (fst s)) + 1"
    using Suc.prems(2) by (simp add: unat_word_ariths)
  then have lt: "lastApplied (fst s) < lastApplied (fst s) + 1" by (simp add: word_less_nat_alt)
  have "\<exists>v s'. single_propose ref_pebble s cmd = (Inr v, s') \<and> accepts (single_host ref_pebble) n s'"
    if ops: "entry_ops cmd = Ok (Some ops)" for cmd ops
  proof -
    from single_propose_Ok [OF Suc.prems(1) ops lt]
    obtain v s' c' where "single_propose ref_pebble s cmd = (Inr v, s')" "live s' = Some c'"
      "lastApplied (fst s') = lastApplied (fst s) + 1" by metis
    moreover from this(2,3) have "accepts (single_host ref_pebble) n s'"
      using Suc.prems(2) next_index by (intro Suc.IH) simp_all
    ultimately show ?thesis by blast
  qed
  then show ?case by simp
qed simp

end
