(* ===== verification/Permissions.thy ===== *)
theory Permissions
  imports Raft_KV
begin

text \<open>
  Authorization (\<open>permissions.go\<close>, with the byte comparisons of \<open>utils.go\<close>). Permissions are
  key-value pairs of the replicated store, \<open>p:e:entity:type:context\<close> with the right as the value, or
  with \<open>:type:action\<close> appended and the value 1. A request is granted when its user or one of its
  entities holds a sufficient permission on the resource or, if so configured, on a parent path. A
  grant is cached under \<open>c:user:resource:right\<close>, with an expiry record \<open>ttl:time:random\<close>.

  The clock and the random string are arguments. \<open>grants\<close> is the decision on a stored value;
  the lemmas of \<open>raft_kv\<close> relate each operation to the map of the store.
\<close>

section \<open>Configuration\<close>

record AppConfig =
  CacheSeconds :: int
  PermissionCheckExact :: bool
  AuthorizeSubpaths :: bool

definition int64 :: "int \<Rightarrow> int" where
  "int64 i = (i + 2 ^ 63) mod 2 ^ 64 - 2 ^ 63"

section \<open>Comparing rights\<close>

fun and_loop :: "bytes \<Rightarrow> bytes \<Rightarrow> bool" where
  "and_loop (a # as) (b # bs) = (if a AND b > 0 then True else and_loop as bs)"
| "and_loop _ _ = False"

definition bitwiseAnd :: "slice \<Rightarrow> slice \<Rightarrow> bool" where
  "bitwiseAnd ba1 ba2 = (case (ba1, ba2) of
     (Some as, Some bs) \<Rightarrow> if length as \<noteq> length bs then False else and_loop as bs
   | _ \<Rightarrow> False)"

text \<open>The loop of \<open>bitwiseGreaterOrEqual\<close> from the given index down.\<close>

fun gte_loop :: "nat \<Rightarrow> bytes \<Rightarrow> bytes \<Rightarrow> bool" where
  "gte_loop 0 gte ste = False"
| "gte_loop (Suc i) gte ste =
     (if gte ! i \<ge> ste ! i then True else if ste ! i > 0 then False else gte_loop i gte ste)"

definition bitwiseGreaterOrEqual :: "slice \<Rightarrow> slice \<Rightarrow> bool" where
  "bitwiseGreaterOrEqual gte ste = (case (gte, ste) of
     (Some as, Some bs) \<Rightarrow> if length as \<noteq> length bs then False else gte_loop (length as) as bs
   | _ \<Rightarrow> False)"

section \<open>Keys\<close>

definition getPermissionString ::
    "TypedString \<Rightarrow> TypedString \<Rightarrow> TypedString \<Rightarrow> slice \<Rightarrow> bool \<Rightarrow> KVData" where
  "getPermissionString entity context action right del =
     (let c = (if ts_Val context = [] then ''/'' else ts_Val context);
          k = ''p:e:'' @ ts_Val entity @ '':'' @ show_rune (ts_Rune context) @ '':'' @ c;
          kv = (if ts_Val action \<noteq> []
                then \<lparr>Key = k @ '':'' @ show_rune (ts_Rune action) @ '':'' @ ts_Val action, Val = Some [1]\<rparr>
                else \<lparr>Key = k, Val = right\<rparr>)
      in if del then kv\<lparr>Val := None\<rparr> else kv)"

definition getCacheKey :: "Request \<Rightarrow> string" where
  "getCacheKey request =
     (let k = ''c:'' @ ts_Val (r_User request) @ '':'' @ ts_Val (r_Resource request) in
      if ts_Val (r_Action request) \<noteq> []
      then k @ '':'' @ show_rune (ts_Rune (r_Action request)) @ '':'' @ ts_Val (r_Action request)
      else k @ '':'' @ bytes_str (slice_bytes (r_Right request)))"

section \<open>Operations\<close>

definition checkPermission ::
    "('nh, 'a) nodehost_scheme \<Rightarrow> AppConfig \<Rightarrow> 'nh \<Rightarrow> KVData \<Rightarrow> bool" where
  "checkPermission H cfg nh kv = (case nh_SyncRead H nh (QString (Key kv)) of
     Inl e \<Rightarrow> False
   | Inr (RMap _) \<Rightarrow> False
   | Inr (RBytes b) \<Rightarrow>
       (let bytes = slice_bytes b in
        if length bytes = 0 then False
        else if length bytes = 1 \<and> bytes ! 0 AND 1 > 0 then True
        else if PermissionCheckExact cfg then bitwiseAnd b (Val kv)
        else bitwiseGreaterOrEqual (Val kv) b))"

definition ttl ::
    "('nh, 'a) nodehost_scheme \<Rightarrow> AppConfig \<Rightarrow> int \<Rightarrow> string \<Rightarrow> 'nh \<Rightarrow> string \<Rightarrow> error option \<times> 'nh" where
  "ttl H cfg now rnd nh key =
     (let k = ''ttl:'' @ show_int_pad 15 (int64 (now + CacheSeconds cfg)) @ '':'' @ rnd in
      case nh_SyncPropose H nh (json_Marshal (KVData_json \<lparr>Key = k, Val = Some (str_bytes key)\<rparr>)) of
        (Inl e, nh') \<Rightarrow> (Some e, nh') | (Inr _, nh') \<Rightarrow> (None, nh'))"

definition cache ::
    "('nh, 'a) nodehost_scheme \<Rightarrow> AppConfig \<Rightarrow> int \<Rightarrow> string \<Rightarrow> 'nh \<Rightarrow> Request \<Rightarrow> TypedString \<Rightarrow> TypedString
      \<Rightarrow> error option \<times> 'nh" where
  "cache H cfg now rnd nh request entity context =
     (if CacheSeconds cfg \<le> 1 then (None, nh)
      else
        (let k = getCacheKey request;
             v = ''e:'' @ ts_Val entity @ '':'' @ show_rune (ts_Rune context) @ '':'' @ ts_Val context
         in case nh_SyncPropose H nh (json_Marshal (KVData_json \<lparr>Key = k, Val = Some (str_bytes v)\<rparr>)) of
              (Inl e, nh') \<Rightarrow> (Some e, nh')
            | (Inr _, nh') \<Rightarrow> (None, snd (ttl H cfg now rnd nh' k))))"

definition hit :: "('nh, 'a) nodehost_scheme \<Rightarrow> 'nh \<Rightarrow> Request \<Rightarrow> string" where
  "hit H nh request = (case nh_SyncRead H nh (QString (getCacheKey request)) of
     Inl e \<Rightarrow> []
   | Inr (RMap _) \<Rightarrow> []
   | Inr (RBytes b) \<Rightarrow> bytes_str (slice_bytes b))"

text \<open>The check of \<open>authorize\<close> against a cached grant.\<close>

definition cached_grant ::
    "('nh, 'a) nodehost_scheme \<Rightarrow> AppConfig \<Rightarrow> 'nh \<Rightarrow> Request \<Rightarrow> string \<Rightarrow> bool" where
  "cached_grant H cfg nh request c =
     (let prevContext = split_on (CHR '':'') c in
      if length prevContext = 4 \<and>
         (prevContext ! 1 = ts_Val (r_User request) \<or>
          (\<exists>e \<in> set (r_Entities request). prevContext ! 1 = ts_Val e))
      then
        (let kv = (if ts_Val (r_Action request) \<noteq> []
                   then \<lparr>Key = ''p:'' @ c @ '':'' @ show_rune (ts_Rune (r_Action request)) @ '':''
                            @ ts_Val (r_Action request), Val = Some [1]\<rparr>
                   else \<lparr>Key = ''p:'' @ c, Val = r_Right request\<rparr>)
         in checkPermission H cfg nh kv)
      else False)"

abbreviation context_of :: "Request \<Rightarrow> string \<Rightarrow> TypedString" where
  "context_of request path \<equiv> \<lparr>ts_Val = path, ts_Rune = ts_Rune (r_Resource request)\<rparr>"

fun authorize_entities ::
    "('nh, 'a) nodehost_scheme \<Rightarrow> AppConfig \<Rightarrow> int \<Rightarrow> string \<Rightarrow> 'nh \<Rightarrow> Request \<Rightarrow> string
      \<Rightarrow> TypedString list \<Rightarrow> bool \<times> 'nh" where
  "authorize_entities H cfg now rnd nh request path [] = (False, nh)"
| "authorize_entities H cfg now rnd nh request path (e # es) =
     (if ts_Val e = ts_Val (r_User request) then authorize_entities H cfg now rnd nh request path es
      else if checkPermission H cfg nh
                (getPermissionString e (context_of request path) (r_Action request) (r_Right request) False)
      then (True, snd (cache H cfg now rnd nh request e (context_of request path)))
      else authorize_entities H cfg now rnd nh request path es)"

text \<open>The loop over the parts of the path; \<open>first\<close> is the test \<open>idx = 0\<close>.\<close>

fun authorize_paths ::
    "('nh, 'a) nodehost_scheme \<Rightarrow> AppConfig \<Rightarrow> int \<Rightarrow> string \<Rightarrow> 'nh \<Rightarrow> Request \<Rightarrow> bool \<Rightarrow> string
      \<Rightarrow> string list \<Rightarrow> bool \<times> 'nh" where
  "authorize_paths H cfg now rnd nh request first path [] = (False, nh)"
| "authorize_paths H cfg now rnd nh request first path (part # parts) =
     (let path' = (if first then path else path @ ''/'' @ part) in
      if checkPermission H cfg nh (getPermissionString (r_User request) (context_of request path')
           (r_Action request) (r_Right request) False)
      then (True, snd (cache H cfg now rnd nh request (r_User request) (context_of request path')))
      else case authorize_entities H cfg now rnd nh request path' (r_Entities request) of
        (True, nh') \<Rightarrow> (True, nh')
      | (False, nh') \<Rightarrow> authorize_paths H cfg now rnd nh' request False path' parts)"

definition authorize ::
    "('nh, 'a) nodehost_scheme \<Rightarrow> AppConfig \<Rightarrow> int \<Rightarrow> string \<Rightarrow> 'nh \<Rightarrow> Request \<Rightarrow> bool \<times> 'nh" where
  "authorize H cfg now rnd nh request =
     (let c = (if CacheSeconds cfg > 0 then hit H nh request else []) in
      if c \<noteq> [] \<and> cached_grant H cfg nh request c then (True, nh)
      else if AuthorizeSubpaths cfg
      then authorize_paths H cfg now rnd nh request True [] (split_on (CHR ''/'') (ts_Val (r_Resource request)))
      else authorize_paths H cfg now rnd nh request True (ts_Val (r_Resource request))
             [ts_Val (r_Resource request)])"

text \<open>The batch \<open>permiss\<close> writes.\<close>

definition permission_kv :: "Permission \<Rightarrow> KVData" where
  "permission_kv p =
     (let k = ''p:e:'' @ ts_Val (p_Entity p) @ '':'' @ show_rune (ts_Rune (p_Context p)) @ '':''
                @ ts_Val (p_Context p);
          kv = (if ts_Val (p_Action p) \<noteq> []
                then \<lparr>Key = k @ '':'' @ show_rune (ts_Rune (p_Action p)) @ '':'' @ ts_Val (p_Action p),
                      Val = Some [1]\<rparr>
                else \<lparr>Key = k, Val = p_Right p\<rparr>)
      in if p_Delete p then kv\<lparr>Val := None\<rparr> else kv)"

definition permiss ::
    "('nh, 'a) nodehost_scheme \<Rightarrow> 'nh \<Rightarrow> Permission list \<Rightarrow> error option \<times> 'nh" where
  "permiss H nh permissions =
     (case nh_SyncPropose H nh (json_Marshal (KVBatch_json
          \<lparr>kb_Action = act_PUT, kb_Batch = Some (map (Some \<circ> permission_kv) permissions)\<rparr>)) of
        (Inl e, nh') \<Rightarrow> (Some e, nh') | (Inr _, nh') \<Rightarrow> (None, nh'))"

section \<open>The decision on a stored value\<close>

definition grants :: "AppConfig \<Rightarrow> slice \<Rightarrow> bytes option \<Rightarrow> bool" where
  "grants cfg right stored = (case stored of None \<Rightarrow> False
     | Some b \<Rightarrow> b \<noteq> [] \<and> (length b = 1 \<and> b ! 0 AND 1 > 0 \<or>
         (if PermissionCheckExact cfg then bitwiseAnd (Some b) right
          else bitwiseGreaterOrEqual right (Some b))))"

lemma gte_loop_last:
  "length as = length bs \<Longrightarrow> as \<noteq> [] \<Longrightarrow> gte_loop (length as) as bs \<longleftrightarrow> last bs \<le> last as"
proof -
  assume a: "length as = length bs" "as \<noteq> []"
  then obtain n where n: "length as = Suc n" by (cases as) auto
  have "bs \<noteq> []" using a by auto
  then have "as ! n = last as" "bs ! n = last bs" using a n by (metis diff_Suc_1 last_conv_nth)+
  moreover have "0 < last bs" if "\<not> last bs \<le> last as"
    using that by (metis not_le order.strict_trans1 word_zero_le)
  ultimately show ?thesis by (auto simp: n)
qed

lemma and_loop_iff:
  "length as = length bs \<Longrightarrow> and_loop as bs \<longleftrightarrow> (\<exists>i<length as. as ! i AND bs ! i \<noteq> 0)"
proof (induction as bs rule: list_induct2)
  case (Cons a as b bs)
  then show ?case by (auto simp: word_gt_0 All_less_Suc2 Ex_less_Suc2)
qed simp

text \<open>What a request asks for, and of whom and where.\<close>

definition action_suffix :: "TypedString \<Rightarrow> string" where
  "action_suffix a = (if ts_Val a = [] then [] else '':'' @ show_rune (ts_Rune a) @ '':'' @ ts_Val a)"

definition perm_key :: "string \<Rightarrow> int \<Rightarrow> string \<Rightarrow> TypedString \<Rightarrow> string" where
  "perm_key e rune ctx a = ''p:e:'' @ e @ '':'' @ show_rune rune @ '':'' @ ctx @ action_suffix a"

definition wanted :: "Request \<Rightarrow> slice" where
  "wanted request = (if ts_Val (r_Action request) = [] then r_Right request else Some [1])"

definition subjects :: "Request \<Rightarrow> string list" where
  "subjects request = ts_Val (r_User request) # map ts_Val (r_Entities request)"

fun sub_paths :: "bool \<Rightarrow> string \<Rightarrow> string list \<Rightarrow> string list" where
  "sub_paths first path [] = []"
| "sub_paths first path (part # parts) =
     (let path' = (if first then path else path @ ''/'' @ part) in path' # sub_paths False path' parts)"

definition root_path :: "string \<Rightarrow> string" where
  "root_path p = (if p = [] then ''/'' else p)"

definition contexts :: "AppConfig \<Rightarrow> Request \<Rightarrow> string list" where
  "contexts cfg request = map root_path
     (if AuthorizeSubpaths cfg then sub_paths True [] (split_on (CHR ''/'') (ts_Val (r_Resource request)))
      else [ts_Val (r_Resource request)])"

text \<open>Subject \<open>e\<close> holds a sufficient permission at context \<open>ctx\<close>.\<close>

definition holds :: "AppConfig \<Rightarrow> (bytes \<rightharpoonup> bytes) \<Rightarrow> Request \<Rightarrow> string \<Rightarrow> string \<Rightarrow> bool" where
  "holds cfg m request e ctx \<longleftrightarrow> grants cfg (wanted request)
     (m (str_bytes (perm_key e (ts_Rune (r_Resource request)) ctx (r_Action request))))"

lemma getPermissionString_key:
  "getPermissionString e (context_of request path) (r_Action request) (r_Right request) False
     = \<lparr>Key = perm_key (ts_Val e) (ts_Rune (r_Resource request)) (root_path path) (r_Action request),
        Val = wanted request\<rparr>"
  by (simp add: getPermissionString_def perm_key_def root_path_def action_suffix_def wanted_def Let_def)

text \<open>Where the loop over the paths starts, and what it visits.\<close>

definition start_path :: "AppConfig \<Rightarrow> Request \<Rightarrow> string" where
  "start_path cfg request = (if AuthorizeSubpaths cfg then [] else ts_Val (r_Resource request))"

definition path_parts :: "AppConfig \<Rightarrow> Request \<Rightarrow> string list" where
  "path_parts cfg request = (if AuthorizeSubpaths cfg then split_on (CHR ''/'') (ts_Val (r_Resource request))
     else [ts_Val (r_Resource request)])"

lemma contexts_alt:
  "contexts cfg request = map root_path (sub_paths True (start_path cfg request) (path_parts cfg request))"
  by (simp add: contexts_def start_path_def path_parts_def)

lemma authorize_alt:
  "authorize H cfg now rnd nh request =
     (if CacheSeconds cfg > 0 \<and> hit H nh request \<noteq> [] \<and> cached_grant H cfg nh request (hit H nh request)
      then (True, nh)
      else authorize_paths H cfg now rnd nh request True (start_path cfg request) (path_parts cfg request))"
  by (simp add: authorize_def start_path_def path_parts_def Let_def del: authorize_paths.simps)

definition readable :: "('nh, 'a) nodehost_scheme \<Rightarrow> 'nh \<Rightarrow> bool" where
  "readable H nh \<longleftrightarrow> (\<forall>k. \<exists>v. nh_SyncRead H nh (QString k) = Inr v)"

context raft_kv
begin

lemma checkPermission_read:
  assumes "nh_SyncRead H nh (QString (Key kv)) = Inr v"
  shows "checkPermission H cfg nh kv \<longleftrightarrow> grants cfg (Val kv) (sm nh (str_bytes (Key kv)))"
  using assms read_string [OF assms]
  by (auto simp: checkPermission_def grants_def Let_def split: option.splits)

lemma checkPermission_sound:
  "checkPermission H cfg nh kv \<Longrightarrow> grants cfg (Val kv) (sm nh (str_bytes (Key kv)))"
  using checkPermission_read by (cases "nh_SyncRead H nh (QString (Key kv))") (auto simp: checkPermission_def)

lemma checkPermission_iff:
  "readable H nh \<Longrightarrow> checkPermission H cfg nh kv \<longleftrightarrow> grants cfg (Val kv) (sm nh (str_bytes (Key kv)))"
  unfolding readable_def using checkPermission_read by blast

lemma authorize_entities_state:
  "authorize_entities H cfg now rnd nh request path es = (False, nh') \<Longrightarrow> nh' = nh"
  by (induction es) (auto split: if_splits)

lemma authorize_entities_sound:
  "authorize_entities H cfg now rnd nh request path es = (True, nh') \<Longrightarrow>
   \<exists>e\<in>set es. holds cfg (sm nh) request (ts_Val e) (root_path path)"
  by (induction es)
    (auto simp: holds_def getPermissionString_key split: if_splits dest!: checkPermission_sound)

lemma authorize_paths_sound:
  "authorize_paths H cfg now rnd nh request first path parts = (True, nh') \<Longrightarrow>
   \<exists>e\<in>set (subjects request). \<exists>ctx\<in>set (map root_path (sub_paths first path parts)). holds cfg (sm nh) request e ctx"
proof (induction parts arbitrary: first path)
  case (Cons part parts)
  define path' where "path' = (if first then path else path @ ''/'' @ part)"
  let ?kv = "getPermissionString (r_User request) (context_of request path') (r_Action request) (r_Right request) False"
  obtain b nh1 where e: "authorize_entities H cfg now rnd nh request path' (r_Entities request) = (b, nh1)" by fastforce
  consider "checkPermission H cfg nh ?kv" | "b" | "\<not> b" "nh1 = nh"
    "authorize_paths H cfg now rnd nh request False path' parts = (True, nh')"
    using Cons.prems e authorize_entities_state [of cfg now rnd nh request path' "r_Entities request" nh1]
    by (cases b) (auto simp: Let_def path'_def split: if_splits)
  then show ?case
  proof cases
    case 1
    then have "holds cfg (sm nh) request (ts_Val (r_User request)) (root_path path')"
      using checkPermission_sound by (fastforce simp: getPermissionString_key holds_def)
    then show ?thesis by (simp add: subjects_def path'_def [symmetric] Let_def)
  next
    case 2
    with e authorize_entities_sound show ?thesis
      by (fastforce simp: subjects_def path'_def [symmetric] Let_def)
  next
    case 3
    from Cons.IH [OF 3(3)] show ?thesis by (auto simp: path'_def [symmetric] Let_def)
  qed
qed simp

lemma authorize_entities_complete:
  assumes "readable H nh" "e \<in> set es" "ts_Val e \<noteq> ts_Val (r_User request)"
    and "holds cfg (sm nh) request (ts_Val e) (root_path path)"
  shows "fst (authorize_entities H cfg now rnd nh request path es)"
  using assms
  by (induction es) (auto simp: checkPermission_iff getPermissionString_key holds_def)

lemma authorize_paths_complete:
  assumes "readable H nh" "e \<in> set (subjects request)" "holds cfg (sm nh) request e ctx"
    and "ctx \<in> set (map root_path (sub_paths first path parts))"
  shows "fst (authorize_paths H cfg now rnd nh request first path parts)"
  using assms(4)
proof (induction parts arbitrary: first path)
  case (Cons part parts)
  define path' where "path' = (if first then path else path @ ''/'' @ part)"
  let ?kv = "getPermissionString (r_User request) (context_of request path') (r_Action request) (r_Right request) False"
  obtain b nh1 where en: "authorize_entities H cfg now rnd nh request path' (r_Entities request) = (b, nh1)" by fastforce
  show ?case
  proof (cases "checkPermission H cfg nh ?kv \<or> b")
    case True
    with en show ?thesis by (auto simp: Let_def path'_def)
  next
    case False
    then have nh1: "nh1 = nh" using en authorize_entities_state by fastforce
    have "ctx \<noteq> root_path path'"
    proof
      assume ctx: "ctx = root_path path'"
      show False
      proof (cases "e = ts_Val (r_User request)")
        case True
        with False assms(1,3) ctx show False by (simp add: checkPermission_iff getPermissionString_key holds_def)
      next
        case ne: False
        with assms(2) obtain en' where "en' \<in> set (r_Entities request)" "ts_Val en' = e" by (auto simp: subjects_def)
        with authorize_entities_complete [OF assms(1), of en' "r_Entities request" request cfg path' now rnd]
          assms(3) ctx ne en False show False by simp
      qed
    qed
    then have "ctx \<in> set (map root_path (sub_paths False path' parts))"
      using Cons.prems by (simp add: path'_def [symmetric] Let_def)
    from Cons.IH [OF this] False en nh1 show ?thesis by (simp add: Let_def path'_def [symmetric])
  qed
qed simp

lemma hit_value:
  "hit H nh request \<noteq> [] \<Longrightarrow> sm nh (str_bytes (getCacheKey request)) = Some (str_bytes (hit H nh request))"
  by (auto simp: hit_def split: sum.splits lookup_result.splits option.splits dest!: read_string)
    (metis slice_bytes_simps(1) bytes_str_simps(1) option.exhaust slice_bytes_simps(2) str_bytes_bytes_str)

lemma hit_eq:
  assumes "readable H nh" "sm nh (str_bytes (getCacheKey request)) = Some (str_bytes c)"
  shows "hit H nh request = c"
proof -
  obtain v where v: "nh_SyncRead H nh (QString (getCacheKey request)) = Inr v"
    using assms(1) unfolding readable_def by blast
  from read_string [OF v] assms(2) v show ?thesis by (simp add: hit_def)
qed

text \<open>A cached grant is used only if its entity is still a subject and its permission still stored.\<close>

lemma cached_grant_sound:
  assumes "cached_grant H cfg nh request c"
  obtains t e r ctx where "c = t @ '':'' @ e @ '':'' @ r @ '':'' @ ctx" "e \<in> set (subjects request)"
    "grants cfg (wanted request) (sm nh (str_bytes (''p:'' @ c @ action_suffix (r_Action request))))"
proof -
  let ?ps = "split_on (CHR '':'') c"
  have len: "length ?ps = 4" and sub: "?ps ! 1 \<in> set (subjects request)"
    using assms by (auto simp: cached_grant_def subjects_def Let_def split: if_splits)
  have "checkPermission H cfg nh \<lparr>Key = ''p:'' @ c @ action_suffix (r_Action request), Val = wanted request\<rparr>"
    using assms by (auto simp: cached_grant_def action_suffix_def wanted_def Let_def split: if_splits)
  then have g: "grants cfg (wanted request) (sm nh (str_bytes (''p:'' @ c @ action_suffix (r_Action request))))"
    using checkPermission_sound by fastforce
  obtain t e r ctx where ps: "?ps = [t, e, r, ctx]"
    using len by (auto simp: numeral_eq_Suc length_Suc_conv)
  have "c = join_with (CHR '':'') ?ps" by simp
  then have "c = t @ '':'' @ e @ '':'' @ r @ '':'' @ ctx" unfolding ps by (simp add: join_with_def)
  with that sub g ps show thesis by simp
qed

lemma authorize_granted:
  assumes "readable H nh" "e \<in> set (subjects request)" "ctx \<in> set (contexts cfg request)"
    and "holds cfg (sm nh) request e ctx"
  shows "fst (authorize H cfg now rnd nh request)"
  using authorize_paths_complete [OF assms(1,2,4)] assms(3)
  unfolding authorize_alt contexts_alt by simp

lemma authorize_paths_state:
  "authorize_paths H cfg now rnd nh request first path parts = (False, nh') \<Longrightarrow> nh' = nh"
proof (induction parts arbitrary: first path)
  case (Cons part parts)
  define path' where "path' = (if first then path else path @ ''/'' @ part)"
  obtain b nh1 where en: "authorize_entities H cfg now rnd nh request path' (r_Entities request) = (b, nh1)" by fastforce
  with Cons.prems have "\<not> b" "authorize_paths H cfg now rnd nh1 request False path' parts = (False, nh')"
    by (auto simp: Let_def path'_def [symmetric] split: if_splits bool.splits)
  with en authorize_entities_state Cons.IH show ?case by fastforce
qed simp

lemma cache_off: "CacheSeconds cfg \<le> 1 \<Longrightarrow> cache H cfg now rnd nh request e c = (None, nh)"
  by (simp add: cache_def)

lemma authorize_off_state:
  assumes "CacheSeconds cfg \<le> 0"
  shows "snd (authorize H cfg now rnd nh request) = nh"
proof -
  have en: "snd (authorize_entities H cfg now rnd nh request path es) = nh" for path es
    using assms by (induction es) (simp_all add: cache_off)
  have "snd (authorize_paths H cfg now rnd nh request first path parts) = nh" for first path parts
  proof (induction parts arbitrary: first path)
    case (Cons part parts)
    define path' where "path' = (if first then path else path @ ''/'' @ part)"
    obtain b nh1 where e: "authorize_entities H cfg now rnd nh request path' (r_Entities request) = (b, nh1)" by fastforce
    then have "nh1 = nh" using en [of path' "r_Entities request"] by simp
    with Cons.IH [of False path'] e assms show ?case
      by (cases b) (simp_all add: Let_def path'_def [symmetric] cache_off)
  qed simp
  with assms show ?thesis by (simp add: authorize_alt)
qed

lemma authorize_off_sound:
  assumes "\<not> CacheSeconds cfg > 0" "authorize H cfg now rnd nh request = (True, nh')"
  shows "\<exists>e\<in>set (subjects request). \<exists>ctx\<in>set (contexts cfg request). holds cfg (sm nh) request e ctx"
  using assms authorize_paths_sound unfolding authorize_alt contexts_alt by simp

end

section \<open>Properties of authorization\<close>

lemma single_readable: "pebble_db P \<Longrightarrow> live s = Some c \<Longrightarrow> readable (single_host P) s"
  using pebble_db.Get_spec [of P s c]
  by (simp add: readable_def single_read_def Lookup_def decode_query_def)

definition example_config :: AppConfig where
  "example_config = \<lparr>CacheSeconds = 60, PermissionCheckExact = False, AuthorizeSubpaths = True\<rparr>"

definition example_request :: Request where
  "example_request = \<lparr>r_User = \<lparr>ts_Val = ''ann'', ts_Rune = 117\<rparr>,
     r_Entities = [\<lparr>ts_Val = ''staff'', ts_Rune = 103\<rparr>], r_Resource = \<lparr>ts_Val = ''/org/doc'', ts_Rune = 102\<rparr>,
     r_Action = zero_TypedString, r_Right = Some [0, 4]\<rparr>"

text \<open>The group \<open>staff\<close> holds right \<open>[0, 4]\<close> on the folder \<open>/org\<close>.\<close>

definition example_perms :: ref_db where
  "example_perms = [(str_bytes ''p:e:staff:f:/org'', [0, 4])]"

lemma show_rune_f [simp]: "show_rune 102 = ''f''"
  using encode_rune_ascii [of "CHR ''f''"] by (simp add: show_rune_def)

text \<open>
  C7. Authorization is sound: when a request is granted, its user or one of its entities holds a
  sufficient permission in the store at that moment, on the requested path or a parent; also when
  the answer comes from the cache, the permission the cached grant rests on is read again, so
  that removing it takes effect at once.
\<close>

theorem authorize_sound:
  assumes "raft_kv H sm" "authorize H cfg now rnd nh request = (True, nh')"
  shows "\<exists>e\<in>set (subjects request).
    (\<exists>ctx\<in>set (contexts cfg request). holds cfg (sm nh) request e ctx) \<or>
    (CacheSeconds cfg > 0 \<and> (\<exists>t r ctx c. c = t @ '':'' @ e @ '':'' @ r @ '':'' @ ctx
      \<and> sm nh (str_bytes (getCacheKey request)) = Some (str_bytes c)
      \<and> grants cfg (wanted request) (sm nh (str_bytes (''p:'' @ c @ action_suffix (r_Action request))))))"
proof -
  let ?c = "hit H nh request"
  consider (cached) "CacheSeconds cfg > 0" "?c \<noteq> []" "cached_grant H cfg nh request ?c"
    | (paths) "authorize_paths H cfg now rnd nh request True (start_path cfg request) (path_parts cfg request)
        = (True, nh')"
    using assms(2) by (auto simp: authorize_alt split: if_splits)
  then show ?thesis
  proof cases
    case cached
    from raft_kv.cached_grant_sound [OF assms(1) cached(3)] raft_kv.hit_value [OF assms(1) cached(2)] cached(1)
    show ?thesis by metis
  next
    case paths
    from raft_kv.authorize_paths_sound [OF assms(1) this] show ?thesis unfolding contexts_alt by blast
  qed
qed

lemma example_holds:
  "holds example_config (map_of example_perms) example_request ''staff'' ''/org''"
  "''staff'' \<in> set (subjects example_request)" "''/org'' \<in> set (contexts example_config example_request)"
  "readable (single_host ref_pebble) (example_host example_perms)"
proof -
  have key: "perm_key ''staff'' 102 ''/org'' \<lparr>ts_Val = [], ts_Rune = 0\<rparr> = ''p:e:staff:f:/org''"
    by (simp add: perm_key_def action_suffix_def)
  show "holds example_config (map_of example_perms) example_request ''staff'' ''/org''"
    by (simp add: holds_def example_request_def key example_perms_def grants_def wanted_def
        example_config_def bitwiseGreaterOrEqual_def zero_TypedString_def)
  show "''staff'' \<in> set (subjects example_request)" by (simp add: subjects_def example_request_def)
  show "''/org'' \<in> set (contexts example_config example_request)"
    by (simp add: contexts_def example_request_def example_config_def root_path_def)
  show "readable (single_host ref_pebble) (example_host example_perms)"
    using refdb.pebble_db_axioms by (rule single_readable) simp
qed

theorem authorize_sound_witness:
  "\<exists>nh'. authorize (single_host ref_pebble) example_config 100 ''r'' (example_host example_perms) example_request
      = (True, nh')
    \<and> (\<exists>e\<in>set (subjects example_request). \<exists>ctx\<in>set (contexts example_config example_request).
        holds example_config (map_of example_perms) example_request e ctx)"
proof -
  let ?a = "authorize (single_host ref_pebble) example_config 100 ''r'' (example_host example_perms) example_request"
  have "fst ?a"
    using refdb.single.authorize_granted [OF example_holds(4,2,3)] example_holds(1) by simp
  then obtain nh' where a: "?a = (True, nh')" by (cases ?a) auto
  have "map_of example_perms (str_bytes (getCacheKey example_request)) = None"
    by (simp add: getCacheKey_def example_request_def example_perms_def zero_TypedString_def Let_def)
  with authorize_sound [OF refdb.single.raft_kv_axioms a] a show ?thesis by auto
qed

lemma authorize_decides:
  assumes "raft_kv H sm" "readable H nh" "CacheSeconds cfg \<le> 0"
  shows "authorize H cfg now rnd nh request =
    ((\<exists>e\<in>set (subjects request). \<exists>ctx\<in>set (contexts cfg request). holds cfg (sm nh) request e ctx), nh)"
proof (cases "\<exists>e\<in>set (subjects request). \<exists>ctx\<in>set (contexts cfg request). holds cfg (sm nh) request e ctx")
  case True
  then have "fst (authorize H cfg now rnd nh request)"
    using raft_kv.authorize_granted [OF assms(1,2)] by blast
  moreover have "snd (authorize H cfg now rnd nh request) = nh"
    using assms(3) raft_kv.authorize_off_state [OF assms(1)] by simp
  ultimately show ?thesis using True by (simp add: prod_eq_iff)
next
  case False
  have "\<not> fst (authorize H cfg now rnd nh request)"
  proof
    assume "fst (authorize H cfg now rnd nh request)"
    then have a: "authorize H cfg now rnd nh request = (True, snd (authorize H cfg now rnd nh request))"
      by (simp add: prod_eq_iff)
    have "\<not> CacheSeconds cfg > 0" using assms(3) by simp
    with raft_kv.authorize_off_sound [OF assms(1) _ a] False show False by blast
  qed
  moreover have "snd (authorize H cfg now rnd nh request) = nh"
    using assms(3) raft_kv.authorize_off_state [OF assms(1)] by simp
  ultimately show ?thesis using False by (simp add: prod_eq_iff)
qed

text \<open>
  C8. With the cache off, authorization decides exactly: it grants a request if and only if one of
  the subjects holds a sufficient permission on the path or on a parent, and it changes nothing.
\<close>

theorem authorize_exact:
  assumes "raft_kv H sm" "readable H nh" "CacheSeconds cfg \<le> 0"
  shows "authorize H cfg now rnd nh request =
    ((\<exists>e\<in>set (subjects request). \<exists>ctx\<in>set (contexts cfg request). holds cfg (sm nh) request e ctx), nh)"
  using assms by (rule authorize_decides)

theorem authorize_exact_witness:
  "authorize (single_host ref_pebble) (example_config\<lparr>CacheSeconds := 0\<rparr>) 100 ''r'' (example_host [])
     example_request = (False, example_host [])"
proof -
  have "readable (single_host ref_pebble) (example_host [])"
    using refdb.pebble_db_axioms by (rule single_readable) simp
  from authorize_exact [OF refdb.single.raft_kv_axioms this, of "example_config\<lparr>CacheSeconds := 0\<rparr>"]
  show ?thesis by (simp add: holds_def grants_def)
qed

section \<open>Writing permissions\<close>

lemma fold_kv_effect_other:
  "\<forall>kv\<in>set kvs. str_bytes (Key kv) \<noteq> k \<Longrightarrow> fold kv_effect kvs m k = m k"
  by (induction kvs arbitrary: m) (auto simp: kv_effect_def)

lemma fold_kv_effect_last:
  assumes "\<forall>kv'\<in>set kvs2. Key kv' \<noteq> Key kv"
  shows "fold kv_effect (kvs1 @ kv # kvs2) m (str_bytes (Key kv)) = Val kv"
  using assms fold_kv_effect_other [of kvs2 "str_bytes (Key kv)"] by (simp add: kv_effect_def)

definition perm_utf8 :: "Permission \<Rightarrow> bool" where
  "perm_utf8 p \<longleftrightarrow> utf8_ok (ts_Val (p_Entity p)) \<and> utf8_ok (ts_Val (p_Context p)) \<and> utf8_ok (ts_Val (p_Action p))"

lemma permission_kv_key:
  "Key (permission_kv p) = perm_key (ts_Val (p_Entity p)) (ts_Rune (p_Context p)) (ts_Val (p_Context p)) (p_Action p)"
  by (simp add: permission_kv_def perm_key_def action_suffix_def Let_def)

lemma perm_key_utf8:
  "utf8_ok e \<Longrightarrow> utf8_ok ctx \<Longrightarrow> utf8_ok (ts_Val a) \<Longrightarrow> utf8_ok (perm_key e r ctx a)"
proof -
  have "utf8_ok ''p:e:''" "utf8_ok '':''" by (simp_all add: utf8_ok_ascii is_ascii_def)
  then show "utf8_ok e \<Longrightarrow> utf8_ok ctx \<Longrightarrow> utf8_ok (ts_Val a) \<Longrightarrow> utf8_ok (perm_key e r ctx a)"
    unfolding perm_key_def action_suffix_def by (simp del: append_Cons)
qed

lemma permission_kv_coerce: "perm_utf8 p \<Longrightarrow> coerce_KVData (permission_kv p) = permission_kv p"
  by (simp add: coerce_KVData_ok permission_kv_key perm_key_utf8 perm_utf8_def)

lemma perm_key_not_index: "str_bytes (perm_key e r ctx a) \<noteq> str_bytes appliedIndexKey"
  by (simp add: perm_key_def appliedIndexKey_def)

lemma with_index_other: "k \<noteq> str_bytes appliedIndexKey \<Longrightarrow> with_index i m k = m k"
  by (simp add: with_index_def)

context raft_kv
begin

lemma permiss_applied:
  assumes "permiss H nh ps = (None, nh')" "list_all perm_utf8 ps"
  shows "\<exists>i. sm nh' = with_index i (fold kv_effect (map permission_kv ps) (sm nh))"
proof -
  let ?cmd = "json_Marshal (KVBatch_json \<lparr>kb_Action = act_PUT, kb_Batch = Some (map Some (map permission_kv ps))\<rparr>)"
  obtain v where "nh_SyncPropose H nh ?cmd = (Inr v, nh')"
    using assms(1) by (auto simp: permiss_def split: prod.splits sum.splits)
  then have "applied ?cmd (sm nh) (sm nh')" by (rule propose_done)
  moreover have "map coerce_KVData (map permission_kv ps) = map permission_kv ps"
    using assms(2) by (simp add: permission_kv_coerce list_all_iff)
  ultimately show ?thesis by (auto simp: applied_def cmd_effect_batch simp del: map_map)
qed

end

text \<open>
  Writing a permission makes it effective: after \<open>permiss\<close> has stored a list of permissions, a
  request is granted if one of them, not deleted and not overwritten later in the list, is for one
  of its subjects, on its path or a parent, with its action, and with a sufficient right.
\<close>

theorem permiss_authorize:
  assumes "raft_kv H sm" "permiss H nh (ps1 @ p # ps2) = (None, nh')" "readable H nh'"
    and "list_all perm_utf8 (ps1 @ p # ps2)" "\<forall>q\<in>set ps2. Key (permission_kv q) \<noteq> Key (permission_kv p)"
    and "ts_Val (p_Entity p) \<in> set (subjects request)" "ts_Rune (p_Context p) = ts_Rune (r_Resource request)"
    and "ts_Val (p_Context p) \<in> set (contexts cfg request)" "p_Action p = r_Action request"
    and "grants cfg (wanted request) (Val (permission_kv p))"
  shows "fst (authorize H cfg now rnd nh' request)"
proof -
  let ?key = "Key (permission_kv p)"
  obtain i where "sm nh' = with_index i (fold kv_effect (map permission_kv (ps1 @ p # ps2)) (sm nh))"
    using raft_kv.permiss_applied [OF assms(1,2,4)] by blast
  moreover have "str_bytes ?key \<noteq> str_bytes appliedIndexKey"
    unfolding permission_kv_key by (rule perm_key_not_index)
  moreover have "fold kv_effect (map permission_kv ps1 @ permission_kv p # map permission_kv ps2) (sm nh) (str_bytes ?key)
      = Val (permission_kv p)"
    using assms(5) by (intro fold_kv_effect_last) auto
  ultimately have "sm nh' (str_bytes ?key) = Val (permission_kv p)" by (simp add: with_index_other)
  then have "holds cfg (sm nh') request (ts_Val (p_Entity p)) (ts_Val (p_Context p))"
    using assms(7,9,10) by (simp add: holds_def permission_kv_key)
  then show ?thesis using raft_kv.authorize_granted [OF assms(1,3,6,8)] by blast
qed

definition example_permission :: Permission where
  "example_permission = \<lparr>p_Entity = \<lparr>ts_Val = ''staff'', ts_Rune = 103\<rparr>,
     p_Context = \<lparr>ts_Val = ''/org'', ts_Rune = 102\<rparr>, p_Action = zero_TypedString,
     p_Right = Some [0, 4], p_Delete = False\<rparr>"

text \<open>On the example host a batch of permissions is accepted.\<close>

lemma example_permiss:
  obtains nh' where "permiss (single_host ref_pebble) (example_host c) ps = (None, nh')"
    "readable (single_host ref_pebble) nh'"
proof -
  let ?cmd = "json_Marshal (KVBatch_json \<lparr>kb_Action = act_PUT, kb_Batch = Some (map Some (map permission_kv ps))\<rparr>)"
  obtain v s' c' where "single_propose ref_pebble (example_host c) ?cmd = (Inr v, s')" "live s' = Some c'"
    by (rule single_propose_Ok [of "example_host c" c ?cmd]) (simp_all only: example_host_simps entry_ops_batch, simp)
  with that single_readable [OF refdb.pebble_db_axioms] show thesis by (simp add: permiss_def)
qed

theorem permiss_authorize_witness:
  "\<exists>nh'. permiss (single_host ref_pebble) (example_host []) [example_permission] = (None, nh')
    \<and> fst (authorize (single_host ref_pebble) example_config 100 ''r'' nh' example_request)"
proof -
  obtain nh' where nh': "permiss (single_host ref_pebble) (example_host []) ([] @ example_permission # []) = (None, nh')"
    "readable (single_host ref_pebble) nh'"
    using example_permiss [of "[]" "[] @ example_permission # []"] by blast
  have "fst (authorize (single_host ref_pebble) example_config 100 ''r'' nh' example_request)"
  proof (rule permiss_authorize [OF refdb.single.raft_kv_axioms nh'])
    show "ts_Val (p_Context example_permission) \<in> set (contexts example_config example_request)"
      using example_holds(3) by (simp add: example_permission_def)
    show "grants example_config (wanted example_request) (Val (permission_kv example_permission))"
      by (simp add: grants_def wanted_def example_request_def example_permission_def permission_kv_def
          example_config_def bitwiseGreaterOrEqual_def zero_TypedString_def Let_def)
  qed (simp_all add: perm_utf8_def example_permission_def example_request_def zero_TypedString_def
      subjects_def utf8_ok_ascii is_ascii_def)
  with nh'(1) show ?thesis by auto
qed

section \<open>The inexact comparison and the cache key\<close>

text \<open>
  With \<open>PermissionCheckExact\<close> off, a stored right of two bytes or more is compared in its last
  byte only, and in the direction that grants requests for more than is stored: the check
  succeeds if and only if the requested right has the same length and its last byte is not smaller
  than the stored one.
\<close>

theorem inexact_check:
  assumes "raft_kv H sm" "readable H nh" "\<not> PermissionCheckExact cfg"
    and "sm nh (str_bytes (Key kv)) = Some b" "length b \<ge> 2"
  shows "checkPermission H cfg nh kv \<longleftrightarrow>
    (\<exists>w. Val kv = Some w \<and> length w = length b \<and> last b \<le> last w)"
proof -
  have ne: "b \<noteq> []" "length b \<noteq> 1" using assms(5) by auto
  have "checkPermission H cfg nh kv \<longleftrightarrow> bitwiseGreaterOrEqual (Val kv) (Some b)"
    using raft_kv.checkPermission_iff [OF assms(1,2)] assms(3,4) ne by (simp add: grants_def)
  also have "\<dots> \<longleftrightarrow> (\<exists>w. Val kv = Some w \<and> length w = length b \<and> last b \<le> last w)"
  proof (cases "Val kv")
    case (Some w)
    have "length w = length b \<Longrightarrow> gte_loop (length b) w b \<longleftrightarrow> last b \<le> last w"
      using gte_loop_last [of w b] ne(1) by (metis length_0_conv)
    with Some show ?thesis by (auto simp: bitwiseGreaterOrEqual_def)
  qed (simp add: bitwiseGreaterOrEqual_def)
  finally show ?thesis .
qed

theorem inexact_check_witness:
  "checkPermission (single_host ref_pebble) example_config (example_host example_perms)
     \<lparr>Key = ''p:e:staff:f:/org'', Val = Some [0, 255]\<rparr>"
proof -
  have "map_of example_perms (str_bytes ''p:e:staff:f:/org'') = Some [0, 4]" by (simp add: example_perms_def)
  then show ?thesis
    using inexact_check [OF refdb.single.raft_kv_axioms example_holds(4), of example_config
        "\<lparr>Key = ''p:e:staff:f:/org'', Val = Some [0, 255]\<rparr>" "[0, 4]"]
    by (simp add: example_config_def)
qed

text \<open>
  C24. The cache does not distinguish resource types: once a grant for a subject and a context of
  one type is cached and its permission stands, a request that differs in the type of its resource
  only is granted too, although nothing is stored for that type.
\<close>

theorem cached_grant_ignores_type:
  assumes "raft_kv H sm" "readable H nh" "CacheSeconds cfg > 0"
    and "sm nh (str_bytes (getCacheKey request))
      = Some (str_bytes (''e:'' @ e @ '':'' @ show_rune rune @ '':'' @ ctx))"
    and "CHR '':'' \<notin> set e" "CHR '':'' \<notin> set (show_rune rune)" "CHR '':'' \<notin> set ctx"
    and "e \<in> set (subjects request)"
    and "grants cfg (wanted request) (sm nh (str_bytes (perm_key e rune ctx (r_Action request))))"
  shows "fst (authorize H cfg now rnd nh (request\<lparr>r_Resource := (r_Resource request)\<lparr>ts_Rune := rune'\<rparr>\<rparr>))"
proof -
  let ?req = "request\<lparr>r_Resource := (r_Resource request)\<lparr>ts_Rune := rune'\<rparr>\<rparr>"
  let ?c = "''e:'' @ e @ '':'' @ show_rune rune @ '':'' @ ctx"
  have key: "getCacheKey ?req = getCacheKey request" by (simp add: getCacheKey_def Let_def)
  have hit: "hit H nh ?req = ?c"
    using assms(4) by (intro raft_kv.hit_eq [OF assms(1,2)]) (simp only: key)
  have parts: "split_on (CHR '':'') ?c = [''e'', e, show_rune rune, ctx]"
    using assms(5-7) split_on_append_sep [of "CHR '':''" "''e''"] by (simp add: split_on_append_sep split_on_no_sep)
  have "checkPermission H cfg nh \<lparr>Key = perm_key e rune ctx (r_Action request), Val = wanted request\<rparr>"
    using raft_kv.checkPermission_iff [OF assms(1,2)] assms(9) by simp
  then have "cached_grant H cfg nh ?req ?c"
    unfolding cached_grant_def parts using assms(8)
    by (auto simp: subjects_def perm_key_def action_suffix_def wanted_def)
  with hit assms(3) show ?thesis by (simp add: authorize_alt)
qed

text \<open>A grant of the example, cached; the request is for a resource of another type.\<close>

definition example_cached :: ref_db where
  "example_cached = (str_bytes (getCacheKey example_request), str_bytes ''e:staff:f:/org'') # example_perms"

theorem cached_grant_ignores_type_witness:
  "fst (authorize (single_host ref_pebble) example_config 100 ''r'' (example_host example_cached)
     (example_request\<lparr>r_Resource := \<lparr>ts_Val = ''/org/doc'', ts_Rune = 120\<rparr>\<rparr>))"
proof -
  have k: "getCacheKey example_request = ''c:ann:/org/doc:'' @ bytes_str [0, 4]"
    by (simp add: getCacheKey_def example_request_def zero_TypedString_def)
  have c: "map_of example_cached (str_bytes (getCacheKey example_request))
      = Some (str_bytes (''e:'' @ ''staff'' @ '':'' @ show_rune 102 @ '':'' @ ''/org''))"
    "map_of example_cached (str_bytes ''p:e:staff:f:/org'') = Some [0, 4]"
    by (simp_all add: example_cached_def k example_perms_def)
  have key: "perm_key ''staff'' 102 ''/org'' (r_Action example_request) = ''p:e:staff:f:/org''"
    by (simp add: perm_key_def action_suffix_def example_request_def zero_TypedString_def)
  have r: "readable (single_host ref_pebble) (example_host example_cached)"
    using refdb.pebble_db_axioms by (rule single_readable) simp
  have "fst (authorize (single_host ref_pebble) example_config 100 ''r'' (example_host example_cached)
      (example_request\<lparr>r_Resource := (r_Resource example_request)\<lparr>ts_Rune := 120\<rparr>\<rparr>))"
  proof (rule cached_grant_ignores_type [OF refdb.single.raft_kv_axioms r])
    show "host_map ref_pebble (example_host example_cached) (str_bytes (getCacheKey example_request))
        = Some (str_bytes (''e:'' @ ''staff'' @ '':'' @ show_rune 102 @ '':'' @ ''/org''))"
      using c(1) by (simp only: example_host_simps)
    show "grants example_config (wanted example_request)
        (host_map ref_pebble (example_host example_cached) (str_bytes (perm_key ''staff'' 102 ''/org'' (r_Action example_request))))"
      unfolding key example_host_simps c(2)
      by (simp add: grants_def example_config_def wanted_def example_request_def bitwiseGreaterOrEqual_def
          zero_TypedString_def)
  qed (simp_all add: example_config_def subjects_def example_request_def)
  then show ?thesis by (simp add: example_request_def)
qed

end
