(* ===== verification/Perm_Cache.thy ===== *)
theory Perm_Cache
  imports Permissions Disk_Lifecycle
begin

text \<open>
  Expiry and removal of cached grants (\<open>prune\<close> and \<open>revoke\<close> of \<open>permissions.go\<close>). The expiry
  records are stored under keys with the time in fifteen decimal digits, so that the key order is
  the time order and a range query finds the expired ones.
\<close>

section \<open>Operations\<close>

definition propose_delete ::
    "('nh, 'a) nodehost_scheme \<Rightarrow> 'nh \<Rightarrow> string \<Rightarrow> (error + uint64) \<times> 'nh" where
  "propose_delete H nh key = nh_SyncPropose H nh (json_Marshal (KVData_json \<lparr>Key = key, Val = None\<rparr>))"

fun prune_loop :: "('nh, 'a) nodehost_scheme \<Rightarrow> 'nh \<Rightarrow> gomap \<Rightarrow> unit outcome \<times> 'nh" where
  "prune_loop H nh [] = (Ok (), nh)"
| "prune_loop H nh ((i, b) # items) = (case propose_delete H nh i of
     (Inl e, nh1) \<Rightarrow> (Err e, nh1)
   | (Inr _, nh1) \<Rightarrow> (case propose_delete H nh1 (bytes_str (slice_bytes b)) of
       (Inl e, nh2) \<Rightarrow> (Err e, nh2)
     | (Inr _, nh2) \<Rightarrow> prune_loop H nh2 items))"

definition prune :: "('nh, 'a) nodehost_scheme \<Rightarrow> int \<Rightarrow> 'nh \<Rightarrow> unit outcome \<times> 'nh" where
  "prune H now nh =
     (let k = ''ttl:'' @ show_int_pad 15 now;
          kv = json_Marshal (KVAction_json
            \<lparr>ka_Action = act_REVERSE_SCAN, ka_Data = Some \<lparr>Key = k, Val = Some (str_bytes ''ttl:'')\<rparr>\<rparr>)
      in case nh_SyncRead H nh (QBytes kv) of
           Inl e \<Rightarrow> (Err e, nh)
         | Inr (RBytes _) \<Rightarrow> (Panic ''interface conversion'', nh)
         | Inr (RMap items) \<Rightarrow> prune_loop H nh items)"

fun revoke_loop :: "('nh, 'a) nodehost_scheme \<Rightarrow> 'nh \<Rightarrow> gomap \<Rightarrow> 'nh" where
  "revoke_loop H nh [] = nh"
| "revoke_loop H nh ((i, b) # items) = (case propose_delete H nh i of
     (Inl e, nh1) \<Rightarrow> revoke_loop H nh1 items
   | (Inr _, nh1) \<Rightarrow> revoke_loop H nh1 items)"

definition revoke :: "('nh, 'a) nodehost_scheme \<Rightarrow> 'nh \<Rightarrow> string \<Rightarrow> unit outcome \<times> 'nh" where
  "revoke H nh user =
     (let kv = json_Marshal (KVAction_json
            \<lparr>ka_Action = act_SCAN, ka_Data = Some \<lparr>Key = ''c:'' @ user, Val = None\<rparr>\<rparr>)
      in case nh_SyncRead H nh (QBytes kv) of
           Inl e \<Rightarrow> (Err e, nh)
         | Inr (RBytes _) \<Rightarrow> (Panic ''interface conversion'', nh)
         | Inr (RMap items) \<Rightarrow> (Ok (), revoke_loop H nh items))"

section \<open>The order of the expiry keys\<close>

lemma snoc_less:
  "length xs = length ys \<Longrightarrow> (xs @ [a] < ys @ [b]) \<longleftrightarrow> (xs < ys \<or> (xs = ys \<and> a < (b :: 'a :: linorder)))"
  by (induction xs ys rule: list_induct2) auto

lemma append_less_prefix:
  "length xs = length ys \<Longrightarrow> (xs @ zs < ys) \<longleftrightarrow> xs < (ys :: 'a :: linorder list)"
  by (induction xs ys rule: list_induct2) (auto simp: Nil_less_Cons)

lemma digit_less: "m < 10 \<Longrightarrow> n < 10 \<Longrightarrow> (of_char (digit_char m) :: byte) < of_char (digit_char n) \<longleftrightarrow> m < n"
proof -
  assume mn: "m < 10" "n < 10"
  have "(of_char (digit_char k) :: byte) = of_nat (48 + k)" if "k < 10" for k
  proof -
    have "(of_char (digit_char k) :: nat) = 48 + k" using that by (simp add: digit_char_def)
    then have "(of_nat (of_char (digit_char k)) :: byte) = of_nat (48 + k)" by (rule arg_cong)
    then show ?thesis by (simp only: of_nat_of_char)
  qed
  moreover have "unat (of_nat (48 + k) :: byte) = 48 + k" if "k < 10" for k
    using that by (simp only: unsigned_of_nat) (simp add: take_bit_nat_eq_self)
  ultimately show ?thesis using mn by (simp only: word_less_nat_alt nat_add_left_cancel_less)
qed

lemma fix_digits_less:
  "a < 10 ^ w \<Longrightarrow> b < 10 ^ w \<Longrightarrow>
   str_bytes (fix_digits w a) < str_bytes (fix_digits w b) \<longleftrightarrow> a < b"
proof (induction w arbitrary: a b)
  case (Suc w)
  have lt: "a div 10 < 10 ^ w" "b div 10 < 10 ^ w"
    using Suc.prems by (simp_all add: less_mult_imp_div_less mult.commute)
  have eq: "str_bytes (fix_digits w (a div 10)) = str_bytes (fix_digits w (b div 10)) \<longleftrightarrow> a div 10 = b div 10"
    using Suc.IH [OF lt] Suc.IH [OF lt(2,1)] by (metis less_irrefl nat_neq_iff)
  have "str_bytes (fix_digits (Suc w) a) < str_bytes (fix_digits (Suc w) b) \<longleftrightarrow>
      a div 10 < b div 10 \<or> (a div 10 = b div 10 \<and> a mod 10 < b mod 10)"
    using snoc_less [of "str_bytes (fix_digits w (a div 10))" "str_bytes (fix_digits w (b div 10))"]
      Suc.IH [OF lt] eq digit_less [of "a mod 10" "b mod 10"] by (simp add: str_bytes_def)
  also have "\<dots> \<longleftrightarrow> a < b"
  proof -
    define x y u v where "x = a div 10" "y = b div 10" "u = a mod 10" "v = b mod 10"
    then have "a = x * 10 + u" "b = y * 10 + v" "u < 10" "v < 10" by simp_all
    then show ?thesis unfolding \<open>x = a div 10\<close> [symmetric] \<open>y = b div 10\<close> [symmetric]
        \<open>u = a mod 10\<close> [symmetric] \<open>v = b mod 10\<close> [symmetric] by linarith
  qed
  finally show ?case .
qed simp

definition ttl_key :: "int \<Rightarrow> string \<Rightarrow> string" where
  "ttl_key t rnd = ''ttl:'' @ show_int_pad 15 t @ '':'' @ rnd"

lemma show_int_pad_digits: "0 \<le> t \<Longrightarrow> t < 10 ^ 15 \<Longrightarrow> show_int_pad 15 t = fix_digits 15 (nat t)"
proof -
  assume t: "0 \<le> t" "t < 10 ^ 15"
  then have "nat t < 10 ^ 15" by (simp add: nat_less_iff)
  with t show ?thesis by (simp add: show_int_pad_def zero_pad_show_nat)
qed

text \<open>An expiry record is in the range of \<open>prune\<close> if and only if its time is before now.\<close>

lemma ttl_key_in_bounds:
  assumes "0 \<le> t" "t < 10 ^ 15" "0 \<le> now" "now < 10 ^ 15"
  shows "in_bounds (Some (str_bytes ''ttl:'')) (Some (str_bytes (''ttl:'' @ show_int_pad 15 now)))
    (str_bytes (ttl_key t rnd)) \<longleftrightarrow> t < now"
proof -
  let ?d = "\<lambda>t. str_bytes (fix_digits 15 (nat t))"
  have lt: "nat t < 10 ^ 15" "nat now < 10 ^ 15" using assms by (simp_all add: nat_less_iff)
  have "prefix (str_bytes ''ttl:'') (str_bytes (ttl_key t rnd))"
    unfolding prefix_str_bytes ttl_key_def by (rule prefixI) (rule refl)
  then have lo: "str_bytes ''ttl:'' \<le> str_bytes (ttl_key t rnd)" by (rule prefix_le)
  have "str_bytes (ttl_key t rnd) < str_bytes (''ttl:'' @ show_int_pad 15 now) \<longleftrightarrow>
      ?d t @ str_bytes ('':'' @ rnd) < ?d now"
    using assms by (simp add: ttl_key_def show_int_pad_digits)
  also have "\<dots> \<longleftrightarrow> ?d t < ?d now" by (rule append_less_prefix) simp
  also have "\<dots> \<longleftrightarrow> nat t < nat now" using lt by (rule fix_digits_less)
  finally show ?thesis using lo assms by (auto simp: in_bounds_def)
qed

lemma is_ascii_show_int_pad: "is_ascii (show_int_pad w i)"
proof -
  have "byte_at c < 128" if "c \<in> set (show_nat n)" for c n
    using that show_nat_digits [of n] by (auto simp: list_all_iff is_digit_def)
  then show ?thesis by (auto simp: is_ascii_def show_int_pad_def zero_pad_def list_all_iff)
qed

lemma utf8_prune_key: "utf8_ok (''ttl:'' @ show_int_pad 15 now)"
proof -
  have "is_ascii (''ttl:'' @ show_int_pad 15 now)"
    using is_ascii_show_int_pad [of 15 now] by (simp add: is_ascii_def)
  then show ?thesis by (rule utf8_ok_ascii)
qed

section \<open>Deleting keys\<close>

lemma entry_ops_empty_key: "entry_ops (json_Marshal (KVData_json \<lparr>Key = [], Val = v\<rparr>)) = Ok None"
  by (simp add: entry_ops_def Unmarshal_Marshal dec_KVBatch_other dec_KVAction_json zero_KVBatch_def
      zero_KVData_def coerce_KVData_def)

text \<open>The store key a proposal to delete \<open>key\<close> removes: its UTF-8 form, nothing for the empty key.\<close>

definition removes :: "string \<Rightarrow> bytes \<Rightarrow> bool" where
  "removes key k \<longleftrightarrow> key \<noteq> [] \<and> k = str_bytes (utf8_coerce key)"

lemma cmd_effect_delete:
  "cmd_effect (json_Marshal (KVData_json \<lparr>Key = key, Val = None\<rparr>)) m k = (if removes key k then None else m k)"
proof (cases "key = []")
  case True
  then show ?thesis by (simp add: cmd_effect_def entry_ops_empty_key removes_def)
next
  case False
  then show ?thesis by (simp add: cmd_effect_data kv_effect_def removes_def)
qed

abbreviation index_key :: bytes where
  "index_key \<equiv> str_bytes appliedIndexKey"

lemma applied_delete:
  assumes "applied (json_Marshal (KVData_json \<lparr>Key = key, Val = None\<rparr>)) m m'" "k \<noteq> index_key"
  shows "m' k = (if removes key k then None else m k)"
  using assms by (auto simp: applied_def with_index_other cmd_effect_delete)

definition cached_key :: "slice \<Rightarrow> string" where
  "cached_key b = bytes_str (slice_bytes b)"

lemma propose_delete_accepted:
  "accepts H (Suc n) nh \<Longrightarrow> key \<noteq> [] \<Longrightarrow> \<exists>v nh'. propose_delete H nh key = (Inr v, nh') \<and> accepts H n nh'"
  using entry_ops_data [of "\<lparr>Key = key, Val = None\<rparr>"] by (simp add: propose_delete_def)

lemma prune_loop_completes:
  assumes "accepts H (2 * length items) nh" "\<forall>(i, b)\<in>set items. i \<noteq> [] \<and> cached_key b \<noteq> []"
  shows "\<exists>nh'. prune_loop H nh items = (Ok (), nh')"
  using assms
proof (induction items arbitrary: nh)
  case (Cons ib items)
  obtain i b where ib: "ib = (i, b)" by fastforce
  obtain v1 nh1 v2 nh2 where "propose_delete H nh i = (Inr v1, nh1)"
    "propose_delete H nh1 (cached_key b) = (Inr v2, nh2)" "accepts H (2 * length items) nh2"
  proof -
    have "accepts H (Suc (Suc (2 * length items))) nh" using Cons.prems(1) by (simp only: length_Cons mult_Suc_right add_2_eq_Suc)
    moreover have "i \<noteq> []" "cached_key b \<noteq> []" using Cons.prems(2) ib by auto
    ultimately show thesis using that propose_delete_accepted by metis
  qed
  with Cons.IH [of nh2] Cons.prems(2) show ?case by (simp add: ib cached_key_def)
qed simp

context raft_kv
begin

lemma propose_delete_done:
  "propose_delete H nh key = (Inr v, nh') \<Longrightarrow> k \<noteq> index_key \<Longrightarrow>
   sm nh' k = (if removes key k then None else sm nh k)"
  unfolding propose_delete_def using propose_done applied_delete by blast

lemma propose_delete_any:
  "propose_delete H nh key = (r, nh') \<Longrightarrow> k \<noteq> index_key \<Longrightarrow>
   sm nh' k = sm nh k \<or> (removes key k \<and> sm nh' k = None)"
  unfolding propose_delete_def using propose_cases applied_delete by metis

lemma prune_loop_effect:
  assumes "prune_loop H nh items = (Ok (), nh')" "k \<noteq> index_key"
  shows "sm nh' k = (if \<exists>(i, b)\<in>set items. removes i k \<or> removes (cached_key b) k then None else sm nh k)"
  using assms(1)
proof (induction items arbitrary: nh)
  case (Cons ib items)
  obtain i b where ib: "ib = (i, b)" by fastforce
  obtain v1 nh1 v2 nh2 where d: "propose_delete H nh i = (Inr v1, nh1)"
    "propose_delete H nh1 (cached_key b) = (Inr v2, nh2)" "prune_loop H nh2 items = (Ok (), nh')"
    using Cons.prems by (auto simp: ib cached_key_def split: prod.splits sum.splits)
  from Cons.IH [OF d(3)] propose_delete_done [OF d(1) assms(2)] propose_delete_done [OF d(2) assms(2)]
  show ?case by (auto simp: ib)
qed simp

lemma revoke_loop_effect:
  assumes "k \<noteq> index_key"
  shows "sm (revoke_loop H nh items) k = sm nh k
    \<or> ((\<exists>(i, b)\<in>set items. removes i k) \<and> sm (revoke_loop H nh items) k = None)"
proof (induction items arbitrary: nh)
  case (Cons ib items)
  obtain i b r nh1 where ib: "ib = (i, b)" "propose_delete H nh i = (r, nh1)" by (metis surj_pair)
  then have "revoke_loop H nh (ib # items) = revoke_loop H nh1 items" by (simp split: sum.split)
  with Cons.IH [of nh1] propose_delete_any [OF ib(2) assms] show ?case by (auto simp: ib(1))
qed simp

lemma revoke_loop_removes:
  assumes "accepts H (length items) nh" "\<forall>(i, b)\<in>set items. i \<noteq> []" "k \<noteq> index_key"
    "(i, b) \<in> set items" "removes i k"
  shows "sm (revoke_loop H nh items) k = None"
  using assms(1,2,4)
proof (induction items arbitrary: nh)
  case (Cons ib items)
  obtain j c where ib: "ib = (j, c)" by fastforce
  obtain v nh1 where p: "propose_delete H nh j = (Inr v, nh1)" "accepts H (length items) nh1"
    using propose_delete_accepted [of H "length items" nh j] Cons.prems(1,2) ib by auto
  show ?case
  proof (cases "(i, b) \<in> set items")
    case True
    with Cons.IH [OF p(2)] Cons.prems(2) p show ?thesis by (simp add: ib)
  next
    case False
    then have "sm nh1 k = None"
      using Cons.prems(3) ib propose_delete_done [OF p(1) assms(3)] assms(5) by auto
    with revoke_loop_effect [OF assms(3), of nh1 items] p show ?thesis by (auto simp: ib)
  qed
qed simp

lemma read_reverse:
  assumes "nh_SyncRead H nh (QBytes (json_Marshal (KVAction_json (action_of act_REVERSE_SCAN kv)))) = Inr v"
    and "utf8_ok (Key kv)"
  shows "\<exists>r. v = RMap r \<and> distinct (map fst r) \<and> map_of r = map_range (sm nh) (Val kv) (Key kv)"
  using read_answers [OF assms(1)] decode_action [of _ act_REVERSE_SCAN kv] assms(2)
  by (simp add: answers_def action_queries_def)

lemma read_scan:
  assumes "nh_SyncRead H nh (QBytes (json_Marshal (KVAction_json (action_of act_SCAN kv)))) = Inr v"
    and "utf8_ok (Key kv)"
  shows "\<exists>r. v = RMap r \<and> distinct (map fst r) \<and> map_of r = map_scan (sm nh) (Key kv)"
  using read_answers [OF assms(1)] decode_action [of _ act_SCAN kv] assms(2)
  by (simp add: answers_def action_queries_def)

text \<open>The record \<open>ttl\<close> writes, for times that do not overflow.\<close>

lemma ttl_written:
  assumes "ttl H cfg t0 rnd nh key = (None, nh')" "utf8_ok rnd"
    "0 \<le> t0 + CacheSeconds cfg" "t0 + CacheSeconds cfg < 10 ^ 15"
  shows "sm nh' (str_bytes (ttl_key (t0 + CacheSeconds cfg) rnd)) = Some (str_bytes key)"
proof -
  let ?t = "t0 + CacheSeconds cfg" and ?K = "ttl_key (t0 + CacheSeconds cfg) rnd"
  have "?t < 2 ^ 63" using assms(4) by (rule order.strict_trans) simp
  then have "int64 ?t = ?t" using assms(3) by (simp add: int64_def)
  then obtain v where "nh_SyncPropose H nh (json_Marshal (KVData_json \<lparr>Key = ?K, Val = Some (str_bytes key)\<rparr>)) = (Inr v, nh')"
    using assms(1) by (auto simp: ttl_def ttl_key_def Let_def split: prod.splits sum.splits)
  then have a: "applied (json_Marshal (KVData_json \<lparr>Key = ?K, Val = Some (str_bytes key)\<rparr>)) (sm nh) (sm nh')"
    by (rule propose_done)
  have "is_ascii (''ttl:'' @ show_int_pad 15 ?t @ '':'')"
    using is_ascii_show_int_pad [of 15 ?t] by (simp add: is_ascii_def)
  then have "utf8_ok ((''ttl:'' @ show_int_pad 15 ?t @ '':'') @ rnd)"
    using assms(2) utf8_ok_ascii by (simp only: utf8_ok_append)
  then have ok: "utf8_ok ?K" by (simp add: ttl_key_def)
  have ne: "?K \<noteq> []" "str_bytes ?K \<noteq> index_key" by (simp_all add: ttl_key_def appliedIndexKey_def)
  have "cmd_effect (json_Marshal (KVData_json \<lparr>Key = ?K, Val = Some (str_bytes key)\<rparr>)) m (str_bytes ?K)
      = Some (str_bytes key)" for m
    using ok ne(1) cmd_effect_data [of "\<lparr>Key = ?K, Val = Some (str_bytes key)\<rparr>" m]
    by (simp add: coerce_KVData_ok kv_effect_def)
  with a ne(2) show ?thesis by (auto simp: applied_def with_index_other)
qed

end

lemma map_items_iff:
  "distinct (map fst r) \<Longrightarrow> map_of r = f \<Longrightarrow> (i, b) \<in> set r \<longleftrightarrow> f i = Some b"
  by auto

text \<open>A node with the database open answers these queries.\<close>

lemma single_read_range:
  assumes "live s = Some c" "utf8_ok k"
  shows "\<exists>r. single_read ref_pebble s (QBytes (json_Marshal (KVAction_json (action_of act_REVERSE_SCAN \<lparr>Key = k, Val = lo\<rparr>))))
      = Inr (RMap r) \<and> distinct (map fst r) \<and> map_of r = map_range (host_map ref_pebble s) lo k"
  using assms refdb.ReverseScan_spec [OF assms(1), of k lo]
    decode_action [of "QBytes (json_Marshal (KVAction_json (action_of act_REVERSE_SCAN \<lparr>Key = k, Val = lo\<rparr>)))"
      act_REVERSE_SCAN "\<lparr>Key = k, Val = lo\<rparr>"]
  by (auto simp: single_read_def Lookup_def action_queries_def host_map_def store_def)

lemma single_read_scan:
  assumes "live s = Some c" "utf8_ok k"
  shows "\<exists>r. single_read ref_pebble s (QBytes (json_Marshal (KVAction_json (action_of act_SCAN \<lparr>Key = k, Val = None\<rparr>))))
      = Inr (RMap r) \<and> distinct (map fst r) \<and> map_of r = map_scan (host_map ref_pebble s) k"
  using assms refdb.Scan_spec [OF assms(1), of k]
    decode_action [of "QBytes (json_Marshal (KVAction_json (action_of act_SCAN \<lparr>Key = k, Val = None\<rparr>)))"
      act_SCAN "\<lparr>Key = k, Val = None\<rparr>"]
  by (auto simp: single_read_def Lookup_def action_queries_def host_map_def store_def)

section \<open>Properties\<close>

definition expired :: "int \<Rightarrow> (bytes \<rightharpoonup> bytes) \<Rightarrow> bytes \<Rightarrow> bool" where
  "expired now m k \<longleftrightarrow> m k \<noteq> None \<and>
     in_bounds (Some (str_bytes ''ttl:'')) (Some (str_bytes (''ttl:'' @ show_int_pad 15 now))) k"

lemma expired_items:
  assumes "distinct (map fst r)" "map_of r = map_range m (Some (str_bytes ''ttl:'')) (''ttl:'' @ show_int_pad 15 now)"
  shows "(i, b) \<in> set r \<longleftrightarrow> expired now m (str_bytes i) \<and> b = m (str_bytes i)"
  using map_items_iff [OF assms, of i b] by (auto simp: map_range_def expired_def)

text \<open>What pruning removes: the expired records and the cached grants they name.\<close>

definition prunes :: "int \<Rightarrow> (bytes \<rightharpoonup> bytes) \<Rightarrow> bytes \<Rightarrow> bool" where
  "prunes now m k \<longleftrightarrow> expired now m k \<or>
     (\<exists>t v. expired now m t \<and> m t = Some v \<and> removes (bytes_str v) k)"

text \<open>Expired keys are not empty and, in a store of UTF-8 keys, are removed as they are.\<close>

lemma expired_removes:
  assumes "utf8_store m" "expired now m (str_bytes i)"
  shows "removes i k \<longleftrightarrow> k = str_bytes i"
proof -
  have "i \<noteq> []" using assms(2) by (auto simp: expired_def in_bounds_def)
  moreover have "utf8_ok i" using assms by (force simp: utf8_store_def expired_def dom_def)
  ultimately show ?thesis by (auto simp: removes_def utf8_ok_def)
qed

lemma prune_items:
  assumes "raft_kv H sm" "utf8_store (sm nh)" "prune H now nh = (Ok (), nh')" "k \<noteq> index_key"
  shows "sm nh' k = (if prunes now (sm nh) k then None else sm nh k)"
proof -
  let ?kv = "\<lparr>Key = ''ttl:'' @ show_int_pad 15 now, Val = Some (str_bytes ''ttl:'')\<rparr>"
  let ?m = "sm nh"
  obtain v where v: "nh_SyncRead H nh (QBytes (json_Marshal (KVAction_json (action_of act_REVERSE_SCAN ?kv)))) = Inr v"
    using assms(3) by (auto simp: prune_def Let_def split: sum.splits)
  have "utf8_ok (Key ?kv)" by (simp only: KVData.select_convs utf8_prune_key)
  from raft_kv.read_reverse [OF assms(1) v this] obtain items where items: "v = RMap items"
    "distinct (map fst items)" "map_of items = map_range ?m (Some (str_bytes ''ttl:'')) (''ttl:'' @ show_int_pad 15 now)"
    by auto
  note mem = expired_items [OF items(2,3)]
  have "prune_loop H nh items = (Ok (), nh')"
    using assms(3) v items(1) by (simp add: prune_def)
  from raft_kv.prune_loop_effect [OF assms(1) this assms(4)]
  have "sm nh' k = (if \<exists>(i, b)\<in>set items. removes i k \<or> removes (cached_key b) k then None else ?m k)" .
  also have "(\<exists>(i, b)\<in>set items. removes i k \<or> removes (cached_key b) k) \<longleftrightarrow>
      (\<exists>i. expired now ?m (str_bytes i) \<and> (removes i k \<or> removes (cached_key (?m (str_bytes i))) k))"
    using mem by fastforce
  also have "\<dots> \<longleftrightarrow> prunes now ?m k"
  proof -
    have ex: "(\<exists>i. Q (str_bytes i)) \<longleftrightarrow> (\<exists>t. Q t)" for Q by (metis str_bytes_bytes_str)
    have "(\<exists>i. expired now ?m (str_bytes i) \<and> (removes i k \<or> removes (cached_key (?m (str_bytes i))) k)) \<longleftrightarrow>
        (\<exists>i. expired now ?m (str_bytes i) \<and> (k = str_bytes i \<or> removes (cached_key (?m (str_bytes i))) k))"
      using expired_removes [OF assms(2)] by blast
    also have "\<dots> \<longleftrightarrow> (\<exists>t. expired now ?m t \<and> (k = t \<or> removes (cached_key (?m t)) k))"
      using ex [of "\<lambda>t. expired now ?m t \<and> (k = t \<or> removes (cached_key (?m t)) k)"] .
    also have "\<dots> \<longleftrightarrow> prunes now ?m k"
      by (auto simp: prunes_def cached_key_def expired_def)
    finally show ?thesis .
  qed
  finally show ?thesis .
qed


text \<open>A grant whose expiry record is at time 100, and a key that is none of these.\<close>

definition example_expiry :: ref_db where
  "example_expiry = [(str_bytes (ttl_key 100 ''x''), str_bytes ''c:u''), (str_bytes ''c:u'', [1]), (str_bytes ''k'', [2])]"

lemma example_expiry_ok: "utf8_store (map_of example_expiry)"
proof -
  have "is_ascii (ttl_key 100 ''x'')"
    using is_ascii_show_int_pad [of 15 100] by (simp add: ttl_key_def is_ascii_def)
  then show ?thesis
    by (auto simp: utf8_store_def example_expiry_def utf8_ok_ascii is_ascii_def split: if_splits)
qed

lemma example_not_expired: "\<not> expired now m (str_bytes ''c:u'')" "\<not> expired now m (str_bytes ''k'')"
  by (simp_all add: expired_def in_bounds_def str_bytes_def)

lemma removes_example: "removes (bytes_str (str_bytes ''c:u'')) k \<longleftrightarrow> k = str_bytes ''c:u''"
  unfolding bytes_str_str_bytes by (simp add: removes_def)

lemma single_prune:
  assumes "live s = Some c" "unat (lastApplied (fst s)) + 2 < 2 ^ 64" "key \<noteq> []"
    "expired now (host_map ref_pebble s) (str_bytes K)" "host_map ref_pebble s (str_bytes K) = Some (str_bytes key)"
    "\<And>k. expired now (host_map ref_pebble s) k \<Longrightarrow> k = str_bytes K"
  shows "\<exists>s'. prune (single_host ref_pebble) now s = (Ok (), s')"
proof -
  let ?kv = "\<lparr>Key = ''ttl:'' @ show_int_pad 15 now, Val = Some (str_bytes ''ttl:'')\<rparr>" and ?m = "host_map ref_pebble s"
  obtain items where items: "single_read ref_pebble s (QBytes (json_Marshal (KVAction_json (action_of act_REVERSE_SCAN ?kv))))
      = Inr (RMap items)" "distinct (map fst items)" "map_of items = map_range ?m (Val ?kv) (Key ?kv)"
    using single_read_range [OF assms(1) utf8_prune_key [of now], of "Val ?kv"] by auto
  have "set items = {(K, Some (str_bytes key))}"
  proof -
    have "(i, b) \<in> set items \<longleftrightarrow> i = K \<and> b = Some (str_bytes key)" for i b
      using expired_items [OF items(2) items(3) [unfolded KVData.select_convs], of i b] assms(4,5) assms(6) [of "str_bytes i"]
      by auto
    then show ?thesis by auto
  qed
  moreover have "distinct items" using items(2) by (simp add: distinct_map)
  ultimately have "length items = 1" using distinct_card [of items] by simp
  moreover have "K \<noteq> []" using assms(4) by (auto simp: expired_def in_bounds_def)
  ultimately have "\<exists>s'. prune_loop (single_host ref_pebble) s items = (Ok (), s')"
    using assms(2,3) \<open>set items = _\<close> single_accepts [OF assms(1), of 2]
    by (intro prune_loop_completes) (simp_all add: cached_key_def)
  then show ?thesis using items(1) by (simp add: prune_def)
qed


text \<open>
  A cached grant lives for \<open>CacheSeconds\<close>: with times that fit fifteen digits, the expiry
  record written for a key makes \<open>prune\<close> remove that key once its time is before now, and leaves
  it alone until then unless another expired record names it.
\<close>

theorem ttl_prune:
  assumes "raft_kv H sm" "ttl H cfg t0 rnd nh key = (None, nh1)" "utf8_store (sm nh1)" "utf8_ok rnd"
    and "prune H now nh1 = (Ok (), nh2)" "0 \<le> t0 + CacheSeconds cfg" "t0 + CacheSeconds cfg < 10 ^ 15"
    and "0 \<le> now" "now < 10 ^ 15" "removes key k" "k \<noteq> str_bytes appliedIndexKey"
    and "\<forall>t v. expired now (sm nh1) t \<longrightarrow> t \<noteq> str_bytes (ttl_key (t0 + CacheSeconds cfg) rnd) \<longrightarrow>
      sm nh1 t = Some v \<longrightarrow> \<not> removes (bytes_str v) k"
    and "\<not> expired now (sm nh1) k"
  shows "sm nh2 k = (if t0 + CacheSeconds cfg < now then None else sm nh1 k)"
proof -
  let ?t = "t0 + CacheSeconds cfg" and ?K = "ttl_key (t0 + CacheSeconds cfg) rnd"
  have written: "sm nh1 (str_bytes ?K) = Some (str_bytes key)"
    using raft_kv.ttl_written [OF assms(1,2)] assms(4,6,7) by simp
  have "expired now (sm nh1) (str_bytes ?K) \<longleftrightarrow> ?t < now"
    using ttl_key_in_bounds [OF assms(6-9), of rnd] written by (simp add: expired_def)
  then have "prunes now (sm nh1) k \<longleftrightarrow> ?t < now"
    unfolding prunes_def using assms(10,12,13) written
    by (metis bytes_str_str_bytes option.inject)
  with prune_items [OF assms(1,3,5,11)] show ?thesis by simp
qed

text \<open>A grant that is written, given an expiry time of 160 and pruned at 200.\<close>

theorem ttl_prune_witness:
  "\<exists>nh1 nh2. ttl (single_host ref_pebble) example_config 100 ''x'' (example_host [(str_bytes ''c:u'', [1])]) ''c:u'' = (None, nh1)
    \<and> prune (single_host ref_pebble) 200 nh1 = (Ok (), nh2)
    \<and> host_map ref_pebble nh1 (str_bytes ''c:u'') = Some [1] \<and> host_map ref_pebble nh2 (str_bytes ''c:u'') = None"
proof -
  let ?H = "single_host ref_pebble" and ?nh = "example_host [(str_bytes ''c:u'', [1])]" and ?sm = "host_map ref_pebble"
  let ?K = "ttl_key 160 ''x''"
  let ?kv = "\<lparr>Key = ?K, Val = Some (str_bytes ''c:u'')\<rparr>"
  have ascii: "is_ascii ?K" using is_ascii_show_int_pad [of 15 160] by (simp add: ttl_key_def is_ascii_def)
  have ne: "Key ?kv \<noteq> []" by (simp add: ttl_key_def)
  have lt: "lastApplied (fst ?nh) < lastApplied (fst ?nh) + 1" by simp
  from single_propose_Ok [OF example_host_simps(1) entry_ops_data [OF ne] lt]
  obtain v nh1 c1 where p: "single_propose ref_pebble ?nh (json_Marshal (KVData_json ?kv)) = (Inr v, nh1)"
    "live nh1 = Some c1" "lastApplied (fst nh1) = lastApplied (fst ?nh) + 1" by metis
  have t: "ttl ?H example_config 100 ''x'' ?nh ''c:u'' = (None, nh1)"
    using p(1) by (simp add: ttl_def Let_def example_config_def int64_def ttl_key_def)
  obtain i where "?sm nh1 = with_index i (cmd_effect (json_Marshal (KVData_json ?kv)) (map_of [(str_bytes ''c:u'', [1])]))"
    using refdb.single.propose_done [of ?nh "json_Marshal (KVData_json ?kv)"] p(1) unfolding applied_def by auto
  also have "cmd_effect (json_Marshal (KVData_json ?kv)) m = m(str_bytes ?K \<mapsto> str_bytes ''c:u'')" for m
    using cmd_effect_data [OF ne, of m] utf8_ok_ascii [OF ascii] by (simp add: kv_effect_def coerce_KVData_ok)
  finally have m: "?sm nh1 = [str_bytes ''c:u'' \<mapsto> [1], str_bytes ?K \<mapsto> str_bytes ''c:u'', str_bytes appliedIndexKey \<mapsto> le64_put i]"
    by (simp only: with_index_def) (simp add: fun_eq_iff)
  have dom: "?sm nh1 k \<noteq> None \<Longrightarrow> k = str_bytes ''c:u'' \<or> k = str_bytes ?K \<or> k = str_bytes appliedIndexKey" for k
    unfolding m by (simp split: if_splits)
  have K: "?sm nh1 (str_bytes ?K) = Some (str_bytes ''c:u'')" "?sm nh1 (str_bytes ''c:u'') = Some [1]"
    "?sm nh1 (str_bytes appliedIndexKey) = Some (le64_put i)"
    unfolding m by (simp_all add: ttl_key_def appliedIndexKey_def)
  have "\<not> expired 200 (?sm nh1) (str_bytes appliedIndexKey)"
    by (simp add: expired_def in_bounds_def appliedIndexKey_def str_bytes_def)
  moreover have "expired 200 (?sm nh1) (str_bytes ?K)"
    using ttl_key_in_bounds [of 160 200 "''x''"] K(1) by (simp add: expired_def)
  moreover have "expired 200 (?sm nh1) k \<Longrightarrow> ?sm nh1 k \<noteq> None" for k by (simp add: expired_def)
  ultimately have ex: "expired 200 (?sm nh1) k \<longleftrightarrow> k = str_bytes ?K" for k
    using dom [of k] example_not_expired [of 200 "?sm nh1"] by blast
  have "\<exists>nh2. prune ?H 200 nh1 = (Ok (), nh2)"
    by (rule single_prune [OF p(2), of "''c:u''" _ ?K]) (simp_all only: p(3) example_host_simps ex K, simp_all)
  then obtain nh2 where nh2: "prune ?H 200 nh1 = (Ok (), nh2)" ..
  have "?sm nh2 (str_bytes ''c:u'') = (if 100 + CacheSeconds example_config < 200 then None else ?sm nh1 (str_bytes ''c:u''))"
  proof (rule ttl_prune [OF refdb.single.raft_kv_axioms t _ _ nh2])
    have "utf8_ok ''c:u''" "utf8_ok appliedIndexKey"
      by (simp_all add: utf8_ok_ascii is_ascii_def appliedIndexKey_def)
    with dom utf8_ok_ascii [OF ascii] show "utf8_store (?sm nh1)"
      unfolding utf8_store_def by (metis bytes_str_str_bytes domIff)
    show "\<not> expired 200 (?sm nh1) (str_bytes ''c:u'')" by (rule example_not_expired)
  qed (simp_all only: ex, simp_all add: example_config_def utf8_ok_ascii is_ascii_def removes_def appliedIndexKey_def)
  then have "?sm nh2 (str_bytes ''c:u'') = None" by (simp add: example_config_def)
  with t nh2 K(2) show ?thesis by blast
qed

section \<open>Revoking a user's cached grants\<close>

lemma revoke_scan:
  assumes "raft_kv H sm" "utf8_ok user" "revoke H nh user = (Ok (), nh')"
  shows "\<exists>items. nh' = revoke_loop H nh items \<and> distinct (map fst items)
    \<and> map_of items = map_scan (sm nh) (''c:'' @ user)"
proof -
  let ?kv = "\<lparr>Key = ''c:'' @ user, Val = None\<rparr>"
  obtain v where v: "nh_SyncRead H nh (QBytes (json_Marshal (KVAction_json (action_of act_SCAN ?kv)))) = Inr v"
    using assms(3) by (auto simp: revoke_def Let_def split: sum.splits)
  have "utf8_ok (Key ?kv)" using assms(2) utf8_ok_ascii_append [of "''c:''" user] by (simp add: is_ascii_def)
  from raft_kv.read_scan [OF assms(1) v this] v assms(3) show ?thesis
    by (auto simp: revoke_def)
qed

lemma cached_grants_of:
  assumes "utf8_store m" "distinct (map fst items)" "map_of items = map_scan m (''c:'' @ user)"
  shows "(\<exists>(i, b)\<in>set items. removes i k) \<longleftrightarrow> m k \<noteq> None \<and> prefix (str_bytes (''c:'' @ user)) k"
proof -
  have mem: "(i, b) \<in> set items \<longleftrightarrow> prefix (''c:'' @ user) i \<and> m (str_bytes i) \<noteq> None \<and> b = m (str_bytes i)" for i b
    using map_items_iff [OF assms(2,3), of i b] by (auto simp: map_scan_def)
  have rem: "removes i k \<longleftrightarrow> k = str_bytes i" if "prefix (''c:'' @ user) i" "m (str_bytes i) \<noteq> None" for i
    using that assms(1) by (force simp: removes_def utf8_store_def utf8_ok_def)
  have "(\<exists>(i, b)\<in>set items. removes i k) \<longleftrightarrow>
      (\<exists>i. prefix (''c:'' @ user) i \<and> m (str_bytes i) \<noteq> None \<and> removes i k)"
    using mem by blast
  also have "\<dots> \<longleftrightarrow> (\<exists>i. prefix (''c:'' @ user) i \<and> m (str_bytes i) \<noteq> None \<and> k = str_bytes i)"
    using rem by blast
  also have "\<dots> \<longleftrightarrow> m k \<noteq> None \<and> prefix (str_bytes (''c:'' @ user)) k"
    unfolding prefix_str_bytes [symmetric] by (metis str_bytes_bytes_str)
  finally show ?thesis .
qed

text \<open>
  C26. Revoking removes cached grants and nothing else. Keys that do not start with the cache
  prefix of the user are untouched; a key that does is removed or, when its deletion is not
  applied, left as it was; when the host applies the deletions none is left. The prefix is not
  delimited: the grants of every user whose name starts with the given one go with it.
\<close>

theorem revoke_user:
  assumes "raft_kv H sm" "utf8_store (sm nh)" "utf8_ok user" "revoke H nh user = (Ok (), nh')"
    "k \<noteq> str_bytes appliedIndexKey"
  shows "(\<not> prefix (str_bytes (''c:'' @ user)) k \<longrightarrow> sm nh' k = sm nh k)
    \<and> (sm nh' k = sm nh k \<or> sm nh' k = None)
    \<and> (accepts H (card (dom (map_scan (sm nh) (''c:'' @ user)))) nh
        \<longrightarrow> prefix (str_bytes (''c:'' @ user)) k \<longrightarrow> sm nh' k = None)"
proof -
  obtain items where items: "nh' = revoke_loop H nh items" "distinct (map fst items)"
    "map_of items = map_scan (sm nh) (''c:'' @ user)"
    using revoke_scan [OF assms(1,3,4)] by blast
  note rem = cached_grants_of [OF assms(2) items(2,3), of k]
  have either: "sm nh' k = sm nh k \<or> ((\<exists>(i, b)\<in>set items. removes i k) \<and> sm nh' k = None)"
    using raft_kv.revoke_loop_effect [OF assms(1,5)] items(1) by simp
  have "sm nh' k = None"
    if d: "accepts H (card (dom (map_scan (sm nh) (''c:'' @ user)))) nh" and "prefix (str_bytes (''c:'' @ user)) k"
  proof (cases "sm nh k = None")
    case False
    with that rem obtain i b where ib: "(i, b) \<in> set items" "removes i k" by auto
    have "card (dom (map_scan (sm nh) (''c:'' @ user))) = length items"
      unfolding items(3) [symmetric] dom_map_of_conv_image_fst using distinct_card [OF items(2)] by simp
    moreover have "\<forall>(i, b)\<in>set items. i \<noteq> []"
      using map_items_iff [OF items(2,3)] by (auto simp: map_scan_def split: if_splits)
    ultimately show ?thesis
      using raft_kv.revoke_loop_removes [OF assms(1) _ _ assms(5) ib] d items(1) by simp
  qed (use either in auto)
  moreover have "\<not> prefix (str_bytes (''c:'' @ user)) k \<longrightarrow> sm nh' k = sm nh k" using either unfolding rem by blast
  moreover have "sm nh' k = sm nh k \<or> sm nh' k = None" using either by auto
  ultimately show ?thesis by (intro conjI) (assumption, assumption, intro impI)
qed

theorem revoke_user_witness:
  "\<exists>nh'. revoke (single_host ref_pebble) (example_host [(str_bytes ''c:ann:x'', [1]), (str_bytes ''c:bob:x'', [2])]) ''ann'' = (Ok (), nh')
    \<and> host_map ref_pebble nh' (str_bytes ''c:ann:x'') = None \<and> host_map ref_pebble nh' (str_bytes ''c:bob:x'') = Some [2]"
proof -
  let ?H = "single_host ref_pebble" and ?sm = "host_map ref_pebble"
  let ?c = "[(str_bytes ''c:ann:x'', [1]), (str_bytes ''c:bob:x'', [2])] :: ref_db"
  let ?nh = "example_host ?c"
  have u: "utf8_ok ''ann''" "utf8_ok (''c:'' @ ''ann'')" by (simp_all add: utf8_ok_ascii is_ascii_def)
  from single_read_scan [OF example_host_simps(1) u(2), of ?c]
  have "\<exists>nh'. revoke ?H ?nh ''ann'' = (Ok (), nh')" by (auto simp: revoke_def Let_def)
  then obtain nh' where r: "revoke ?H ?nh ''ann'' = (Ok (), nh')" ..
  have "utf8_store (map_of ?c)"
    by (auto simp: utf8_store_def utf8_ok_ascii is_ascii_def split: if_splits)
  then have ok: "utf8_store (?sm ?nh)" by simp
  have "k = ''c:ann:x''" if "map_scan (?sm ?nh) (''c:'' @ ''ann'') k \<noteq> None" for k
  proof -
    have "prefix ''c:ann'' k" "str_bytes k = str_bytes ''c:ann:x'' \<or> str_bytes k = str_bytes ''c:bob:x''"
      using that by (auto simp: map_scan_def split: if_splits)
    then show ?thesis unfolding str_bytes_eq_iff by auto
  qed
  then have "card (dom (map_scan (?sm ?nh) (''c:'' @ ''ann''))) \<le> card {''c:ann:x''}"
    by (intro card_mono) auto
  then have d: "accepts ?H (card (dom (map_scan (?sm ?nh) (''c:'' @ ''ann'')))) ?nh"
    by (intro single_accepts [OF example_host_simps(1)]) simp
  have "?sm nh' (str_bytes ''c:ann:x'') = None"
    by (rule revoke_user [OF refdb.single.raft_kv_axioms ok u(1) r, THEN conjunct2, THEN conjunct2, rule_format, OF _ d])
      (simp_all add: appliedIndexKey_def)
  moreover have "?sm nh' (str_bytes ''c:bob:x'') = ?sm ?nh (str_bytes ''c:bob:x'')"
    using revoke_user [OF refdb.single.raft_kv_axioms ok u(1) r, of "str_bytes ''c:bob:x''"]
    by (simp add: appliedIndexKey_def)
  ultimately show ?thesis using r by simp
qed

end
