(* ===== verification/Kv_Execute.thy ===== *)
theory Kv_Execute
  imports Raft_KV
begin

text \<open>
  \<open>execute\<close> of \<open>kv.go\<close>, through which the API, the proxy and the swarm updater reach the replicated
  store, and the abstract store it implements.
\<close>

text \<open>What \<open>execute\<close> returns as an \<open>interface{}\<close>: the answer of a read or the result of a proposal.\<close>

datatype exec_value = VRead lookup_result | VResult uint64

definition execute ::
    "('nh, 'a) nodehost_scheme \<Rightarrow> 'nh \<Rightarrow> KVAction \<Rightarrow> (error + exec_value) \<times> 'nh" where
  "execute H nh action = (case ka_Data action of
     None \<Rightarrow> (Inl (Errorf (''Key missing '' @ ka_Action action)), nh)
   | Some d \<Rightarrow>
       if ka_Action action = act_SCAN then
         (case nh_SyncRead H nh (QAction (Some action)) of
            Inl e \<Rightarrow> (Inl e, nh) | Inr v \<Rightarrow> (Inr (VRead v), nh))
       else if ka_Action action = act_GET then
         (case nh_SyncRead H nh (QAction (Some action)) of
            Inl e \<Rightarrow> (Inl e, nh) | Inr v \<Rightarrow> (Inr (VRead v), nh))
       else if ka_Action action = act_PUT then
         (if Key d = [] then (Inl (Errorf (''Key missing '' @ ka_Action action)), nh)
          else case nh_SyncPropose H nh (json_Marshal (KVAction_json action)) of
            (Inl e, nh') \<Rightarrow> (Inl e, nh') | (Inr r, nh') \<Rightarrow> (Inr (VResult r), nh'))
       else (Inl (Errorf (''Method not implemented (execute) in kv '' @ ka_Action action)), nh))"

abbreviation get_action :: "string \<Rightarrow> KVAction" where
  "get_action k \<equiv> action_of act_GET \<lparr>Key = k, Val = None\<rparr>"

abbreviation scan_action :: "string \<Rightarrow> KVAction" where
  "scan_action k \<equiv> action_of act_SCAN \<lparr>Key = k, Val = None\<rparr>"

abbreviation put_action :: "string \<Rightarrow> slice \<Rightarrow> KVAction" where
  "put_action k v \<equiv> action_of act_PUT \<lparr>Key = k, Val = v\<rparr>"

section \<open>The abstract store\<close>

text \<open>A write replaces the value of one key; a nil value removes the key.\<close>

definition wrote :: "KVData \<Rightarrow> (bytes \<rightharpoonup> bytes) \<Rightarrow> (bytes \<rightharpoonup> bytes) \<Rightarrow> bool" where
  "wrote d m m' \<longleftrightarrow> (\<exists>i. m' = with_index i (m(str_bytes (utf8_coerce (Key d)) := Val d)))"

definition store_spec :: "KVAction \<Rightarrow> (bytes \<rightharpoonup> bytes) \<Rightarrow> exec_value \<Rightarrow> (bytes \<rightharpoonup> bytes) \<Rightarrow> bool" where
  "store_spec a m v m' \<longleftrightarrow> (case ka_Data a of None \<Rightarrow> False
     | Some d \<Rightarrow>
         (ka_Action a = act_GET \<and> v = VRead (RBytes (m (str_bytes (Key d)))) \<and> m' = m)
       \<or> (ka_Action a = act_SCAN \<and> m' = m \<and>
           (\<exists>r. v = VRead (RMap r) \<and> distinct (map fst r) \<and> map_of r = map_scan m (Key d)))
       \<or> (ka_Action a = act_PUT \<and> Key d \<noteq> [] \<and> wrote d m m' \<and> (\<exists>r. v = VResult r)))"

lemma applied_put:
  "Key d \<noteq> [] \<Longrightarrow> applied (json_Marshal (KVAction_json (action_of a d))) m m' \<longleftrightarrow> wrote d m m'"
  by (simp add: applied_def wrote_def cmd_effect_action kv_effect_def)

lemma wrote_same: "wrote d m m' \<Longrightarrow> utf8_ok (Key d) \<Longrightarrow> Key d \<noteq> appliedIndexKey \<Longrightarrow> m' (str_bytes (Key d)) = Val d"
  by (auto simp: wrote_def utf8_ok_def with_index_def)

lemma wrote_other:
  "wrote d m m' \<Longrightarrow> k \<noteq> str_bytes (utf8_coerce (Key d)) \<Longrightarrow> k \<noteq> str_bytes appliedIndexKey \<Longrightarrow> m' k = m k"
  by (auto simp: wrote_def with_index_def)

lemma wrote_other_ok:
  "wrote d m m' \<Longrightarrow> utf8_ok (Key d) \<Longrightarrow> k \<noteq> Key d \<Longrightarrow> k \<noteq> appliedIndexKey \<Longrightarrow> m' (str_bytes k) = m (str_bytes k)"
  by (rule wrote_other) (auto simp: utf8_ok_def)

lemma execute_put_accepted:
  assumes "accepts H (Suc n) nh" "k \<noteq> []"
  shows "\<exists>r nh'. execute H nh (put_action k v) = (Inr (VResult r), nh') \<and> accepts H n nh'"
proof -
  have "Key \<lparr>Key = k, Val = v\<rparr> \<noteq> []" using assms(2) by simp
  note ops = entry_ops_action [OF this, of act_PUT]
  obtain r nh' where "nh_SyncPropose H nh (json_Marshal (KVAction_json (put_action k v))) = (Inr r, nh')" "accepts H n nh'"
    using assms(1) ops unfolding accepts.simps by blast
  with assms(2) show ?thesis by (simp add: execute_def)
qed

context raft_kv
begin

lemma read_action:
  assumes "nh_SyncRead H nh (QAction (Some a)) = Inr v" "ka_Action a = act_SCAN \<or> ka_Action a = act_GET"
    "ka_Data a = Some d"
  shows "store_spec a (sm nh) (VRead v) (sm nh)"
  using read_answers [OF assms(1)] assms(2,3)
  by (auto simp: answers_def decode_query_def store_spec_def)

lemma execute_done:
  assumes "execute H nh a = (Inr v, nh')"
  shows "store_spec a (sm nh) v (sm nh')"
proof -
  obtain d where d: "ka_Data a = Some d" using assms by (auto simp: execute_def split: option.splits)
  then have a: "a = action_of (ka_Action a) d" by (cases a) simp
  consider "ka_Action a = act_SCAN" | "ka_Action a = act_GET" | "ka_Action a = act_PUT" "Key d \<noteq> []"
    using assms d by (auto simp: execute_def split: if_splits)
  then show ?thesis
  proof cases
    case 3
    then obtain r where r: "nh_SyncPropose H nh (json_Marshal (KVAction_json a)) = (Inr r, nh')" "v = VResult r"
      using assms d by (auto simp: execute_def split: prod.splits sum.splits)
    then have "wrote d (sm nh) (sm nh')"
      using propose_done [OF r(1)] applied_put [OF 3(2), of "ka_Action a"] a by metis
    with 3 d r(2) show ?thesis by (simp add: store_spec_def)
  qed (use assms d read_action [of nh a] in \<open>auto simp: execute_def split: sum.splits\<close>)
qed

lemma execute_failed:
  assumes "execute H nh a = (Inl e, nh')"
  shows "nh' = nh \<or> (\<exists>d. ka_Action a = act_PUT \<and> ka_Data a = Some d \<and> Key d \<noteq> [] \<and>
    (sm nh' = sm nh \<or> wrote d (sm nh) (sm nh')))"
proof (cases "ka_Action a = act_PUT \<and> (\<exists>d. ka_Data a = Some d \<and> Key d \<noteq> [])")
  case True
  then obtain d where d: "ka_Action a = act_PUT" "ka_Data a = Some d" "Key d \<noteq> []" by blast
  then have a: "a = action_of act_PUT d" by (cases a) simp
  obtain e' where "nh_SyncPropose H nh (json_Marshal (KVAction_json a)) = (Inl e', nh')"
    using assms d by (auto simp: execute_def split: prod.splits sum.splits)
  from propose_failed [OF this] have "sm nh' = sm nh \<or> wrote d (sm nh) (sm nh')"
    unfolding a applied_put [OF d(3)] .
  with d show ?thesis by blast
next
  case False
  then show ?thesis using assms by (auto simp: execute_def split: option.splits if_splits sum.splits)
qed

lemma execute_get:
  assumes "execute H nh (get_action k) = (Inr v, nh')"
  shows "v = VRead (RBytes (sm nh (str_bytes k))) \<and> nh' = nh"
proof
  show "v = VRead (RBytes (sm nh (str_bytes k)))" using execute_done [OF assms] by (simp add: store_spec_def)
qed (use assms in \<open>simp add: execute_def split: sum.splits\<close>)

lemma execute_scan:
  assumes "execute H nh (scan_action k) = (Inr v, nh')"
  shows "nh' = nh \<and> (\<exists>r. v = VRead (RMap r) \<and> distinct (map fst r) \<and> map_of r = map_scan (sm nh) k)"
proof
  show "nh' = nh" using assms by (simp add: execute_def split: sum.splits)
qed (use execute_done [OF assms] in \<open>simp add: store_spec_def\<close>)

lemma execute_put:
  assumes "execute H nh (put_action k v) = (Inr r, nh')"
  shows "k \<noteq> [] \<and> wrote \<lparr>Key = k, Val = v\<rparr> (sm nh) (sm nh')"
  using execute_done [OF assms] by (auto simp: store_spec_def)

text \<open>Whatever the outcome, only the key of a PUT can change.\<close>

lemma execute_frame:
  assumes "execute H nh a = (r, nh')" "k \<noteq> str_bytes appliedIndexKey"
    and "\<And>d. ka_Action a = act_PUT \<Longrightarrow> ka_Data a = Some d \<Longrightarrow> k \<noteq> str_bytes (utf8_coerce (Key d))"
  shows "sm nh' k = sm nh k"
proof (cases r)
  case (Inl e)
  with assms(1) consider "nh' = nh" | d where "ka_Action a = act_PUT" "ka_Data a = Some d" "sm nh' = sm nh \<or> wrote d (sm nh) (sm nh')"
    using execute_failed [of nh a e nh'] by blast
  then show ?thesis using assms(2,3) wrote_other by cases auto
next
  case (Inr v)
  then have "store_spec a (sm nh) v (sm nh')" using execute_done assms(1) by simp
  with assms(2,3) wrote_other show ?thesis by (auto simp: store_spec_def split: option.splits)
qed

end

section \<open>Properties\<close>

text \<open>
  C9. \<open>execute\<close> implements the abstract store. A GET answers the value of the key and a SCAN the
  pairs with the prefix, both without changing anything; a PUT that succeeds has replaced the value
  of its key, or removed it for a nil value, and touched nothing else. When an error is returned
  nothing has changed, except that a PUT may have been carried out in spite of the error (a
  timeout).
\<close>

theorem execute_refines:
  assumes "raft_kv H sm" "execute H nh a = (r, nh')"
  shows "case r of
      Inr v \<Rightarrow> store_spec a (sm nh) v (sm nh')
    | Inl e \<Rightarrow> sm nh' = sm nh \<or> (ka_Action a = act_PUT \<and> (\<exists>d. ka_Data a = Some d \<and> wrote d (sm nh) (sm nh')))"
  using raft_kv.execute_done [OF assms(1), of nh a _ nh'] raft_kv.execute_failed [OF assms(1), of nh a _ nh'] assms(2)
  by (fastforce split: sum.splits)

text \<open>A PUT of a key on the example host.\<close>

lemma single_execute_put:
  assumes "live s = Some c" "lastApplied (fst s) < lastApplied (fst s) + 1" "k \<noteq> []"
  shows "\<exists>r s' c'. execute (single_host ref_pebble) s (put_action k v) = (Inr (VResult r), s') \<and> live s' = Some c'
    \<and> lastApplied (fst s') = lastApplied (fst s) + 1"
proof -
  have "Key \<lparr>Key = k, Val = v\<rparr> \<noteq> []" using assms(3) by simp
  from single_propose_Ok [OF assms(1) entry_ops_action [OF this, of act_PUT] assms(2)]
  obtain r s' c' where "single_propose ref_pebble s (json_Marshal (KVAction_json (put_action k v))) = (Inr r, s')"
    "live s' = Some c'" "lastApplied (fst s') = lastApplied (fst s) + 1" by metis
  then show ?thesis using assms(3) by (simp add: execute_def)
qed

lemma single_execute_get:
  assumes "live s = Some c"
  shows "execute (single_host ref_pebble) s (get_action k)
    = (Inr (VRead (RBytes (host_map ref_pebble s (str_bytes k)))), s)"
  using assms refdb.Get_spec [OF assms, of k]
  by (simp add: execute_def single_read_def Lookup_def decode_query_def host_map_def store_def)

lemma single_read_scan_action:
  assumes "live s = Some c"
  shows "\<exists>r. single_read ref_pebble s (QAction (Some (scan_action k))) = Inr (RMap r)"
  using assms refdb.Scan_spec [OF assms, of k]
  by (auto simp: single_read_def Lookup_def decode_query_def)

theorem execute_refines_witness:
  "\<exists>r s'. execute (single_host ref_pebble) (example_host [(str_bytes ''b'', [2])]) (put_action ''a'' (Some [1])) = (Inr r, s')
    \<and> host_map ref_pebble s' (str_bytes ''a'') = Some [1] \<and> host_map ref_pebble s' (str_bytes ''b'') = Some [2]"
proof -
  let ?s = "example_host [(str_bytes ''b'', [2])]" and ?d = "\<lparr>Key = ''a'', Val = Some [1 :: byte]\<rparr>"
  obtain r s' where e: "execute (single_host ref_pebble) ?s (put_action ''a'' (Some [1])) = (Inr (VResult r), s')"
    using single_execute_put [OF example_host_simps(1), of "[(str_bytes ''b'', [2])]" "''a''" "Some [1]"] by auto
  have "wrote ?d (host_map ref_pebble ?s) (host_map ref_pebble s')"
    using execute_refines [OF refdb.single.raft_kv_axioms e] by (simp add: store_spec_def)
  from wrote_same [OF this] wrote_other [OF this, of "str_bytes ''b''"] e show ?thesis
    by (simp add: utf8_ok_ascii is_ascii_def appliedIndexKey_def)
qed

end
