(* ===== verification/Go_Net.thy ===== *)
theory Go_Net
  imports Roo_Types
begin

text \<open>
  The functions of Go's \<open>strings\<close>, \<open>net\<close> and \<open>net/url\<close> packages that the program calls on
  addresses: \<open>strings.TrimSpace\<close>, \<open>net.SplitHostPort\<close>, \<open>net.ParseIP\<close> with \<open>IP.To4\<close> and
  \<open>IP.String\<close>, and \<open>url.Parse\<close> as far as the scheme, the host and the error are concerned (Go 1.20, the
  release \<open>go.mod\<close> names).
\<close>

section \<open>strings.TrimSpace\<close>

text \<open>The UTF-8 sequences of the white space characters of Unicode.\<close>

definition space_seqs :: "string list" where
  "space_seqs = '' '' # map (\<lambda>b. [char_of (b :: nat)]) [9, 10, 11, 12, 13]
     @ map (map (char_of :: nat \<Rightarrow> char)) ([[194, 133], [194, 160], [225, 154, 128]]
         @ map (\<lambda>b. [226, 128, b]) [128..<139] @ [[226, 128, 168], [226, 128, 169], [226, 128, 175], [226, 129, 159], [227, 128, 128]])"

function trim_front :: "string list \<Rightarrow> string \<Rightarrow> string" where
  "trim_front qs s = (case find (\<lambda>q. q \<noteq> [] \<and> prefix q s) qs of
     None \<Rightarrow> s | Some q \<Rightarrow> trim_front qs (drop (length q) s))"
  by pat_completeness auto
termination
  by (relation "measure (length \<circ> snd)") (auto simp: find_Some_iff prefix_def)

declare trim_front.simps [simp del]

definition trim_space :: "string \<Rightarrow> string" where
  "trim_space s = rev (trim_front (map rev space_seqs) (rev (trim_front space_seqs s)))"

definition plain_edge :: "char \<Rightarrow> bool" where
  "plain_edge c \<longleftrightarrow> 32 < byte_at c \<and> byte_at c < 128"

lemma trim_front_none: "find (\<lambda>q. q \<noteq> [] \<and> prefix q s) qs = None \<Longrightarrow> trim_front qs s = s"
  by (subst trim_front.simps) simp

lemma trim_front_id: "\<forall>q\<in>set qs. hd q \<noteq> c \<Longrightarrow> trim_front qs (c # cs) = c # cs"
  by (rule trim_front_none) (auto simp: find_None_iff prefix_Cons)

lemma space_seqs_edges: "q \<in> set space_seqs \<Longrightarrow> \<not> plain_edge (hd q) \<and> \<not> plain_edge (last q) \<and> q \<noteq> []"
  by (auto simp: space_seqs_def plain_edge_def upt_rec)

lemma trim_space_id:
  assumes "s \<noteq> []" "plain_edge (hd s)" "plain_edge (last s)"
  shows "trim_space s = s"
proof -
  obtain c cs where c: "s = c # cs" "plain_edge c" using assms by (cases s) auto
  obtain ds d where d: "s = ds @ [d]" using assms(1) by (cases s rule: rev_cases) auto
  then have "rev s = d # rev ds" "plain_edge d" using assms(3) by auto
  have "trim_front space_seqs s = s" unfolding c(1) using space_seqs_edges c(2) by (intro trim_front_id) auto
  moreover have "trim_front (map rev space_seqs) (rev s) = rev s"
    unfolding \<open>rev s = _\<close> using space_seqs_edges \<open>plain_edge d\<close> by (intro trim_front_id) (auto simp: hd_rev)
  ultimately show ?thesis by (simp add: trim_space_def)
qed

lemma trim_space_blank [simp]: "trim_space [] = []"
proof -
  have "trim_front qs [] = []" for qs by (rule trim_front_none) (auto simp: find_None_iff)
  then show ?thesis by (simp add: trim_space_def)
qed

lemma trim_space_Cons: "trim_space (CHR '' '' # s) = trim_space s"
proof -
  have "find (\<lambda>q. q \<noteq> [] \<and> prefix q (CHR '' '' # s)) space_seqs = Some '' ''" by (simp add: space_seqs_def)
  then have "trim_front space_seqs (CHR '' '' # s) = trim_front space_seqs s" by (subst trim_front.simps) simp
  then show ?thesis by (simp add: trim_space_def)
qed

section \<open>Positions in strings\<close>

definition index_of_char :: "char \<Rightarrow> string \<Rightarrow> nat option" where
  "index_of_char c s = (if c \<in> set s then Some (length (takeWhile (\<lambda>x. x \<noteq> c) s)) else None)"

text \<open>\<open>strings.LastIndexByte\<close>.\<close>

definition last_index :: "char \<Rightarrow> string \<Rightarrow> nat option" where
  "last_index c s = (if c \<in> set s then Some (length s - 1 - length (takeWhile (\<lambda>x. x \<noteq> c) (rev s))) else None)"

text \<open>\<open>strings.Cut\<close> at a one-byte separator: what stands before and after its first occurrence.\<close>

definition cut_at :: "char \<Rightarrow> string \<Rightarrow> string \<times> string" where
  "cut_at c s = (takeWhile (\<lambda>x. x \<noteq> c) s, drop 1 (dropWhile (\<lambda>x. x \<noteq> c) s))"

section \<open>net.SplitHostPort\<close>

definition SplitHostPort :: "string \<Rightarrow> (string \<times> string) option" where
  "SplitHostPort hp = (case last_index (CHR '':'') hp of None \<Rightarrow> None
     | Some i \<Rightarrow>
         let port = drop (i + 1) hp in
         if hd hp = CHR ''['' then
           (case index_of_char (CHR '']'') hp of None \<Rightarrow> None
            | Some e \<Rightarrow>
                if e + 1 \<noteq> i \<or> CHR ''['' \<in> set (drop 1 hp) \<or> CHR '']'' \<in> set (drop (e + 1) hp) then None
                else Some (take (e - 1) (drop 1 hp), port))
         else
           let host = take i hp in
           if CHR '':'' \<in> set host \<or> CHR ''['' \<in> set hp \<or> CHR '']'' \<in> set hp then None
           else Some (host, port))"

section \<open>IP addresses\<close>

text \<open>An IPv4 address as its four octets, an IPv6 address as its eight groups.\<close>

datatype ip = IPv4 "nat list" | IPv6 "nat list"

definition octet_ok :: "string \<Rightarrow> bool" where
  "octet_ok p \<longleftrightarrow> p \<noteq> [] \<and> list_all is_digit p \<and> (length p = 1 \<or> hd p \<noteq> CHR ''0'') \<and> digits_val p \<le> 255"

definition parse_ipv4 :: "string \<Rightarrow> nat list option" where
  "parse_ipv4 s = (let ps = split_on (CHR ''.'') s in
     if length ps = 4 \<and> list_all octet_ok ps then Some (map digits_val ps) else None)"

definition is_hex :: "char \<Rightarrow> bool" where
  "is_hex c \<longleftrightarrow> (let b = byte_at c in (48 \<le> b \<and> b \<le> 57) \<or> (97 \<le> b \<and> b \<le> 102) \<or> (65 \<le> b \<and> b \<le> 70))"

definition unhex :: "char \<Rightarrow> nat" where
  "unhex c = (let b = byte_at c in if b \<le> 57 then b - 48 else if b \<le> 70 then b - 55 else b - 87)"

definition hex_digits_val :: "string \<Rightarrow> nat" where
  "hex_digits_val s = foldl (\<lambda>n c. 16 * n + unhex c) 0 s"

text \<open>
  The loop of the IPv6 parser: at most \<open>n\<close> further groups after \<open>gs\<close>, with the position of the
  ellipsis found so far.
\<close>

fun ipv6_loop :: "nat \<Rightarrow> nat list \<Rightarrow> nat option \<Rightarrow> string \<Rightarrow> (nat list \<times> nat option \<times> string) option" where
  "ipv6_loop 0 gs ell s = Some (gs, ell, s)"
| "ipv6_loop (Suc n) gs ell s =
     (let h = takeWhile is_hex s; r = dropWhile is_hex s; gs' = gs @ [hex_digits_val h] in
      if h = [] \<or> hex_digits_val h > 65535 then None
      else case r of [] \<Rightarrow> Some (gs', ell, [])
        | c # r1 \<Rightarrow>
            if c = CHR ''.'' then
              (if (ell = None \<and> length gs \<noteq> 6) \<or> length gs > 6 then None
               else case parse_ipv4 s of None \<Rightarrow> None
                 | Some os \<Rightarrow> Some (gs @ [256 * os ! 0 + os ! 1, 256 * os ! 2 + os ! 3], ell, []))
            else if c \<noteq> CHR '':'' \<or> r1 = [] then None
            else if hd r1 = CHR '':'' then
              (if ell \<noteq> None then None
               else if tl r1 = [] then Some (gs', Some (length gs'), [])
               else ipv6_loop n gs' (Some (length gs')) (tl r1))
            else ipv6_loop n gs' ell r1)"

definition parse_ipv6 :: "string \<Rightarrow> nat list option" where
  "parse_ipv6 s =
     (let lead = prefix ''::'' s; s' = (if lead then drop 2 s else s) in
      if lead \<and> s' = [] then Some (replicate 8 0)
      else case ipv6_loop 8 [] (if lead then Some 0 else None) s' of None \<Rightarrow> None
        | Some (gs, ell, r) \<Rightarrow>
            if r \<noteq> [] then None
            else if length gs < 8 then
              (case ell of None \<Rightarrow> None
               | Some e \<Rightarrow> Some (take e gs @ replicate (8 - length gs) 0 @ drop e gs))
            else if ell \<noteq> None then None else Some gs)"

definition ParseIP :: "string \<Rightarrow> ip option" where
  "ParseIP s = (if CHR ''%'' \<in> set s then None
     else case find (\<lambda>c. c = CHR ''.'' \<or> c = CHR '':'') s of None \<Rightarrow> None
       | Some c \<Rightarrow> if c = CHR ''.'' then map_option IPv4 (parse_ipv4 s) else map_option IPv6 (parse_ipv6 s))"

definition To4 :: "ip \<Rightarrow> nat list option" where
  "To4 a = (case a of IPv4 os \<Rightarrow> Some os
     | IPv6 gs \<Rightarrow> if take 6 gs = [0, 0, 0, 0, 0, 65535]
         then Some [gs ! 6 div 256, gs ! 6 mod 256, gs ! 7 div 256, gs ! 7 mod 256] else None)"

definition hex_digit :: "nat \<Rightarrow> char" where
  "hex_digit n = (if n < 10 then char_of (48 + n) else char_of (87 + n))"

fun show_hex :: "nat \<Rightarrow> string" where
  "show_hex n = (if n < 16 then [hex_digit n] else show_hex (n div 16) @ [hex_digit (n mod 16)])"

declare show_hex.simps [simp del]

text \<open>The first longest run of at least two zero groups: its position and its length.\<close>

definition zero_run :: "nat list \<Rightarrow> nat \<times> nat" where
  "zero_run gs = foldl (\<lambda>(bi, bl) i. let l = length (takeWhile ((=) 0) (drop i gs)) in
     if l \<ge> 2 \<and> l > bl then (i, l) else (bi, bl)) (0, 0) [0..<length gs]"

definition ip_String :: "ip \<Rightarrow> string" where
  "ip_String a = (case To4 a of
     Some os \<Rightarrow> join_with (CHR ''.'') (map show_nat os)
   | None \<Rightarrow> (case a of IPv4 os \<Rightarrow> [] | IPv6 gs \<Rightarrow>
       let (i, l) = zero_run gs in
       if l = 0 then join_with (CHR '':'') (map show_hex gs)
       else join_with (CHR '':'') (map show_hex (take i gs)) @ ''::''
         @ join_with (CHR '':'') (map show_hex (drop (i + l) gs))))"

section \<open>url.Parse\<close>

definition is_alpha :: "char \<Rightarrow> bool" where
  "is_alpha c \<longleftrightarrow> (let b = byte_at c in (97 \<le> b \<and> b \<le> 122) \<or> (65 \<le> b \<and> b \<le> 90))"

definition to_lower :: "char \<Rightarrow> char" where
  "to_lower c = (if 65 \<le> byte_at c \<and> byte_at c \<le> 90 then char_of (byte_at c + 32) else c)"

text \<open>Bytes that \<open>unescape\<close> accepts as they are in a host.\<close>

definition host_char :: "char \<Rightarrow> bool" where
  "host_char c \<longleftrightarrow> byte_at c \<ge> 128 \<or> is_alpha c \<or> is_digit c \<or> c \<in> set ''!$&'()*+,;=:[]<>-_.~'' \<or> c = CHR 0x22"

text \<open>
  \<open>unescape\<close>: \<open>plain\<close> says which bytes may stand for themselves and \<open>esc\<close> which may be written as an
  escape.
\<close>

fun unescape :: "(char \<Rightarrow> bool) \<Rightarrow> (nat \<Rightarrow> bool) \<Rightarrow> string \<Rightarrow> string option" where
  "unescape plain esc [] = Some []"
| "unescape plain esc (c # cs) =
     (if c = CHR ''%'' then
        (case cs of a # b # r \<Rightarrow>
           if is_hex a \<and> is_hex b \<and> esc (16 * unhex a + unhex b)
           then map_option ((#) (char_of (16 * unhex a + unhex b))) (unescape plain esc r) else None
         | _ \<Rightarrow> None)
      else if plain c then map_option ((#) c) (unescape plain esc cs) else None)"

abbreviation unescape_any :: "string \<Rightarrow> string option" where
  "unescape_any \<equiv> unescape (\<lambda>_. True) (\<lambda>_. True)"

abbreviation unescape_host :: "string \<Rightarrow> string option" where
  "unescape_host \<equiv> unescape host_char (\<lambda>v. v \<ge> 128 \<or> v = 37)"

abbreviation unescape_zone :: "string \<Rightarrow> string option" where
  "unescape_zone \<equiv> unescape host_char (\<lambda>v. v = 32 \<or> (v < 128 \<and> (v = 37 \<or> host_char (char_of v))))"

definition valid_port :: "string \<Rightarrow> bool" where
  "valid_port p \<longleftrightarrow> p = [] \<or> (hd p = CHR '':'' \<and> list_all is_digit (tl p))"

text \<open>The position of the first \<open>%25\<close>.\<close>

fun zone_index :: "string \<Rightarrow> nat option" where
  "zone_index [] = None"
| "zone_index (c # cs) = (if prefix ''%25'' (c # cs) then Some 0 else map_option Suc (zone_index cs))"

definition parse_host :: "string \<Rightarrow> string option" where
  "parse_host h =
     (if prefix ''['' h then
        (case last_index (CHR '']'') h of None \<Rightarrow> None
         | Some i \<Rightarrow>
             if \<not> valid_port (drop (i + 1) h) then None
             else case zone_index (take i h) of
               Some z \<Rightarrow>
                 (case (unescape_host (take z h), unescape_zone (drop z (take i h)), unescape_host (drop i h)) of
                    (Some h1, Some h2, Some h3) \<Rightarrow> Some (h1 @ h2 @ h3) | _ \<Rightarrow> None)
             | None \<Rightarrow> unescape_host h)
      else case last_index (CHR '':'') h of
        Some i \<Rightarrow> if valid_port (drop i h) then unescape_host h else None
      | None \<Rightarrow> unescape_host h)"

definition userinfo_ok :: "string \<Rightarrow> bool" where
  "userinfo_ok u \<longleftrightarrow> list_all (\<lambda>c. is_alpha c \<or> is_digit c \<or> c \<in> set ''-._:~!$&'()*+,;=%@'') u
     \<and> unescape_any (fst (cut_at (CHR '':'') u)) \<noteq> None \<and> unescape_any (snd (cut_at (CHR '':'') u)) \<noteq> None"

definition parse_authority :: "string \<Rightarrow> string option" where
  "parse_authority a = (case last_index (CHR ''@'') a of None \<Rightarrow> parse_host a
     | Some i \<Rightarrow> (case parse_host (drop (i + 1) a) of None \<Rightarrow> None
         | Some h \<Rightarrow> if userinfo_ok (take i a) then Some h else None))"

text \<open>\<open>getScheme\<close>: the scheme and the rest, nothing when the URL starts with a colon.\<close>

definition get_scheme :: "string \<Rightarrow> (string \<times> string) option" where
  "get_scheme s = (let p = takeWhile (\<lambda>c. is_alpha c \<or> is_digit c \<or> c \<in> set ''+-.'') s; r = drop (length p) s in
     if prefix '':'' s then None
     else if prefix '':'' r \<and> is_alpha (hd s) then Some (map to_lower p, tl r)
     else Some ([], s))"

text \<open>The scheme and the host of a URL, \<open>None\<close> when it does not parse.\<close>

definition url_Parse :: "string \<Rightarrow> (string \<times> string) option" where
  "url_Parse raw =
     (let (u, frag) = cut_at (CHR ''#'') raw in
      if unescape_any frag = None \<or> list_ex (\<lambda>c. byte_at c < 32 \<or> byte_at c = 127) u then None
      else if u = ''*'' then Some ([], [])
      else case get_scheme u of None \<Rightarrow> None
        | Some (scheme, rest0) \<Rightarrow>
            let rest = fst (cut_at (CHR ''?'') rest0) in
            if \<not> prefix ''/'' rest \<and> scheme \<noteq> [] then Some (scheme, [])
            else if \<not> prefix ''/'' rest \<and> CHR '':'' \<in> set (fst (cut_at (CHR ''/'') rest)) then None
            else if (scheme \<noteq> [] \<or> \<not> prefix ''///'' rest) \<and> prefix ''//'' rest then
              (let a = drop 2 rest; auth = takeWhile (\<lambda>c. c \<noteq> CHR ''/'') a; path = drop (length auth) a in
               case parse_authority auth of None \<Rightarrow> None
               | Some host \<Rightarrow> if unescape_any path = None then None else Some (scheme, host))
            else if unescape_any rest = None then None else Some (scheme, []))"

end
