(* ===== verification/Go_Http.thy ===== *)
theory Go_Http
  imports Roo_Types Go_Net
begin

text \<open>
  The parts of \<open>net/http\<close> the handlers use. A response writer keeps the header map the handler
  edits, the status and the header that were fixed by the first \<open>WriteHeader\<close> or \<open>Write\<close>, and the
  body: what is set in the header map after that moment is not sent.
\<close>

type_synonym header = "string \<Rightarrow> string list"

text \<open>\<open>textproto.CanonicalMIMEHeaderKey\<close>.\<close>

fun canonical_from :: "bool \<Rightarrow> string \<Rightarrow> string" where
  "canonical_from up [] = []"
| "canonical_from up (c # cs) = (if up then to_upper c else to_lower c) # canonical_from (c = CHR ''-'') cs"

definition canonical_key :: "string \<Rightarrow> string" where
  "canonical_key k = canonical_from True k"

definition header_get :: "header \<Rightarrow> string \<Rightarrow> string" where
  "header_get h k = (case h (canonical_key k) of [] \<Rightarrow> [] | v # _ \<Rightarrow> v)"

definition header_set :: "string \<Rightarrow> string \<Rightarrow> header \<Rightarrow> header" where
  "header_set k v h = h(canonical_key k := [v])"

definition header_add :: "string \<Rightarrow> string \<Rightarrow> header \<Rightarrow> header" where
  "header_add k v h = h(canonical_key k := h (canonical_key k) @ [v])"

record response =
  w_header :: header
  w_sent :: "(nat \<times> header) option"
  w_body :: bytes

definition new_response :: response where
  "new_response = \<lparr>w_header = (\<lambda>_. []), w_sent = None, w_body = []\<rparr>"

definition SetHeader :: "string \<Rightarrow> string \<Rightarrow> response \<Rightarrow> response" where
  "SetHeader k v w = w\<lparr>w_header := header_set k v (w_header w)\<rparr>"

definition WriteHeader :: "nat \<Rightarrow> response \<Rightarrow> response" where
  "WriteHeader code w = (if w_sent w = None then w\<lparr>w_sent := Some (code, w_header w)\<rparr> else w)"

definition Write :: "bytes \<Rightarrow> response \<Rightarrow> response" where
  "Write data w = (let w' = WriteHeader 200 w in w'\<lparr>w_body := w_body w' @ data\<rparr>)"

definition http_Error :: "string \<Rightarrow> nat \<Rightarrow> response \<Rightarrow> response" where
  "http_Error msg code w =
     Write (str_bytes (msg @ [CHR 0x0A])) (WriteHeader code
       (SetHeader ''X-Content-Type-Options'' ''nosniff''
         (SetHeader ''Content-Type'' ''text/plain; charset=utf-8'' w)))"

definition status :: "response \<Rightarrow> nat option" where
  "status w = map_option fst (w_sent w)"

text \<open>A request; \<open>rq_Body\<close> is what reading the body to its end gives.\<close>

record http_request =
  rq_Method :: string
  rq_Host :: string
  rq_RemoteAddr :: string
  rq_TLS :: bool
  rq_Header :: header
  rq_Body :: "error + bytes"

text \<open>
  The outcome of a client call, nothing for an error or the status of the response, and the test for
  success the program applies to it.
\<close>

definition ok_status :: "nat option \<Rightarrow> bool" where
  "ok_status r \<longleftrightarrow> (case r of None \<Rightarrow> False | Some st \<Rightarrow> 200 \<le> st \<and> st \<le> 299)"

lemma ok_status_None [simp]: "\<not> ok_status None"
  by (simp add: ok_status_def)

text \<open>The text of an error.\<close>

fun err_text :: "error \<Rightarrow> string" where
  "err_text (Errorf s) = s"
| "err_text ErrNotFound = ''pebble: not found''"
| "err_text ErrCacheMiss = ''acme/autocert: certificate cache miss''"

lemma status_WriteHeader: "status (WriteHeader c w) = (case status w of None \<Rightarrow> Some c | Some s \<Rightarrow> Some s)"
  by (auto simp: status_def WriteHeader_def)

lemma status_Write: "status (Write d w) = (case status w of None \<Rightarrow> Some 200 | Some s \<Rightarrow> Some s)"
  by (auto simp: status_def WriteHeader_def Write_def Let_def)

lemma status_SetHeader [simp]: "status (SetHeader k v w) = status w"
  by (simp add: status_def SetHeader_def)

lemma w_body_simps [simp]:
  "w_body (WriteHeader c w) = w_body w" "w_body (SetHeader k v w) = w_body w" "w_body (Write d w) = w_body w @ d"
  by (simp_all add: WriteHeader_def SetHeader_def Write_def Let_def)

lemma status_new [simp]: "status new_response = None" "w_body new_response = []"
  by (simp_all add: status_def new_response_def)

end
