(* ===== verification/Swarm_Routes.thy ===== *)
theory Swarm_Routes
  imports Kv_Execute Go_Http
begin

text \<open>
  Routes from Docker labels (\<open>docker.go\<close>) and their way into the store (\<open>kvdocker.go\<close>). The Docker
  client is not part of the repository: what it answers is an argument, and so are the answers to
  the HTTP requests of the worker. The goroutine that \<open>updateFromSwarm\<close> starts is returned as the
  list of writes it performs, so that it can be run at any later moment.
\<close>

section \<open>Routes\<close>

record Route =
  OriginScheme :: string
  OriginHost :: string
  OriginPort :: string
  DestinationScheme :: string
  DestinationHost :: string
  DestinationPort :: string

definition GetKey :: "Route \<Rightarrow> string" where
  "GetKey rt =
     (let key = HOST_PREFIX @ OriginHost rt;
          rt = (if OriginScheme rt = [] then rt\<lparr>OriginScheme := ''https''\<rparr> else rt);
          rt = (if OriginScheme rt = ''http'' \<and> (OriginPort rt = ''80'' \<or> OriginPort rt = '':http'')
                then rt\<lparr>OriginPort := []\<rparr> else rt);
          rt = (if OriginScheme rt = ''https'' \<and> (OriginPort rt = ''443'' \<or> OriginPort rt = '':https'')
                then rt\<lparr>OriginPort := []\<rparr> else rt);
          key = (if length (OriginPort rt) > 0 then key @ '':'' @ OriginPort rt else key)
      in if length (OriginScheme rt) = 0 then key @ '':https'' else key @ '':'' @ OriginScheme rt)"

definition GetValue :: "Route \<Rightarrow> string" where
  "GetValue rt =
     (let rt = (if length (DestinationScheme rt) = 0 then rt\<lparr>DestinationScheme := ''http''\<rparr> else rt)
      in DestinationScheme rt @ ''://'' @ DestinationHost rt @ '':'' @ DestinationPort rt)"

section \<open>Docker\<close>

text \<open>The labels of a task's container; a task without a container specification has none.\<close>

type_synonym labels = "string \<rightharpoonup> string"

record task =
  task_ContainerSpec :: "labels option"

text \<open>Whether the client could be created, and the answer of \<open>TaskList\<close>.\<close>

record docker =
  dk_client :: bool
  dk_tasks :: "error + task list"

definition label :: "labels \<Rightarrow> string \<Rightarrow> string" where
  "label ls k = (case ls k of None \<Rightarrow> [] | Some v \<Rightarrow> v)"

fun host_routes :: "labels \<Rightarrow> string list \<Rightarrow> Route list \<Rightarrow> Route list" where
  "host_routes ls [] conz = conz"
| "host_routes ls (h # hosts) conz =
     (let host = trim_space h in
      if host = [] then host_routes ls hosts conz
      else
        (let route = \<lparr>OriginScheme = label ls ''OriginScheme'', OriginHost = host, OriginPort = label ls ''OriginPort'',
               DestinationScheme = label ls ''DestinationScheme'', DestinationHost = label ls ''DestinationHost'',
               DestinationPort = label ls ''DestinationPort''\<rparr>
         in if OriginHost route = [] \<or> DestinationHost route = [] \<or> DestinationPort route = []
            then host_routes ls hosts conz
            else host_routes ls hosts (conz @ [route])))"

fun task_routes :: "task list \<Rightarrow> Route list \<Rightarrow> Route list outcome" where
  "task_routes [] conz = Ok conz"
| "task_routes (t # ts) conz = (case task_ContainerSpec t of
     None \<Rightarrow> Panic ''nil pointer dereference''
   | Some ls \<Rightarrow>
       (let hosts = split_on (CHR '','') (label ls ''OriginHosts'') @ [label ls ''OriginHost'']
        in task_routes ts (host_routes ls hosts conz)))"

definition GetDockerRoutes :: "docker \<Rightarrow> Route list outcome" where
  "GetDockerRoutes dk =
     (if \<not> dk_client dk then Err (Errorf ''Couldn't connect to docker socket'')
      else case dk_tasks dk of
        Inl e \<Rightarrow> Err (Errorf (''[WARNING] Error loading swarm tasks'' @ [CHR 0x0A]))
      | Inr tasks \<Rightarrow> task_routes tasks [])"

section \<open>Writing the routes\<close>

definition route_action :: "Route \<Rightarrow> KVAction" where
  "route_action rt = put_action (GetKey rt) (Some (str_bytes (GetValue rt)))"

definition role_action :: "string \<Rightarrow> bool \<Rightarrow> KVAction" where
  "role_action binding manager =
     put_action ((if manager then SWARM_MANAGER_PREFIX else SWARM_WORKER_PREFIX) @ binding) (Some [])"

text \<open>The error that is returned and the writes that are left to the goroutine.\<close>

definition updateFromSwarm ::
    "('nh, 'a) nodehost_scheme \<Rightarrow> string \<Rightarrow> docker \<Rightarrow> bool \<Rightarrow> 'nh \<Rightarrow> (error option \<times> KVAction list) outcome \<times> 'nh" where
  "updateFromSwarm H binding dk updateRole nh = (case GetDockerRoutes dk of
     Panic p \<Rightarrow> (Panic p, nh)
   | Err e \<Rightarrow> (Ok (Some e, []), if updateRole then snd (execute H nh (role_action binding False)) else nh)
   | Ok routes \<Rightarrow>
       (Ok (None, map route_action routes), if updateRole then snd (execute H nh (role_action binding True)) else nh))"

fun write_routes :: "('nh, 'a) nodehost_scheme \<Rightarrow> 'nh \<Rightarrow> KVAction list \<Rightarrow> 'nh" where
  "write_routes H nh [] = nh"
| "write_routes H nh (action # actions) = write_routes H (snd (execute H nh action)) actions"

section \<open>The worker of the leader\<close>

definition API_PORT :: string where
  "API_PORT = '':6299''"

text \<open>The interval of the ticker, if the worker is started.\<close>

definition swarm_interval :: "int \<Rightarrow> int option" where
  "swarm_interval seconds = (if seconds < 1 then None else if seconds < 2 then Some 3 else Some seconds)"

text \<open>
  \<open>FindStringSubmatch\<close> with \<open>.*\:(.+)\<close>: in the first line with a colon that something follows, what
  follows the last such colon.
\<close>

fun last_tail :: "string \<Rightarrow> string option" where
  "last_tail [] = None"
| "last_tail (c # cs) = (case last_tail cs of
     Some t \<Rightarrow> Some t | None \<Rightarrow> if c = CHR '':'' \<and> cs \<noteq> [] then Some cs else None)"

definition regex_tail :: "string \<Rightarrow> string option" where
  "regex_tail s = (case filter (\<lambda>t. t \<noteq> None) (map last_tail (split_on (CHR 0x0A) s)) of
     [] \<Rightarrow> None | t # _ \<Rightarrow> t)"

definition swarm_url :: "string \<Rightarrow> string \<Rightarrow> string" where
  "swarm_url ver host = ''http://'' @ host @ API_PORT @ ''/roo/'' @ ver @ ''/swarm''"

text \<open>
  The loop over the managers: the requests that are sent, up to the first one that is answered with
  a status of 200 to 299 (\<open>post\<close> gives the status, nothing for an error). A URL that does not parse
  leaves the request nil, and its use panics.
\<close>

fun try_managers :: "(string \<Rightarrow> nat option) \<Rightarrow> string \<Rightarrow> string list \<Rightarrow> string list outcome" where
  "try_managers post ver [] = Ok []"
| "try_managers post ver (i # is) = (case regex_tail i of
     None \<Rightarrow> try_managers post ver is
   | Some h \<Rightarrow>
       (let url = swarm_url ver h in
        if url_Parse url = None then Panic ''nil pointer dereference''
        else if ok_status (post url) then Ok [url]
        else map_outcome2 ((#) url) (try_managers post ver is)))"

definition swarm_tick ::
    "('nh, 'a) nodehost_scheme \<Rightarrow> 'nh \<Rightarrow> bool \<Rightarrow> string \<Rightarrow> (string \<Rightarrow> nat option) \<Rightarrow> string list outcome" where
  "swarm_tick H nh leader ver post =
     (if \<not> leader then Ok []
      else case nh_SyncRead H nh (QAction (Some (scan_action SWARM_MANAGER_PREFIX))) of
        Inl e \<Rightarrow> Ok []
      | Inr (RBytes _) \<Rightarrow> Panic ''interface conversion''
      | Inr (RMap items) \<Rightarrow> try_managers post ver (map fst items))"

section \<open>Which routes are read from Docker\<close>

text \<open>The route of one host name of a task.\<close>

definition route_of :: "labels \<Rightarrow> string \<Rightarrow> Route" where
  "route_of ls host = \<lparr>OriginScheme = label ls ''OriginScheme'', OriginHost = host, OriginPort = label ls ''OriginPort'',
     DestinationScheme = label ls ''DestinationScheme'', DestinationHost = label ls ''DestinationHost'',
     DestinationPort = label ls ''DestinationPort''\<rparr>"

definition task_hosts :: "labels \<Rightarrow> string list" where
  "task_hosts ls = split_on (CHR '','') (label ls ''OriginHosts'') @ [label ls ''OriginHost'']"

definition labelled_routes :: "labels \<Rightarrow> Route list" where
  "labelled_routes ls =
     (if label ls ''DestinationHost'' = [] \<or> label ls ''DestinationPort'' = [] then []
      else map (route_of ls) (filter (\<lambda>h. h \<noteq> []) (map trim_space (task_hosts ls))))"

lemma host_routes_eq:
  "host_routes ls hosts conz = conz @
     (if label ls ''DestinationHost'' = [] \<or> label ls ''DestinationPort'' = [] then []
      else map (route_of ls) (filter (\<lambda>h. h \<noteq> []) (map trim_space hosts)))"
  by (induction hosts arbitrary: conz) (auto simp: Let_def route_of_def)

lemma host_routes_task: "host_routes ls (task_hosts ls) conz = conz @ labelled_routes ls"
  by (simp add: host_routes_eq labelled_routes_def)

lemma task_routes_eq:
  "task_routes ts conz =
     (if \<forall>t\<in>set ts. task_ContainerSpec t \<noteq> None
      then Ok (conz @ concat (map (\<lambda>t. labelled_routes (the (task_ContainerSpec t))) ts))
      else Panic ''nil pointer dereference'')"
proof (induction ts arbitrary: conz)
  case (Cons t ts)
  then show ?case
    by (cases "task_ContainerSpec t")
      (auto simp: Let_def task_hosts_def [symmetric] host_routes_task)
qed simp

text \<open>
  The routes read from Docker are exactly those the labels describe: for every task with a
  destination host and port, one route for each host name in \<open>OriginHosts\<close> (separated by commas) and
  \<open>OriginHost\<close> that is not blank, in the order of the tasks. A task without a container
  specification makes the call panic.
\<close>

theorem docker_routes_exact:
  assumes "dk_client dk" "dk_tasks dk = Inr tasks"
  shows "GetDockerRoutes dk =
    (if \<forall>t\<in>set tasks. task_ContainerSpec t \<noteq> None
     then Ok (concat (map (\<lambda>t. labelled_routes (the (task_ContainerSpec t))) tasks))
     else Panic ''nil pointer dereference'')"
  using assms by (simp add: GetDockerRoutes_def task_routes_eq)

definition example_labels :: labels where
  "example_labels = [''OriginHosts'' \<mapsto> ''a.example, b.example'', ''DestinationHost'' \<mapsto> ''web'', ''DestinationPort'' \<mapsto> ''8080'']"

definition example_docker :: docker where
  "example_docker = \<lparr>dk_client = True, dk_tasks = Inr [\<lparr>task_ContainerSpec = Some example_labels\<rparr>]\<rparr>"

lemma example_hosts: "labelled_routes example_labels = [route_of example_labels ''a.example'', route_of example_labels ''b.example'']"
proof -
  have "map trim_space (task_hosts example_labels) = [''a.example'', ''b.example'', []]"
    by (simp add: task_hosts_def label_def example_labels_def trim_space_id trim_space_Cons plain_edge_def)
  then show ?thesis
    by (simp add: labelled_routes_def) (simp add: label_def example_labels_def)
qed

theorem docker_routes_exact_witness:
  "GetDockerRoutes example_docker = Ok [route_of example_labels ''a.example'', route_of example_labels ''b.example'']"
  using docker_routes_exact [of example_docker "[\<lparr>task_ContainerSpec = Some example_labels\<rparr>]"]
  by (simp add: example_docker_def example_hosts)

lemma example_routes:
  "GetDockerRoutes example_docker = Ok [route_of example_labels ''a.example'', route_of example_labels ''b.example'']"
  by (simp add: GetDockerRoutes_def task_routes_eq example_docker_def example_hosts)

section \<open>Routes in the store\<close>

lemma GetKey_neq_Nil [simp]: "GetKey rt \<noteq> []"
  by (simp add: GetKey_def Let_def)

lemma GetKey_no_index: "GetKey rt \<noteq> appliedIndexKey"
  by (simp add: GetKey_def Let_def HOST_PREFIX_def appliedIndexKey_def)

text \<open>The value of the last route with a key, if there is one.\<close>

definition route_table :: "Route list \<Rightarrow> string \<rightharpoonup> string" where
  "route_table routes = map_of (rev (map (\<lambda>rt. (GetKey rt, GetValue rt)) routes))"

lemma route_table_simps [simp]:
  "route_table [] = Map.empty"
  "route_table (rt # rts) k = (case route_table rts k of None \<Rightarrow> if k = GetKey rt then Some (GetValue rt) else None | Some v \<Rightarrow> Some v)"
  by (auto simp: route_table_def map_add_def split: option.split)

context raft_kv
begin

lemma write_routes_effect:
  assumes "accepts H (length routes) nh" "\<forall>rt\<in>set routes. utf8_ok (GetKey rt)" "k \<noteq> appliedIndexKey"
  shows "sm (write_routes H nh (map route_action routes)) (str_bytes k) =
    (case route_table routes k of Some v \<Rightarrow> Some (str_bytes v) | None \<Rightarrow> sm nh (str_bytes k))"
  using assms(1,2)
proof (induction routes arbitrary: nh)
  case (Cons rt routes)
  let ?d = "\<lparr>Key = GetKey rt, Val = Some (str_bytes (GetValue rt))\<rparr>"
  obtain v nh1 where e: "execute H nh (route_action rt) = (Inr (VResult v), nh1)" "accepts H (length routes) nh1"
    using execute_put_accepted [of H "length routes" nh "GetKey rt" "Some (str_bytes (GetValue rt))"] Cons.prems(1)
    unfolding route_action_def length_Cons by auto
  then have w: "wrote ?d (sm nh) (sm nh1)" using execute_put unfolding route_action_def by blast
  have "sm nh1 (str_bytes k) = (if k = GetKey rt then Some (str_bytes (GetValue rt)) else sm nh (str_bytes k))"
    using wrote_same [OF w] wrote_other [OF w, of "str_bytes k"] Cons.prems(2) assms(3) by (simp add: utf8_ok_def)
  with Cons.IH [OF e(2)] Cons.prems(2) e(1) show ?case by (auto split: option.split)
qed simp

end

text \<open>
  After an update from the swarm the store holds the routes: when the writes of the goroutine
  are applied, the key of every route maps to the destination of the last route with that key, and
  no other key has changed.
\<close>

theorem swarm_routes_written:
  assumes "raft_kv H sm" "GetDockerRoutes dk = Ok routes" "\<forall>rt\<in>set routes. utf8_ok (GetKey rt)"
    and "updateFromSwarm H binding dk False nh = (Ok (err, actions), nh1)"
    and "accepts H (length routes) nh1" "k \<noteq> appliedIndexKey"
  shows "err = None \<and> sm (write_routes H nh1 actions) (str_bytes k) =
    (case route_table routes k of Some v \<Rightarrow> Some (str_bytes v) | None \<Rightarrow> sm nh (str_bytes k))"
proof -
  have "err = None" "actions = map route_action routes" "nh1 = nh"
    using assms(2,4) by (simp_all add: updateFromSwarm_def)
  with raft_kv.write_routes_effect [OF assms(1) assms(5,3,6)] show ?thesis by (simp split: option.split)
qed

theorem swarm_routes_written_witness:
  "\<exists>actions. updateFromSwarm (single_host ref_pebble) ''10.0.0.1'' example_docker False (example_host []) = (Ok (None, actions), example_host [])
    \<and> host_map ref_pebble (write_routes (single_host ref_pebble) (example_host []) actions)
        (str_bytes ''com.roo.host:b.example:https'') = Some (str_bytes ''http://web:8080'')"
proof -
  let ?rts = "[route_of example_labels ''a.example'', route_of example_labels ''b.example'']"
  have routes: "GetDockerRoutes example_docker = Ok ?rts" by (rule example_routes)
  have keys: "map GetKey ?rts = [''com.roo.host:a.example:https'', ''com.roo.host:b.example:https'']"
    "GetValue (route_of example_labels ''b.example'') = ''http://web:8080''"
    by (simp_all add: GetKey_def GetValue_def route_of_def label_def example_labels_def HOST_PREFIX_def Let_def)
  have utf8: "\<forall>rt\<in>set ?rts. utf8_ok (GetKey rt)"
    using keys(1) by (simp add: utf8_ok_ascii is_ascii_def)
  have u: "updateFromSwarm (single_host ref_pebble) ''10.0.0.1'' example_docker False (example_host [])
      = (Ok (None, map route_action ?rts), example_host [])"
    using routes by (simp add: updateFromSwarm_def)
  have "accepts (single_host ref_pebble) (length ?rts) (example_host [])"
    by (rule single_accepts [OF example_host_simps(1)]) simp
  from swarm_routes_written [OF refdb.single.raft_kv_axioms routes utf8 u this, of "''com.roo.host:b.example:https''"]
  show ?thesis using u keys by (simp add: appliedIndexKey_def)
qed

section \<open>Delegation to a manager\<close>

lemma last_tail_none: "CHR '':'' \<notin> set s \<Longrightarrow> last_tail s = None"
  by (induction s) (auto split: option.split)

lemma last_tail_append: "CHR '':'' \<notin> set t \<Longrightarrow> t \<noteq> [] \<Longrightarrow> last_tail (s @ CHR '':'' # t) = Some t"
  by (induction s) (simp_all add: last_tail_none)

lemma regex_tail_key:
  assumes "CHR '':'' \<notin> set b" "CHR 0x0A \<notin> set b" "b \<noteq> []"
  shows "regex_tail (SWARM_MANAGER_PREFIX @ b) = Some b"
proof -
  have "CHR 0x0A \<notin> set (SWARM_MANAGER_PREFIX @ b)" using assms(2) by (simp add: SWARM_MANAGER_PREFIX_def)
  moreover have "last_tail (SWARM_MANAGER_PREFIX @ b) = Some b"
    using last_tail_append [OF assms(1,3), of "''com.roo.swarm.manager''"] by (simp add: SWARM_MANAGER_PREFIX_def)
  ultimately show ?thesis by (simp add: regex_tail_def split_on_no_sep)
qed

text \<open>The requests: one per key in turn, stopping after the first that is accepted.\<close>

lemma try_managers_Ok:
  assumes "try_managers post ver is = Ok urls"
  shows "(\<forall>u\<in>set (butlast urls). \<not> ok_status (post u))
    \<and> (if \<exists>u\<in>set urls. ok_status (post u) then ok_status (post (last urls))
       else urls = map (swarm_url ver) (List.map_filter regex_tail is))
    \<and> (\<forall>u\<in>set urls. \<exists>i\<in>set is. \<exists>h. regex_tail i = Some h \<and> u = swarm_url ver h)"
  using assms
proof (induction "is" arbitrary: urls)
  case (Cons i "is")
  show ?case
  proof (cases "regex_tail i")
    case None
    with Cons show ?thesis by (auto simp: map_filter_simps)
  next
    case (Some h)
    show ?thesis
    proof (cases "ok_status (post (swarm_url ver h))")
      case True
      with Cons.prems Some show ?thesis by (auto simp: Let_def split: if_splits)
    next
      case False
      with Cons.prems Some obtain us where us: "try_managers post ver is = Ok us" "urls = swarm_url ver h # us"
        by (cases "try_managers post ver is") (auto simp: Let_def split: if_splits)
      from Cons.IH [OF us(1)] us(2) False Some show ?thesis by (auto simp: map_filter_simps)
    qed
  qed
qed (simp add: map_filter_simps)

lemma try_managers_Panic:
  assumes "i \<in> set is" "regex_tail i = Some h" "url_Parse (swarm_url ver h) = None" "\<forall>u. \<not> ok_status (post u)"
  shows "\<exists>p. try_managers post ver is = Panic p"
  using assms
proof (induction "is")
  case (Cons j "is")
  then show ?case
    by (cases "try_managers post ver is"; cases "regex_tail j") (auto simp: Let_def)
qed simp

lemma try_managers_total:
  "\<forall>i\<in>set is. \<forall>h. regex_tail i = Some h \<longrightarrow> url_Parse (swarm_url ver h) \<noteq> None \<Longrightarrow>
   \<exists>urls. try_managers post ver is = Ok urls"
proof (induction "is")
  case (Cons i "is")
  then show ?case by (cases "regex_tail i") (auto simp: Let_def)
qed simp

text \<open>The keys the leader goes through.\<close>

lemma swarm_tick_read:
  assumes "raft_kv H sm" "nh_SyncRead H nh (QAction (Some (scan_action SWARM_MANAGER_PREFIX))) = Inr v"
  shows "\<exists>is. swarm_tick H nh True ver post = try_managers post ver is
    \<and> set is = {k. prefix SWARM_MANAGER_PREFIX k \<and> sm nh (str_bytes k) \<noteq> None}"
proof -
  have "store_spec (scan_action SWARM_MANAGER_PREFIX) (sm nh) (VRead v) (sm nh)"
    using raft_kv.read_action [OF assms] by simp
  then obtain r where r: "v = RMap r" "map_of r = map_scan (sm nh) SWARM_MANAGER_PREFIX"
    by (auto simp: store_spec_def)
  have "set (map fst r) = dom (map_of r)" by (simp add: dom_map_of_conv_image_fst)
  also have "\<dots> = {k. prefix SWARM_MANAGER_PREFIX k \<and> sm nh (str_bytes k) \<noteq> None}"
    unfolding r(2) by (auto simp: map_scan_def dom_def split: if_splits)
  finally have "set (map fst r) = {k. prefix SWARM_MANAGER_PREFIX k \<and> sm nh (str_bytes k) \<noteq> None}" .
  then show ?thesis using assms(2) r(1) by (intro exI [of _ "map fst r"]) (simp add: swarm_tick_def)
qed

text \<open>
  The leader's worker reaches a registered manager: once a node with access to Docker has
  written its role, a tick of the leader sends the update request to that node, unless a manager
  asked before it has accepted.
\<close>

theorem swarm_delegation:
  assumes "raft_kv H sm" "accepts H 1 nh" "utf8_ok b" "CHR '':'' \<notin> set b" "CHR 0x0A \<notin> set b" "b \<noteq> []"
    and "updateFromSwarm H b dk True nh = (Ok (None, acts), nh1)"
    and "nh_SyncRead H nh1 (QAction (Some (scan_action SWARM_MANAGER_PREFIX))) = Inr v"
    and "swarm_tick H nh1 True ver post = Ok urls"
  shows "swarm_url ver b \<in> set urls \<or> (urls \<noteq> [] \<and> ok_status (post (last urls)))"
proof -
  let ?k = "SWARM_MANAGER_PREFIX @ b"
  let ?d = "\<lparr>Key = ?k, Val = Some []\<rparr> :: KVData"
  have ne: "Key ?d \<noteq> []" by (simp add: SWARM_MANAGER_PREFIX_def)
  have nh1: "nh1 = snd (execute H nh (role_action b True))"
    using assms(7) by (auto simp: updateFromSwarm_def split: outcome.splits)
  obtain r nh2 where e: "execute H nh (role_action b True) = (Inr (VResult r), nh2)"
    using execute_put_accepted [of H 0 nh ?k "Some []"] assms(2) ne unfolding role_action_def by auto
  then have w: "wrote ?d (sm nh) (sm nh1)"
    using raft_kv.execute_put [OF assms(1)] nh1 by (simp add: role_action_def)
  have "is_ascii SWARM_MANAGER_PREFIX" by (simp add: is_ascii_def SWARM_MANAGER_PREFIX_def)
  then have "utf8_ok ?k" using assms(3) utf8_ok_ascii by (simp only: utf8_ok_append)
  then have stored: "sm nh1 (str_bytes ?k) \<noteq> None"
    using wrote_same [OF w] by (simp add: SWARM_MANAGER_PREFIX_def appliedIndexKey_def)
  obtain "is" where tick: "swarm_tick H nh1 True ver post = try_managers post ver is"
    "set is = {k. prefix SWARM_MANAGER_PREFIX k \<and> sm nh1 (str_bytes k) \<noteq> None}"
    using swarm_tick_read [OF assms(1,8), of ver post] by metis
  then have "is": "try_managers post ver is = Ok urls" "?k \<in> set is" using stored assms(9) by simp_all
  have "swarm_url ver b \<in> set (map (swarm_url ver) (List.map_filter regex_tail is))"
    using "is"(2) regex_tail_key [OF assms(4-6)] by (force simp: map_filter_def)
  moreover have "if \<exists>u\<in>set urls. ok_status (post u) then ok_status (post (last urls))
      else urls = map (swarm_url ver) (List.map_filter regex_tail is)"
    using try_managers_Ok [OF "is"(1)] by (rule conjunct1 [OF conjunct2])
  ultimately show ?thesis by (auto split: if_splits)
qed

theorem swarm_delegation_witness:
  "\<exists>nh1 urls. updateFromSwarm (single_host ref_pebble) ''10.0.0.1'' example_docker True (example_host []) = (Ok (None, map route_action (labelled_routes example_labels)), nh1)
    \<and> swarm_tick (single_host ref_pebble) nh1 True ''v1'' (\<lambda>_. None) = Ok urls
    \<and> swarm_url ''v1'' ''10.0.0.1'' \<in> set urls"
proof -
  let ?H = "single_host ref_pebble" and ?b = "''10.0.0.1''" and ?k = "''com.roo.swarm.manager:10.0.0.1''"
  obtain r nh1 c where e: "execute ?H (example_host []) (role_action ?b True) = (Inr (VResult r), nh1)" "live nh1 = Some c"
    using single_execute_put [OF example_host_simps(1), of "[]" ?k "Some []"]
    by (auto simp: role_action_def SWARM_MANAGER_PREFIX_def)
  have u: "updateFromSwarm ?H ?b example_docker True (example_host []) = (Ok (None, map route_action (labelled_routes example_labels)), nh1)"
    using e(1) by (simp add: updateFromSwarm_def example_routes example_hosts)
  obtain m where m: "nh_SyncRead ?H nh1 (QAction (Some (scan_action SWARM_MANAGER_PREFIX))) = Inr (RMap m)"
    using single_read_scan_action [OF e(2)] by fastforce
  have w: "wrote \<lparr>Key = ?k, Val = Some []\<rparr> Map.empty (host_map ref_pebble nh1)"
    using refdb.single.execute_put [of "example_host []" ?k "Some []"] e(1)
    by (simp add: role_action_def SWARM_MANAGER_PREFIX_def)
  have keys: "k = ?k" if "prefix SWARM_MANAGER_PREFIX k" "host_map ref_pebble nh1 (str_bytes k) \<noteq> None" for k
  proof (rule ccontr)
    assume "k \<noteq> ?k"
    moreover have "k \<noteq> appliedIndexKey" using that(1) by (auto simp: SWARM_MANAGER_PREFIX_def appliedIndexKey_def)
    ultimately have "host_map ref_pebble nh1 (str_bytes k) = None"
      using wrote_other_ok [OF w, of k] by (simp add: utf8_ok_ascii is_ascii_def)
    with that(2) show False by blast
  qed
  have parse: "url_Parse (swarm_url ''v1'' ?b) \<noteq> None" by code_simp
  obtain "is" where tick: "swarm_tick ?H nh1 True ''v1'' (\<lambda>_. None) = try_managers (\<lambda>_. None) ''v1'' is"
    "set is = {k. prefix SWARM_MANAGER_PREFIX k \<and> host_map ref_pebble nh1 (str_bytes k) \<noteq> None}"
    using swarm_tick_read [OF refdb.single.raft_kv_axioms m, of "''v1''" "\<lambda>_. None"] by metis
  have "regex_tail ?k = Some ?b" using regex_tail_key [of ?b] by (simp add: SWARM_MANAGER_PREFIX_def)
  then have "\<exists>urls. try_managers (\<lambda>_. None) ''v1'' is = Ok urls"
    using tick(2) keys parse by (intro try_managers_total) fastforce
  then obtain urls where urls: "swarm_tick ?H nh1 True ''v1'' (\<lambda>_. None) = Ok urls" using tick(1) by metis
  have "accepts ?H 1 (example_host [])" by (rule single_accepts [OF example_host_simps(1)]) simp
  from swarm_delegation [OF refdb.single.raft_kv_axioms this _ _ _ _ u m urls] u urls
  show ?thesis by (simp add: utf8_ok_ascii is_ascii_def)
qed

text \<open>
  A manager key whose host part does not make a valid URL stops the process: when no manager
  accepts the request, the leader's worker comes to that key, uses the nil request and panics.
\<close>

theorem swarm_tick_panics:
  assumes "raft_kv H sm" "nh_SyncRead H nh (QAction (Some (scan_action SWARM_MANAGER_PREFIX))) = Inr v"
    and "sm nh (str_bytes k) \<noteq> None" "prefix SWARM_MANAGER_PREFIX k" "regex_tail k = Some h"
    and "url_Parse (swarm_url ver h) = None" "\<forall>u. \<not> ok_status (post u)"
  shows "\<exists>p. swarm_tick H nh True ver post = Panic p"
proof -
  obtain "is" where tick: "swarm_tick H nh True ver post = try_managers post ver is"
    "set is = {k. prefix SWARM_MANAGER_PREFIX k \<and> sm nh (str_bytes k) \<noteq> None}"
    using swarm_tick_read [OF assms(1,2), of ver post] by metis
  then have "k \<in> set is" using assms(3,4) by simp
  from try_managers_Panic [OF this assms(5-7)] tick(1) show ?thesis by simp
qed

theorem swarm_tick_panics_witness:
  "\<exists>p. swarm_tick (single_host ref_pebble) (example_host [(str_bytes ''com.roo.swarm.manager:a b'', [])]) True ''v1'' (\<lambda>_. None) = Panic p"
proof -
  let ?s = "example_host [(str_bytes ''com.roo.swarm.manager:a b'', [])]"
  obtain r where r: "nh_SyncRead (single_host ref_pebble) ?s (QAction (Some (scan_action SWARM_MANAGER_PREFIX))) = Inr (RMap r)"
    using single_read_scan_action [OF example_host_simps(1)] by fastforce
  have "regex_tail ''com.roo.swarm.manager:a b'' = Some ''a b''"
    using regex_tail_key [of "''a b''"] by (simp add: SWARM_MANAGER_PREFIX_def)
  moreover have "url_Parse (swarm_url ''v1'' ''a b'') = None" by code_simp
  ultimately show ?thesis
    using swarm_tick_panics [OF refdb.single.raft_kv_axioms r, of "''com.roo.swarm.manager:a b''" "''a b''" "''v1''" "\<lambda>_. None"]
    by (simp add: SWARM_MANAGER_PREFIX_def)
qed

end
