(* ===== verification/Kv_Serve.thy ===== *)
theory Kv_Serve
  imports Perm_Cache Swarm_Routes
begin

text \<open>
  The key-value service behind the API (\<open>KvService\<close> of \<open>kv.go\<close>): \<open>serve\<close> with its cases, and the
  parts of the \<open>session\<close> interface that are not implemented. \<open>serve\<close> takes the response written so
  far and returns whether it ended with \<open>nil\<close>, an error or a panic, the response, the writes left to
  a goroutine it started, and the state of the replicated store.
\<close>

section \<open>Data\<close>

record ServiceArgs =
  sa_ServiceType :: int
  sa_Values :: "(string \<rightharpoonup> string) option"

record ClusterStatus =
  cs_Client :: string
  cs_Binding :: string
  cs_Conns :: int
  cs_ReplicaID :: uint64
  cs_ShardID :: uint64
  cs_Hosts :: "string list option"
  cs_Instantiated :: int
  cs_Started :: int

text \<open>The service types of \<open>constants.go\<close>; \<open>SERVE_GET_PING\<close> is \<open>iota + 1\<close> and so has the value of its successor.\<close>

abbreviation (input) SERVE_GET_PING :: int where "SERVE_GET_PING \<equiv> 1"
abbreviation (input) SERVE_GET_KV :: int where "SERVE_GET_KV \<equiv> 1"
abbreviation (input) SERVE_PUT_KV :: int where "SERVE_PUT_KV \<equiv> 2"
abbreviation (input) SERVE_GET_KVS :: int where "SERVE_GET_KVS \<equiv> 3"
abbreviation (input) SERVE_POST_JOIN :: int where "SERVE_POST_JOIN \<equiv> 4"
abbreviation (input) SERVE_POST_SWARM :: int where "SERVE_POST_SWARM \<equiv> 5"
abbreviation (input) SERVE_POST_REMOVE :: int where "SERVE_POST_REMOVE \<equiv> 6"
abbreviation (input) SERVE_POST_RESCUE :: int where "SERVE_POST_RESCUE \<equiv> 7"
abbreviation (input) SERVE_POST_PERM :: int where "SERVE_POST_PERM \<equiv> 8"
abbreviation (input) SERVE_PUT_PERM :: int where "SERVE_PUT_PERM \<equiv> 9"
abbreviation (input) SERVE_DELETE_PERM :: int where "SERVE_DELETE_PERM \<equiv> 10"

section \<open>Decoding a status\<close>

definition dec_uint64 :: "uint64 decoder" where
  "dec_uint64 old v = (case v of
     JNum n \<Rightarrow> (case parse_uint64 n of Some i \<Rightarrow> (i, True) | None \<Rightarrow> (old, False))
   | JNull \<Rightarrow> (old, True) | _ \<Rightarrow> (old, False))"

definition dec_int64 :: "int decoder" where
  "dec_int64 old v = (case v of
     JNum n \<Rightarrow> (case parse_int64 n of Some i \<Rightarrow> (i, True) | None \<Rightarrow> (old, False))
   | JNull \<Rightarrow> (old, True) | _ \<Rightarrow> (old, False))"

definition zero_ClusterStatus :: ClusterStatus where
  "zero_ClusterStatus = \<lparr>cs_Client = [], cs_Binding = [], cs_Conns = 0, cs_ReplicaID = 0, cs_ShardID = 0,
     cs_Hosts = None, cs_Instantiated = 0, cs_Started = 0\<rparr>"

definition dec_ClusterStatus :: "ClusterStatus decoder" where
  "dec_ClusterStatus = dec_struct (\<lambda>k.
     if k = ''CLIENT'' then dec_field cs_Client (\<lambda>x r. r\<lparr>cs_Client := x\<rparr>) dec_string
     else if k = ''BINDING'' then dec_field cs_Binding (\<lambda>x r. r\<lparr>cs_Binding := x\<rparr>) dec_string
     else if k = ''CONNS'' then dec_field cs_Conns (\<lambda>x r. r\<lparr>cs_Conns := x\<rparr>) dec_int64
     else if k = ''REPLICAID'' then dec_field cs_ReplicaID (\<lambda>x r. r\<lparr>cs_ReplicaID := x\<rparr>) dec_uint64
     else if k = ''SHARDID'' then dec_field cs_ShardID (\<lambda>x r. r\<lparr>cs_ShardID := x\<rparr>) dec_uint64
     else if k = ''HOSTS'' then dec_field cs_Hosts (\<lambda>x r. r\<lparr>cs_Hosts := x\<rparr>) (dec_list [] dec_string)
     else if k = ''INSTANTIATED'' then dec_field cs_Instantiated (\<lambda>x r. r\<lparr>cs_Instantiated := x\<rparr>) dec_int64
     else if k = ''STARTED'' then dec_field cs_Started (\<lambda>x r. r\<lparr>cs_Started := x\<rparr>) dec_int64
     else (\<lambda>old v. (old, True)))"

definition ClusterStatus_json :: "ClusterStatus \<Rightarrow> json" where
  "ClusterStatus_json c = JObj [(''Client'', JStr (cs_Client c)), (''Binding'', JStr (cs_Binding c)),
     (''Conns'', JNum (show_int (cs_Conns c))), (''ReplicaID'', JNum (show_uint64 (cs_ReplicaID c))),
     (''ShardID'', JNum (show_uint64 (cs_ShardID c))),
     (''Hosts'', case cs_Hosts c of None \<Rightarrow> JNull | Some hs \<Rightarrow> JArr (map JStr hs)),
     (''Instantiated'', JNum (show_int (cs_Instantiated c))), (''Started'', JNum (show_int (cs_Started c)))]"

lemma parse_int64_show:
  assumes "- (2 ^ 63) \<le> i" "i < 2 ^ 63"
  shows "parse_int64 (show_int i) = Some i"
proof (cases "i < 0")
  case True
  then show ?thesis using assms by (simp add: parse_int64_def show_int_def show_nat_digits nat_le_iff)
next
  case False
  then obtain c r where c: "show_nat (nat i) = c # r" by (cases "show_nat (nat i)") auto
  then have "is_digit c" using show_nat_digits [of "nat i"] by simp
  then have "c \<noteq> CHR ''-''" by (auto simp: is_digit_def)
  moreover have "list_all is_digit (c # r)" "digits_val (c # r) = nat i"
    using show_nat_digits [of "nat i"] digits_val_show_nat [of "nat i"] c by simp_all
  ultimately show ?thesis using False assms c by (simp add: parse_int64_def show_int_def nat_less_iff)
qed

definition status_ok :: "ClusterStatus \<Rightarrow> bool" where
  "status_ok c \<longleftrightarrow> utf8_ok (cs_Client c) \<and> utf8_ok (cs_Binding c)
     \<and> (case cs_Hosts c of None \<Rightarrow> True | Some hs \<Rightarrow> list_all utf8_ok hs)
     \<and> (\<forall>i\<in>{cs_Conns c, cs_Instantiated c, cs_Started c}. - (2 ^ 63) \<le> i \<and> i < 2 ^ 63)"

lemma status_names [simp]:
  "fold_name ''Client'' = ''CLIENT''" "fold_name ''Binding'' = ''BINDING''" "fold_name ''Conns'' = ''CONNS''"
  "fold_name ''ReplicaID'' = ''REPLICAID''" "fold_name ''ShardID'' = ''SHARDID''" "fold_name ''Hosts'' = ''HOSTS''"
  "fold_name ''Instantiated'' = ''INSTANTIATED''" "fold_name ''Started'' = ''STARTED''"
  by code_simp+

lemma utf8_coerce_status [simp]:
  "utf8_coerce ''Client'' = ''Client''" "utf8_coerce ''Binding'' = ''Binding''" "utf8_coerce ''Conns'' = ''Conns''"
  "utf8_coerce ''ReplicaID'' = ''ReplicaID''" "utf8_coerce ''ShardID'' = ''ShardID''" "utf8_coerce ''Hosts'' = ''Hosts''"
  "utf8_coerce ''Instantiated'' = ''Instantiated''" "utf8_coerce ''Started'' = ''Started''"
  by (simp_all add: utf8_ok_ascii [unfolded utf8_ok_def is_ascii_def])

lemma show_uint64_int: "show_uint64 w = show_int (int (unat w))"
  by (simp add: show_uint64_def show_int_def)

lemma json_ints_ClusterStatus: "json_ints (ClusterStatus_json c)"
  by (auto simp: ClusterStatus_json_def show_uint64_int split: option.split)

lemma dec_Hosts_json:
  "case h of None \<Rightarrow> True | Some hs \<Rightarrow> list_all utf8_ok hs \<Longrightarrow>
   dec_list [] dec_string old (json_coerce (case h of None \<Rightarrow> JNull | Some hs \<Rightarrow> JArr (map JStr hs))) = (h, True)"
  by (cases h) (simp_all add: dec_list_def dec_string_def list_all_iff utf8_ok_def map_idI)

lemma decode_ClusterStatus:
  assumes "status_ok c"
  shows "json_Unmarshal dec_ClusterStatus (json_Marshal (ClusterStatus_json c)) old = (c, True)"
proof -
  have ints: "parse_int64 (show_int i) = Some i" if "i \<in> {cs_Conns c, cs_Instantiated c, cs_Started c}" for i
    using that assms by (intro parse_int64_show) (auto simp: status_ok_def)
  have "dec_ClusterStatus old (json_coerce (ClusterStatus_json c)) = (c, True)"
    using assms dec_Hosts_json [of "cs_Hosts c"]
    by (simp add: ClusterStatus_json_def dec_ClusterStatus_def dec_struct_def dec_field_def dec_string_def dec_int64_def
        dec_uint64_def ints status_ok_def utf8_ok_def)
  then show ?thesis by (simp add: Unmarshal_Marshal json_ints_ClusterStatus)
qed

definition example_status :: ClusterStatus where
  "example_status = \<lparr>cs_Client = [], cs_Binding = ''10.0.0.2'', cs_Conns = 0, cs_ReplicaID = 9, cs_ShardID = 1,
     cs_Hosts = Some [''10.0.0.1''], cs_Instantiated = 5, cs_Started = 6\<rparr>"

lemma example_status_ok: "status_ok example_status"
  by (simp add: status_ok_def example_status_def utf8_ok_ascii is_ascii_def)

section \<open>The host with its membership operations\<close>

text \<open>
  \<open>RequestDeleteReplica\<close> and \<open>RequestAddReplica\<close> of the node host. The latter returns an error (and a
  nil request state) or a request whose completion is awaited: \<open>Inr None\<close> when it completes, and
  otherwise the result in print.
\<close>

record 'nh cluster_host = "'nh nodehost" +
  nh_RequestDeleteReplica :: "'nh \<Rightarrow> uint64 \<Rightarrow> uint64 \<Rightarrow> error option \<times> 'nh"
  nh_RequestAddReplica :: "'nh \<Rightarrow> uint64 \<Rightarrow> uint64 \<Rightarrow> string \<Rightarrow> (error + string option) \<times> 'nh"

text \<open>What the service reads from its surroundings: clock, random string, Docker, the text of a JSON error.\<close>

record serve_env =
  env_now :: int
  env_rnd :: string
  env_docker :: docker
  env_binding :: string
  env_json_error :: "bytes \<Rightarrow> string"

type_synonym 'nh served = "unit outcome \<times> response \<times> KVAction list \<times> 'nh"

definition svalue :: "ServiceArgs \<Rightarrow> string \<Rightarrow> string option" where
  "svalue s k = map_option (\<lambda>m. case m k of None \<Rightarrow> [] | Some v \<Rightarrow> v) (sa_Values s)"

section \<open>The cases of serve\<close>

definition serve_post_perm ::
    "('nh, 'a) nodehost_scheme \<Rightarrow> AppConfig \<Rightarrow> serve_env \<Rightarrow> 'nh \<Rightarrow> response \<Rightarrow> http_request \<Rightarrow> 'nh served" where
  "serve_post_perm H cfg env nh w r = (case rq_Body r of
     Inl e \<Rightarrow> (Err (Errorf (''Could not parse body: '' @ err_text e)), w, [], nh)
   | Inr data \<Rightarrow>
       (case json_Unmarshal (dec_ptr zero_Request dec_Request) data (Some zero_Request) of
          (_, False) \<Rightarrow> (Err (Errorf (''Could not parse object: '' @ env_json_error env data)), w, [], nh)
        | (None, True) \<Rightarrow> (Panic ''nil pointer dereference'', w, [], nh)
        | (Some request, True) \<Rightarrow>
            (case authorize H cfg (env_now env) (env_rnd env) nh request of
               (True, nh') \<Rightarrow> (Ok (), WriteHeader 200 w, [], nh')
             | (False, nh') \<Rightarrow> (Ok (), WriteHeader 403 w, [], nh'))))"

definition serve_get_kv ::
    "('nh, 'a) nodehost_scheme \<Rightarrow> 'nh \<Rightarrow> response \<Rightarrow> ServiceArgs \<Rightarrow> 'nh served" where
  "serve_get_kv H nh w s = (case svalue s ''key'' of
     None \<Rightarrow> (Panic ''nil pointer dereference'', w, [], nh)
   | Some key \<Rightarrow>
       (case execute H nh (get_action key) of
          (Inl e, nh') \<Rightarrow> (Err (Errorf (''Could not get key in cluster: '' @ err_text e)), w, [], nh')
        | (Inr (VRead (RBytes b)), nh') \<Rightarrow> (Ok (), Write (slice_bytes b) (WriteHeader 200 w), [], nh')
        | (Inr _, nh') \<Rightarrow> (Panic ''interface conversion'', WriteHeader 200 w, [], nh')))"

definition serve_put_perm ::
    "('nh, 'a) nodehost_scheme \<Rightarrow> serve_env \<Rightarrow> 'nh \<Rightarrow> response \<Rightarrow> http_request \<Rightarrow> 'nh served" where
  "serve_put_perm H env nh w r = (case rq_Body r of
     Inl e \<Rightarrow> (Err (Errorf (''Could not parse body: '' @ err_text e)), w, [], nh)
   | Inr data \<Rightarrow>
       (case json_Unmarshal (dec_ptr (Some []) (dec_list zero_Permission dec_Permission)) data (Some (Some [])) of
          (_, False) \<Rightarrow> (Err (Errorf (''Could not parse object: '' @ env_json_error env data)), w, [], nh)
        | (None, True) \<Rightarrow> (Panic ''nil pointer dereference'', w, [], nh)
        | (Some perms, True) \<Rightarrow>
            (case permiss H nh (case perms of None \<Rightarrow> [] | Some ps \<Rightarrow> ps) of
               (Some e, nh') \<Rightarrow> (Err (Errorf (''Could not set permission: '' @ err_text e)), w, [], nh')
             | (None, nh') \<Rightarrow> (Ok (), WriteHeader 200 w, [], nh'))))"

definition serve_delete_perm ::
    "('nh, 'a) nodehost_scheme \<Rightarrow> 'nh \<Rightarrow> response \<Rightarrow> ServiceArgs \<Rightarrow> 'nh served" where
  "serve_delete_perm H nh w s = (case svalue s ''user'' of
     None \<Rightarrow> (Panic ''nil pointer dereference'', w, [], nh)
   | Some user \<Rightarrow>
       if length user > 0 then
         (case revoke H nh user of
            (Ok _, nh') \<Rightarrow> (Ok (), WriteHeader 200 w, [], nh')
          | (Err e, nh') \<Rightarrow> (Err (Errorf (''Could not remove user: '' @ err_text e)), w, [], nh')
          | (Panic p, nh') \<Rightarrow> (Panic p, w, [], nh'))
       else (Err (Errorf ''Could not delete empty user''), w, [], nh))"

definition serve_put_kv ::
    "('nh, 'a) nodehost_scheme \<Rightarrow> 'nh \<Rightarrow> response \<Rightarrow> http_request \<Rightarrow> ServiceArgs \<Rightarrow> 'nh served" where
  "serve_put_kv H nh w r s = (case rq_Body r of
     Inl e \<Rightarrow> (Err (Errorf ''Could not read posted value''), w, [], nh)
   | Inr data \<Rightarrow>
       (case svalue s ''key'' of
          None \<Rightarrow> (Panic ''nil pointer dereference'', w, [], nh)
        | Some key \<Rightarrow>
            (case execute H nh (put_action key (Some data)) of
               (Inl e, nh') \<Rightarrow> (Err (Errorf (''Could not write key to cluster: '' @ err_text e)), w, [], nh')
             | (Inr _, nh') \<Rightarrow>
                 (Ok (), Write (json_Marshal (JObj [(''ok'', JBool True)]))
                    (WriteHeader 200 (SetHeader ''Content-Type'' ''application/json'' w)), [], nh'))))"

text \<open>\<open>json.Marshal\<close> of a map sorts the keys.\<close>

definition gomap_json :: "gomap \<Rightarrow> json" where
  "gomap_json r = JObj (map (\<lambda>(k, v). (k, slice_json v)) (sort_key (str_bytes \<circ> fst) r))"

definition result_json :: "lookup_result \<Rightarrow> json" where
  "result_json v = (case v of RMap r \<Rightarrow> gomap_json r | RBytes b \<Rightarrow> slice_json b)"

definition kvs_key :: "string \<Rightarrow> string" where
  "kvs_key k = (if length k > 0 \<and> k ! 0 = CHR ''/'' then tl k else k)"

definition serve_get_kvs ::
    "('nh, 'a) nodehost_scheme \<Rightarrow> 'nh \<Rightarrow> response \<Rightarrow> ServiceArgs \<Rightarrow> 'nh served" where
  "serve_get_kvs H nh w s = (case svalue s ''key'' of
     None \<Rightarrow> (Panic ''nil pointer dereference'', w, [], nh)
   | Some k \<Rightarrow>
       (let key = kvs_key k in
        case execute H nh (scan_action key) of
          (Inl e, nh') \<Rightarrow> (Err (Errorf (''Could not scan cluster: '' @ err_text e)), w, [], nh')
        | (Inr (VResult _), nh') \<Rightarrow> (Panic ''a read has no proposal result'', w, [], nh')
        | (Inr (VRead v), nh') \<Rightarrow>
            (Ok (), Write (json_Marshal (JObj [(''query'', JStr key), (''results'', result_json v)]))
               (WriteHeader 200 (SetHeader ''Content-Type'' ''application/json'' w)), [], nh')))"

definition serve_post_swarm ::
    "('nh, 'a) nodehost_scheme \<Rightarrow> serve_env \<Rightarrow> 'nh \<Rightarrow> response \<Rightarrow> 'nh served" where
  "serve_post_swarm H env nh w = (case updateFromSwarm H (env_binding env) (env_docker env) False nh of
     (Ok (None, acts), nh') \<Rightarrow> (Ok (), Write [] (WriteHeader 200 w), acts, nh')
   | (Ok (Some e, acts), nh') \<Rightarrow> (Err e, w, acts, nh')
   | (Err e, nh') \<Rightarrow> (Err e, w, [], nh')
   | (Panic p, nh') \<Rightarrow> (Panic p, w, [], nh'))"

definition peer_key :: "string \<Rightarrow> string" where
  "peer_key binding = PEER_PREFIX @ binding @ NODE_POSTFIX"

text \<open>Joining: the replica the address had before is removed first.\<close>

definition join_prune :: "('nh, 'a) cluster_host_scheme \<Rightarrow> 'nh \<Rightarrow> ClusterStatus \<Rightarrow> unit outcome \<times> 'nh" where
  "join_prune H nh cs = (case execute H nh (get_action (peer_key (cs_Binding cs))) of
     (Inl e, nh1) \<Rightarrow> (Ok (), nh1)
   | (Inr (VRead (RBytes b)), nh1) \<Rightarrow>
       (if bytes_str (slice_bytes b) \<noteq> show_uint64 (cs_ReplicaID cs) then
          (case parse_uint64 (bytes_str (slice_bytes b)) of
             None \<Rightarrow> (Ok (), nh1)
           | Some oldnode \<Rightarrow>
               (case nh_RequestDeleteReplica H nh1 (cs_ShardID cs) oldnode of
                  (Some e, nh2) \<Rightarrow> (Err e, nh2) | (None, nh2) \<Rightarrow> (Ok (), nh2)))
        else (Ok (), nh1))
   | (Inr _, nh1) \<Rightarrow> (Panic ''interface conversion'', nh1))"

definition join_add :: "('nh, 'a) cluster_host_scheme \<Rightarrow> 'nh \<Rightarrow> ClusterStatus \<Rightarrow> unit outcome \<times> 'nh" where
  "join_add H nh cs = (case nh_RequestAddReplica H nh (cs_ShardID cs) (cs_ReplicaID cs) (cs_Binding cs @ KV_PORT) of
     (Inl e, nh1) \<Rightarrow> (Panic ''nil pointer dereference'', nh1)
   | (Inr (Some res), nh1) \<Rightarrow> (Err (Errorf (''Membership add failed '' @ res @ [CHR 0x0A])), nh1)
   | (Inr None, nh1) \<Rightarrow>
       (case execute H nh1 (put_action (peer_key (cs_Binding cs)) (Some (str_bytes (show_uint64 (cs_ReplicaID cs))))) of
          (Inl e, nh2) \<Rightarrow> (Err e, nh2) | (Inr _, nh2) \<Rightarrow> (Ok (), nh2)))"

definition serve_post_join ::
    "('nh, 'a) cluster_host_scheme \<Rightarrow> 'nh \<Rightarrow> response \<Rightarrow> http_request \<Rightarrow> 'nh served" where
  "serve_post_join H nh w r = (case rq_Body r of
     Inl e \<Rightarrow> (Err (Errorf ''Bad JS (body)''), w, [], nh)
   | Inr body \<Rightarrow>
       if length body > 0 then
         (case json_Unmarshal dec_ClusterStatus body zero_ClusterStatus of
            (_, False) \<Rightarrow> (Err (Errorf ''Bad request (data)''), w, [], nh)
          | (cs, True) \<Rightarrow>
              (case join_prune H nh cs of
                 (Ok _, nh1) \<Rightarrow>
                   (case join_add H nh1 cs of
                      (Ok _, nh2) \<Rightarrow> (Ok (), WriteHeader 200 w, [], nh2)
                    | (Err e, nh2) \<Rightarrow> (Err e, w, [], nh2)
                    | (Panic p, nh2) \<Rightarrow> (Panic p, w, [], nh2))
               | (Err e, nh1) \<Rightarrow> (Err e, w, [], nh1)
               | (Panic p, nh1) \<Rightarrow> (Panic p, w, [], nh1)))
       else (Err (Errorf ''Bad request (body)''), w, [], nh))"

definition serve ::
    "('nh, 'a) cluster_host_scheme \<Rightarrow> AppConfig \<Rightarrow> serve_env \<Rightarrow> 'nh \<Rightarrow> response \<Rightarrow> http_request \<Rightarrow> ServiceArgs \<Rightarrow> 'nh served" where
  "serve H cfg env nh w r s =
     (let t = sa_ServiceType s in
      if t = SERVE_POST_PERM then serve_post_perm H cfg env nh w r
      else if t = SERVE_GET_KV then serve_get_kv H nh w s
      else if t = SERVE_PUT_PERM then serve_put_perm H env nh w r
      else if t = SERVE_DELETE_PERM then serve_delete_perm H nh w s
      else if t = SERVE_PUT_KV then serve_put_kv H nh w r s
      else if t = SERVE_GET_KVS then serve_get_kvs H nh w s
      else if t = SERVE_POST_REMOVE then (Err (Errorf ''Remove not implemented''), w, [], nh)
      else if t = SERVE_POST_RESCUE then (Err (Errorf ''Rescue not implemented''), w, [], nh)
      else if t = SERVE_POST_SWARM then serve_post_swarm H env nh w
      else if t = SERVE_POST_JOIN then serve_post_join H nh w r
      else (Err (Errorf (''[ERROR] KV service not implemented '' @ show_int t)), w, [], nh))"

section \<open>The rest of the session interface\<close>

definition kv_close :: "error option" where
  "kv_close = Some (Errorf ''[ERROR] KV close not implemented'')"

definition kv_listen :: "error option" where
  "kv_listen = Some (Errorf ''[ERROR] KV listen not implemented'')"

definition kv_auth :: "ServiceArgs \<Rightarrow> error option" where
  "kv_auth s = Some (Errorf ''[ERROR] KV auth not implemented'')"

definition kv_write :: "int \<Rightarrow> error option" where
  "kv_write WriteType = Some (Errorf ''Could not write to any kv server in cluster'')"

section \<open>The contract of the host\<close>

text \<open>Changes of the membership do not touch the data of the state machine.\<close>

locale cluster_kv = raft_kv H sm for H :: "('nh, 'a) cluster_host_scheme" and sm :: "'nh \<Rightarrow> bytes \<rightharpoonup> bytes" +
  assumes delete_replica: "nh_RequestDeleteReplica H nh shard node = (e, nh') \<Longrightarrow> sm nh' = sm nh"
    and add_replica: "nh_RequestAddReplica H nh shard node addr = (r, nh') \<Longrightarrow> sm nh' = sm nh"
begin

lemma join_prune_sm:
  assumes "join_prune H nh cs = (r, nh')"
  shows "sm nh' = sm nh"
proof -
  obtain x nh1 where x: "execute H nh (get_action (peer_key (cs_Binding cs))) = (x, nh1)" by (rule prod.exhaust)
  have "nh1 = nh"
    using x execute_get [of nh "peer_key (cs_Binding cs)"] execute_failed [of nh "get_action (peer_key (cs_Binding cs))"]
    by (cases x) auto
  with x assms show ?thesis
    by (auto simp: join_prune_def delete_replica
        split: sum.splits exec_value.splits lookup_result.splits if_splits option.splits prod.splits dest: delete_replica)
qed

lemma join_add_Ok:
  assumes "join_add H nh cs = (Ok (), nh')"
  shows "wrote \<lparr>Key = peer_key (cs_Binding cs), Val = Some (str_bytes (show_uint64 (cs_ReplicaID cs)))\<rparr> (sm nh) (sm nh')
    \<and> (\<exists>nh1. nh_RequestAddReplica H nh (cs_ShardID cs) (cs_ReplicaID cs) (cs_Binding cs @ KV_PORT) = (Inr None, nh1))"
proof -
  obtain v nh1 where a: "nh_RequestAddReplica H nh (cs_ShardID cs) (cs_ReplicaID cs) (cs_Binding cs @ KV_PORT) = (Inr None, nh1)"
    and p: "execute H nh1 (put_action (peer_key (cs_Binding cs)) (Some (str_bytes (show_uint64 (cs_ReplicaID cs))))) = (Inr v, nh')"
    using assms by (auto simp: join_add_def split: prod.splits sum.splits option.splits)
  from execute_put [OF p] add_replica [OF a] a show ?thesis by simp
qed

end

text \<open>The cluster of one node grants every change.\<close>

definition single_cluster :: "('db, 'a) pebble_scheme \<Rightarrow> 'db replica cluster_host" where
  "single_cluster P = \<lparr>nh_SyncRead = single_read P, nh_SyncPropose = single_propose P,
     nh_RequestDeleteReplica = (\<lambda>nh shard node. (None, nh)), nh_RequestAddReplica = (\<lambda>nh shard node addr. (Inr None, nh))\<rparr>"

lemma single_cluster_ops [simp]:
  "nh_SyncRead (single_cluster P) = single_read P" "nh_SyncPropose (single_cluster P) = single_propose P"
  "nh_RequestDeleteReplica (single_cluster P) nh shard node = (None, nh)"
  "nh_RequestAddReplica (single_cluster P) nh shard node addr = (Inr None, nh)"
  by (simp_all add: single_cluster_def)

lemma single_cluster_host:
  "execute (single_cluster P) = execute (single_host P)" "accepts (single_cluster P) = accepts (single_host P)"
proof -
  show "execute (single_cluster P) = execute (single_host P)"
    by (intro ext) (simp only: execute_def single_cluster_ops single_host_ops)
  have "accepts (single_cluster P) n nh = accepts (single_host P) n nh" for n nh by (induction n arbitrary: nh) simp_all
  then show "accepts (single_cluster P) = accepts (single_host P)" by (simp add: fun_eq_iff)
qed

sublocale pebble_db \<subseteq> cluster: cluster_kv "single_cluster P" "host_map P"
  by unfold_locales
    (use single.read_answers single.propose_done single.propose_failed in auto)

interpretation cluster: cluster_kv "single_cluster ref_pebble" "host_map ref_pebble"
  by (rule refdb.cluster.cluster_kv_axioms)

section \<open>Properties\<close>

lemma serve_cases:
  "sa_ServiceType s = SERVE_GET_KV \<Longrightarrow> serve H cfg env nh w r s = serve_get_kv H nh w s"
  "sa_ServiceType s = SERVE_PUT_KV \<Longrightarrow> serve H cfg env nh w r s = serve_put_kv H nh w r s"
  "sa_ServiceType s = SERVE_GET_KVS \<Longrightarrow> serve H cfg env nh w r s = serve_get_kvs H nh w s"
  "sa_ServiceType s = SERVE_POST_JOIN \<Longrightarrow> serve H cfg env nh w r s = serve_post_join H nh w r"
  "sa_ServiceType s = SERVE_POST_SWARM \<Longrightarrow> serve H cfg env nh w r s = serve_post_swarm H env nh w"
  "sa_ServiceType s = SERVE_POST_PERM \<Longrightarrow> serve H cfg env nh w r s = serve_post_perm H cfg env nh w r"
  "sa_ServiceType s = SERVE_PUT_PERM \<Longrightarrow> serve H cfg env nh w r s = serve_put_perm H env nh w r"
  "sa_ServiceType s = SERVE_DELETE_PERM \<Longrightarrow> serve H cfg env nh w r s = serve_delete_perm H nh w s"
  by (simp_all add: serve_def Let_def)

lemma serve_put_Ok:
  assumes "serve_put_kv H nh w r s = (Ok (), w', acts, nh')"
  shows "\<exists>data key v. rq_Body r = Inr data \<and> svalue s ''key'' = Some key \<and> execute H nh (put_action key (Some data)) = (Inr v, nh')
    \<and> w_body w' = w_body w @ json_Marshal (JObj [(''ok'', JBool True)])"
  using assms by (auto simp: serve_put_kv_def split: sum.splits option.splits prod.splits)

lemma serve_get_Ok:
  assumes "serve_get_kv H nh w s = (Ok (), w', acts, nh')"
  shows "\<exists>key b. svalue s ''key'' = Some key \<and> execute H nh (get_action key) = (Inr (VRead (RBytes b)), nh')
    \<and> w' = Write (slice_bytes b) (WriteHeader 200 w)"
  using assms
  by (auto simp: serve_get_kv_def split: sum.splits option.splits prod.splits exec_value.splits lookup_result.splits)

lemma serve_kvs_Ok:
  assumes "serve_get_kvs H nh w s = (Ok (), w', acts, nh')"
  shows "\<exists>key v. svalue s ''key'' = Some key \<and> execute H nh (scan_action (kvs_key key)) = (Inr (VRead v), nh')
    \<and> w' = Write (json_Marshal (JObj [(''query'', JStr (kvs_key key)), (''results'', result_json v)]))
        (WriteHeader 200 (SetHeader ''Content-Type'' ''application/json'' w))"
  using assms
  by (auto simp: serve_get_kvs_def Let_def split: sum.splits option.splits prod.splits exec_value.splits)

abbreviation key_args :: "int \<Rightarrow> string \<Rightarrow> ServiceArgs" where
  "key_args t k \<equiv> \<lparr>sa_ServiceType = t, sa_Values = Some [''key'' \<mapsto> k]\<rparr>"

text \<open>
  What is put under a key is got back: after a PUT of a body the service answers a GET of that key
  with status 200 and exactly the bytes of the body, and the GET changes nothing.
\<close>

lemma serve_put_get:
  assumes "cluster_kv H sm" "utf8_ok k" "k \<noteq> appliedIndexKey"
    and "serve H cfg env nh w r (key_args SERVE_PUT_KV k) = (Ok (), w1, acts1, nh1)" "rq_Body r = Inr data"
    and "serve H cfg env' nh1 w0 r' (key_args SERVE_GET_KV k) = (Ok (), w2, acts2, nh2)" "status w0 = None" "w_body w0 = []"
  shows "status w2 = Some 200 \<and> w_body w2 = data \<and> nh2 = nh1"
proof -
  have raft: "raft_kv H sm" using assms(1) by (rule cluster_kv.axioms)
  obtain v where "execute H nh (put_action k (Some data)) = (Inr v, nh1)"
    using serve_put_Ok [of H nh w r "key_args SERVE_PUT_KV k"] assms(4,5) by (auto simp: serve_cases svalue_def)
  from raft_kv.execute_put [OF raft this] have "wrote \<lparr>Key = k, Val = Some data\<rparr> (sm nh) (sm nh1)" ..
  from wrote_same [OF this] have stored: "sm nh1 (str_bytes k) = Some data" using assms(2,3) by simp
  obtain b where b: "execute H nh1 (get_action k) = (Inr (VRead (RBytes b)), nh2)" "w2 = Write (slice_bytes b) (WriteHeader 200 w0)"
    using serve_get_Ok [of H nh1 w0 "key_args SERVE_GET_KV k"] assms(6) by (auto simp: serve_cases svalue_def)
  with raft_kv.execute_get [OF raft b(1)] stored assms(7,8) show ?thesis
    by (simp add: status_Write status_WriteHeader)
qed

definition example_env :: serve_env where
  "example_env = \<lparr>env_now = 100, env_rnd = ''r'', env_docker = example_docker, env_binding = ''10.0.0.1'', env_json_error = (\<lambda>_. ''bad'')\<rparr>"

definition body_request :: "bytes \<Rightarrow> http_request" where
  "body_request b = \<lparr>rq_Method = ''PUT'', rq_Host = ''h'', rq_RemoteAddr = ''1.2.3.4:5'', rq_TLS = False, rq_Header = (\<lambda>_. []), rq_Body = Inr b\<rparr>"

text \<open>Both requests succeed on the cluster of one node.\<close>

lemma example_put_get:
  assumes "status w = None"
  obtains w1 nh1 w2 where
    "serve (single_cluster ref_pebble) cfg env (example_host []) w (body_request data) (key_args SERVE_PUT_KV ''a'') = (Ok (), w1, [], nh1)"
    "serve (single_cluster ref_pebble) cfg env nh1 w r' (key_args SERVE_GET_KV ''a'') = (Ok (), w2, [], nh1)"
    "status w1 = Some 200" "status w2 = Some 200"
proof -
  let ?H = "single_cluster ref_pebble"
  obtain r nh1 c where p: "execute ?H (example_host []) (put_action ''a'' (Some data)) = (Inr (VResult r), nh1)" "live nh1 = Some c"
    unfolding single_cluster_host using single_execute_put [OF example_host_simps(1), of "[]" "''a''" "Some data"] by auto
  have "\<exists>w1. serve ?H cfg env (example_host []) w (body_request data) (key_args SERVE_PUT_KV ''a'') = (Ok (), w1, [], nh1) \<and> status w1 = Some 200"
    using p(1) assms by (simp add: serve_cases serve_put_kv_def body_request_def svalue_def status_Write status_WriteHeader)
  moreover have "\<exists>w2. serve ?H cfg env nh1 w r' (key_args SERVE_GET_KV ''a'') = (Ok (), w2, [], nh1) \<and> status w2 = Some 200"
    using single_execute_get [OF p(2), of "''a''"] assms
    by (simp add: serve_cases serve_get_kv_def svalue_def single_cluster_host status_Write status_WriteHeader)
  ultimately show thesis using that by blast
qed

text \<open>
  A listing returns the pairs with the prefix: the answer to \<open>/kvs\<close> is a JSON object with the
  query, without a leading slash, and under \<open>results\<close> exactly the stored pairs whose key starts with
  it, sorted by key and with the values in base64.
\<close>

theorem serve_listing:
  assumes "cluster_kv H sm"
    and "serve H cfg env nh new_response r (key_args SERVE_GET_KVS k) = (Ok (), w, acts, nh')"
  shows "nh' = nh \<and> status w = Some 200 \<and>
    (\<exists>ps. sorted (map (str_bytes \<circ> fst) ps) \<and> distinct (map fst ps) \<and> map_of ps = map_scan (sm nh) (kvs_key k)
       \<and> w_body w = json_Marshal (JObj [(''query'', JStr (kvs_key k)), (''results'', JObj (map (\<lambda>(k, v). (k, slice_json v)) ps))]))"
proof -
  have raft: "raft_kv H sm" using assms(1) by (rule cluster_kv.axioms)
  obtain v where v: "execute H nh (scan_action (kvs_key k)) = (Inr (VRead v), nh')"
    "w = Write (json_Marshal (JObj [(''query'', JStr (kvs_key k)), (''results'', result_json v)]))
       (WriteHeader 200 (SetHeader ''Content-Type'' ''application/json'' new_response))"
    using serve_kvs_Ok [of H nh new_response "key_args SERVE_GET_KVS k"] assms(2) by (auto simp: serve_cases svalue_def)
  obtain r where r: "v = RMap r" "distinct (map fst r)" "map_of r = map_scan (sm nh) (kvs_key k)" "nh' = nh"
    using raft_kv.execute_scan [OF raft v(1)] by auto
  let ?ps = "sort_key (str_bytes \<circ> fst) r"
  have "map_of ?ps = map_of r"
    using r(2) by (subst map_of_inject_set) (simp_all add: distinct_map distinct_sort)
  moreover have "distinct (map fst ?ps)" using r(2) by (simp add: distinct_map distinct_sort)
  moreover have "sorted (map (str_bytes \<circ> fst) ?ps)" by (rule sorted_sort_key)
  ultimately show ?thesis
    using v(2) r
    by (intro conjI exI [of _ ?ps]) (simp_all add: status_Write status_WriteHeader result_json_def gomap_json_def)
qed

theorem serve_listing_witness:
  "\<exists>w ps. serve (single_cluster ref_pebble) example_config example_env (example_host [(str_bytes ''ab'', [1]), (str_bytes ''b'', [2])])
      new_response (body_request []) (key_args SERVE_GET_KVS ''/a'') = (Ok (), w, [], example_host [(str_bytes ''ab'', [1]), (str_bytes ''b'', [2])])
    \<and> map_of ps ''ab'' = Some (Some [1]) \<and> map_of ps ''b'' = None
    \<and> w_body w = json_Marshal (JObj [(''query'', JStr ''a''), (''results'', JObj (map (\<lambda>(k, v). (k, slice_json v)) ps))])"
proof -
  let ?s = "example_host [(str_bytes ''ab'', [1]), (str_bytes ''b'', [2])]"
  obtain r where "single_read ref_pebble ?s (QAction (Some (scan_action ''a''))) = Inr (RMap r)"
    using single_read_scan_action [OF example_host_simps(1)] by fastforce
  then obtain w where w: "serve (single_cluster ref_pebble) example_config example_env ?s new_response (body_request [])
      (key_args SERVE_GET_KVS ''/a'') = (Ok (), w, [], ?s)"
    by (simp add: serve_cases serve_get_kvs_def svalue_def kvs_key_def execute_def)
  obtain ps where ps: "map_of ps = map_scan (host_map ref_pebble ?s) (kvs_key ''/a'')"
    "w_body w = json_Marshal (JObj [(''query'', JStr (kvs_key ''/a'')), (''results'', JObj (map (\<lambda>(k, v). (k, slice_json v)) ps))])"
    using serve_listing [OF refdb.cluster.cluster_kv_axioms w] by blast
  have q: "kvs_key ''/a'' = ''a''" by (simp add: kvs_key_def)
  have "map_of ps ''ab'' = Some (Some [1])" "map_of ps ''b'' = None"
    unfolding ps(1) q by (simp_all add: map_scan_def)
  with w ps(2) q show ?thesis by auto
qed


text \<open>A request as a client sends it.\<close>

definition TypedString_json :: "TypedString \<Rightarrow> json" where
  "TypedString_json t = JObj [(''Val'', JStr (ts_Val t)), (''Rune'', JNum (show_int (ts_Rune t)))]"

definition Request_json :: "Request \<Rightarrow> json" where
  "Request_json q = JObj [(''User'', TypedString_json (r_User q)), (''Entities'', JArr (map TypedString_json (r_Entities q))),
     (''Resource'', TypedString_json (r_Resource q)), (''Action'', TypedString_json (r_Action q)), (''Right'', slice_json (r_Right q))]"

definition text_ok :: "TypedString \<Rightarrow> bool" where
  "text_ok t \<longleftrightarrow> utf8_ok (ts_Val t) \<and> - (2 ^ 31) \<le> ts_Rune t \<and> ts_Rune t < 2 ^ 31"

definition request_ok :: "Request \<Rightarrow> bool" where
  "request_ok q \<longleftrightarrow> text_ok (r_User q) \<and> list_all text_ok (r_Entities q) \<and> text_ok (r_Resource q) \<and> text_ok (r_Action q)"

lemma fold_name_request [simp]:
  "fold_name ''User'' = ''USER''" "fold_name ''Entities'' = ''ENTITIES''" "fold_name ''Resource'' = ''RESOURCE''"
  "fold_name ''Right'' = ''RIGHT''" "fold_name ''Rune'' = ''RUNE''"
  by code_simp+

lemma utf8_coerce_request [simp]:
  "utf8_coerce ''User'' = ''User''" "utf8_coerce ''Entities'' = ''Entities''" "utf8_coerce ''Resource'' = ''Resource''"
  "utf8_coerce ''Right'' = ''Right''" "utf8_coerce ''Rune'' = ''Rune''"
  by (simp_all add: utf8_ok_ascii [unfolded utf8_ok_def is_ascii_def])

lemma json_ints_TypedString: "json_ints (TypedString_json t)"
  by (auto simp: TypedString_json_def)

lemma dec_TypedString_json:
  assumes "text_ok t"
  shows "dec_TypedString old (json_coerce (TypedString_json t)) = (t, True)"
proof -
  have "parse_int64 (show_int (ts_Rune t)) = Some (ts_Rune t)"
    using assms by (intro parse_int64_show) (auto simp: text_ok_def)
  then show ?thesis
    using assms by (simp add: TypedString_json_def dec_TypedString_def dec_struct_def dec_field_def dec_string_def
        dec_rune_def utf8_ok_def text_ok_def)
qed

text \<open>A request is decoded as it was sent.\<close>

lemma decode_Request:
  assumes "request_ok q"
  shows "json_Unmarshal (dec_ptr zero_Request dec_Request) (json_Marshal (Request_json q)) (Some zero_Request) = (Some q, True)"
proof -
  note dec = dec_TypedString_json
  have es: "map (fst \<circ> dec_TypedString zero_TypedString) (map json_coerce (map TypedString_json (r_Entities q))) = r_Entities q"
    "list_all (snd \<circ> dec_TypedString zero_TypedString) (map json_coerce (map TypedString_json (r_Entities q)))"
    using assms dec by (simp_all add: request_ok_def list_all_iff map_idI)
  have "json_ints (Request_json q)" by (auto simp: Request_json_def json_ints_TypedString)
  moreover have "dec_Request zero_Request (json_coerce (Request_json q)) = (q, True)"
    using assms es dec
    by (simp add: Request_json_def dec_Request_def dec_struct_def dec_field_def dec_list_def zero_Request_def request_ok_def
        del: map_map)
  moreover have "json_coerce (Request_json q) \<noteq> JNull" by (simp add: Request_json_def)
  ultimately show ?thesis by (cases "json_coerce (Request_json q)") (simp_all add: Unmarshal_Marshal dec_ptr_def)
qed

lemma example_request_ok: "request_ok example_request"
  by (simp add: request_ok_def text_ok_def example_request_def zero_TypedString_def utf8_ok_ascii is_ascii_def)

lemma holds_cache [simp]: "holds (cfg\<lparr>CacheSeconds := n\<rparr>) = holds cfg"
  by (simp add: fun_eq_iff holds_def grants_def split: option.split)


text \<open>
  A \<open>null\<close> body crashes the permission requests: it makes the decoded pointer nil, and using it
  panics. Nothing is written before that.
\<close>

theorem serve_null_panics:
  assumes "rq_Body r = Inr data" "json_parse (bytes_str data) = Some JNull"
    and "sa_ServiceType s = SERVE_POST_PERM \<or> sa_ServiceType s = SERVE_PUT_PERM"
  shows "serve H cfg env nh w r s = (Panic ''nil pointer dereference'', w, [], nh)"
  using assms by (auto simp: serve_cases serve_post_perm_def serve_put_perm_def json_Unmarshal_def dec_ptr_def)

theorem serve_null_panics_witness:
  "serve (single_cluster ref_pebble) example_config example_env (example_host []) new_response
     (body_request (str_bytes ''null'')) \<lparr>sa_ServiceType = SERVE_PUT_PERM, sa_Values = None\<rparr>
   = (Panic ''nil pointer dereference'', new_response, [], example_host [])"
proof -
  have "json_parse ''null'' = Some JNull"
    by (simp add: json_parse_def skip_ws_def is_ws_def strip_prefix_def numeral_eq_Suc)
  then have "json_parse (bytes_str (str_bytes ''null'')) = Some JNull" by (simp only: bytes_str_str_bytes)
  then show ?thesis by (intro serve_null_panics [of _ "str_bytes ''null''"]) (simp_all add: body_request_def)
qed

end
