(* ===== verification/Client_Address.thy ===== *)
theory Client_Address
  imports Go_Http
begin

text \<open>
  Addresses of clients and hosts (\<open>utils.go\<close>): \<open>getIP\<close>, which keys the request counts and is shown in
  the status, \<open>cleanIP\<close>, \<open>getHost\<close>, \<open>getMyIPs\<close> with \<open>getIPsString\<close>, and the small helpers \<open>Contains\<close>,
  \<open>hash\<close> and \<open>randString\<close>. The network interfaces and the random numbers are arguments.
\<close>

section \<open>Client addresses\<close>

text \<open>The loop of \<open>cleanIP\<close> from the last part to the first.\<close>

fun clean_loop :: "string list \<Rightarrow> string" where
  "clean_loop [] = []"
| "clean_loop (p # ps) = (case ParseIP (trim_space p) of Some a \<Rightarrow> ip_String a | None \<Rightarrow> clean_loop ps)"

definition cleanIP :: "string \<Rightarrow> string" where
  "cleanIP ip = clean_loop (rev (split_on (CHR '','') ip))"

definition getIP :: "http_request \<Rightarrow> string" where
  "getIP r =
     (let ip = header_get (rq_Header r) ''X-Forwarded-For'';
          ip = (if ip = [] then (case SplitHostPort (rq_RemoteAddr r) of
                  Some (host, port) \<Rightarrow> host | None \<Rightarrow> rq_RemoteAddr r) else ip)
      in cleanIP ip)"

definition getHost :: "http_request \<Rightarrow> string" where
  "getHost r = (case SplitHostPort (rq_Host r) of None \<Rightarrow> rq_Host r | Some (addr, port) \<Rightarrow> addr)"

section \<open>Own addresses\<close>

text \<open>An interface answers with an error or its addresses; an address that is no IP address is \<open>None\<close>.\<close>

fun add_addrs :: "bool \<Rightarrow> ip option list \<Rightarrow> ip list \<Rightarrow> ip list" where
  "add_addrs filterIPv4 [] ips = ips"
| "add_addrs filterIPv4 (a # as) ips =
     add_addrs filterIPv4 as (case a of None \<Rightarrow> ips
       | Some ip \<Rightarrow> if filterIPv4 \<and> To4 ip \<noteq> None then ips @ [ip] else ips)"

fun scan_ifaces :: "bool \<Rightarrow> (error + ip option list) list \<Rightarrow> ip list \<Rightarrow> error + ip list" where
  "scan_ifaces filterIPv4 [] ips = Inr ips"
| "scan_ifaces filterIPv4 (i # is) ips = (case i of
     Inl e \<Rightarrow> Inl e | Inr addrs \<Rightarrow> scan_ifaces filterIPv4 is (add_addrs filterIPv4 addrs ips))"

definition getMyIPs :: "error + (error + ip option list) list \<Rightarrow> bool \<Rightarrow> error + ip list" where
  "getMyIPs ifaces filterIPv4 = (case ifaces of Inl e \<Rightarrow> Inl e | Inr is \<Rightarrow> scan_ifaces filterIPv4 is [])"

definition getIPsString :: "ip list \<Rightarrow> string list" where
  "getIPsString ips = map ip_String ips"

section \<open>Helpers\<close>

fun Contains :: "'a list \<Rightarrow> 'a \<Rightarrow> bool" where
  "Contains [] e = False"
| "Contains (v # s) e = (if v = e then True else Contains s e)"

text \<open>FNV-1a, 32 bits.\<close>

definition hash :: "string \<Rightarrow> 32 word" where
  "hash s = foldl (\<lambda>h c. (h XOR of_char c) * 16777619) 2166136261 s"

definition letterBytes :: string where
  "letterBytes = ''abcdefghijklmnopqrstuvwxyz0123456789''"

text \<open>\<open>randString\<close> with the numbers \<open>rand.Intn\<close> returns.\<close>

definition randString :: "nat list \<Rightarrow> string" where
  "randString rs = map (\<lambda>n. letterBytes ! n) rs"

section \<open>Properties of addresses\<close>

lemma Contains_set: "Contains s e \<longleftrightarrow> e \<in> set s"
  by (induction s) auto

lemma randString_ascii: "list_all (\<lambda>n. n < length letterBytes) rs \<Longrightarrow> is_ascii (randString rs)"
proof -
  have "list_all (\<lambda>c. byte_at c < 128) letterBytes" by (simp add: letterBytes_def)
  then show "list_all (\<lambda>n. n < length letterBytes) rs \<Longrightarrow> is_ascii (randString rs)"
    by (auto simp: is_ascii_def randString_def list_all_iff)
qed

lemma show_nat_no_dot: "c \<in> set (show_nat n) \<Longrightarrow> is_digit c"
  using show_nat_digits [of n] by (auto simp: list_all_iff)

definition octets :: "nat list \<Rightarrow> bool" where
  "octets os \<longleftrightarrow> length os = 4 \<and> list_all (\<lambda>n. n \<le> 255) os"

lemma split_join:
  "ps \<noteq> [] \<Longrightarrow> \<forall>p\<in>set ps. d \<notin> set p \<Longrightarrow> split_on d (join_with d ps) = ps"
proof (induction ps rule: list_nonempty_induct)
  case (cons p ps)
  have "join_with d (p # ps) = p @ d # join_with d ps"
    using cons.hyps by (cases ps) (auto simp: join_with_def)
  with cons show ?case by (simp add: split_on_append_sep)
qed (simp add: join_with_def split_on_no_sep)

lemma octet_ok_show: "n \<le> 255 \<Longrightarrow> octet_ok (show_nat n)"
proof -
  assume "n \<le> 255"
  moreover have "length (show_nat 0) = 1" by (simp add: show_nat.simps)
  ultimately show ?thesis
    using hd_show_nat [of n] by (cases "n = 0") (simp_all add: octet_ok_def show_nat_digits)
qed

lemma is_digit_neq: "is_digit c \<Longrightarrow> c \<notin> {CHR ''.'', CHR '':'', CHR ''%'', CHR '',''}"
  by (auto simp: is_digit_def)

lemma ipv4_parts:
  assumes "octets os"
  shows "\<forall>p\<in>set (map show_nat os). CHR ''.'' \<notin> set p \<and> CHR '':'' \<notin> set p \<and> CHR ''%'' \<notin> set p \<and> CHR '','' \<notin> set p"
  using show_nat_no_dot is_digit_neq by fastforce

lemma parse_ipv4_join:
  assumes "octets os"
  shows "parse_ipv4 (join_with (CHR ''.'') (map show_nat os)) = Some os"
proof -
  have "split_on (CHR ''.'') (join_with (CHR ''.'') (map show_nat os)) = map show_nat os"
    using assms ipv4_parts [OF assms] by (intro split_join) (auto simp: octets_def)
  then show ?thesis using assms by (auto simp: parse_ipv4_def Let_def octets_def list_all_iff octet_ok_show o_def)
qed

lemma ip_String_v4:
  assumes "octets os"
  shows "\<exists>a b c d. ip_String (IPv4 os) = show_nat a @ ''.'' @ show_nat b @ ''.'' @ show_nat c @ ''.'' @ show_nat d"
proof -
  obtain a b c d where "os = [a, b, c, d]"
    using assms by (auto simp: octets_def length_Suc_conv numeral_eq_Suc)
  then show ?thesis by (auto simp: ip_String_def To4_def join_with_def)
qed

lemma ParseIP_String: 
  assumes "octets os"
  shows "ParseIP (ip_String (IPv4 os)) = Some (IPv4 os)"
proof -
  let ?s = "join_with (CHR ''.'') (map show_nat os)"
  have s: "ip_String (IPv4 os) = ?s" by (simp add: ip_String_def To4_def)
  have chars: "c \<in> set ?s \<Longrightarrow> c = CHR ''.'' \<or> is_digit c" for c
    using show_nat_no_dot ip_String_v4 [OF assms] unfolding s by fastforce
  have dot: "CHR ''.'' \<in> set ?s"
    using ip_String_v4 [OF assms] unfolding s by fastforce
  have "find (\<lambda>c. c = CHR ''.'' \<or> c = CHR '':'') ?s \<noteq> None"
    unfolding find_None_iff using dot by blast
  then obtain c where c: "find (\<lambda>c. c = CHR ''.'' \<or> c = CHR '':'') ?s = Some c" by blast
  then have "c \<in> set ?s" "c = CHR ''.'' \<or> c = CHR '':''"
    by (auto simp: find_Some_iff in_set_conv_nth)
  then have "c = CHR ''.''" using chars [of c] is_digit_neq [of c] by auto
  moreover have "CHR ''%'' \<notin> set ?s" using chars is_digit_neq by fastforce
  ultimately show ?thesis unfolding s using c parse_ipv4_join [OF assms] by (simp add: ParseIP_def)
qed

lemma plain_digit: "is_digit c \<Longrightarrow> plain_edge c"
  by (auto simp: is_digit_def plain_edge_def)

lemma trim_ip: "octets os \<Longrightarrow> trim_space (ip_String (IPv4 os)) = ip_String (IPv4 os)"
proof -
  assume "octets os"
  then obtain a b c d where s: "ip_String (IPv4 os) = show_nat a @ ''.'' @ show_nat b @ ''.'' @ show_nat c @ ''.'' @ show_nat d"
    using ip_String_v4 by blast
  have "is_digit (hd (show_nat n))" "is_digit (last (show_nat n))" for n
    using show_nat_no_dot [OF hd_in_set] show_nat_no_dot [OF last_in_set] by simp_all
  then show ?thesis unfolding s by (intro trim_space_id) (simp_all add: plain_digit)
qed

text \<open>The last part of a list of addresses is the one that counts, if it is an address.\<close>

lemma cleanIP_last:
  assumes "octets os" "ip = ip_String (IPv4 os) \<or> (\<exists>pre. ip = pre @ '','' @ ip_String (IPv4 os))"
  shows "cleanIP ip = ip_String (IPv4 os)"
proof -
  have c: "CHR '','' \<notin> set (ip_String (IPv4 os))"
    using assms(1) ipv4_parts [OF assms(1)] by (auto simp: ip_String_def To4_def join_with_def split: list.splits)
  have "\<exists>ps. split_on (CHR '','') ip = ps @ [ip_String (IPv4 os)]"
    using assms(2)
  proof (elim disjE exE)
    fix pre assume ip: "ip = pre @ '','' @ ip_String (IPv4 os)"
    show ?thesis unfolding ip
    proof (induction pre)
      case Nil
      then show ?case using c by (simp add: split_on_no_sep)
    next
      case (Cons x pre)
      then obtain ps where ps: "split_on (CHR '','') (pre @ '','' @ ip_String (IPv4 os)) = ps @ [ip_String (IPv4 os)]" by blast
      moreover have "ps \<noteq> []"
      proof
        assume "ps = []"
        with ps have "join_with (CHR '','') [ip_String (IPv4 os)] = pre @ '','' @ ip_String (IPv4 os)" by (metis append_Nil join_split)
        then have "length (ip_String (IPv4 os)) = length (pre @ '','' @ ip_String (IPv4 os))" by (simp add: join_with_def)
        then show False by simp
      qed
      ultimately show ?case by (cases ps) auto
    qed
  qed (use c in \<open>simp add: split_on_no_sep\<close>)
  then show ?thesis
    using trim_ip [OF assms(1)] ParseIP_String [OF assms(1)] by (auto simp: cleanIP_def)
qed

end
