(* ===== verification/Api_Server.thy ===== *)
theory Api_Server
  imports Kv_Serve Client_Address
begin

text \<open>
  The API of \<open>roo.go\<close>: the handlers on port 6299, \<open>serveWithArgs\<close>, and the connection slots. A slot is
  a token of the channel \<open>connc\<close>; \<open>connc\<close> below is the number of tokens in it. A handler that panics
  ends there (\<open>net/http\<close> recovers and drops the connection), so a token it holds is not put back.
  A handler that returns without writing anything sends status 200 with an empty body (\<open>finish\<close>).

  The router is outside of the repository: a handler gets the variables it extracted from the path.
\<close>

section \<open>Configuration\<close>

record Configuration = AppConfig +
  ApiVersionString :: string
  AllowOrigin :: string
  MaximumConnections :: int
  CheckHostnames :: bool
  ProxyDailyLimit :: uint64
  IgnoreProxyOptions :: bool
  ProxyForceJson :: bool

record Cluster =
  cl_Binding :: string
  cl_ReplicaID :: uint64
  cl_ShardID :: uint64
  cl_Hosts :: "string list option"
  cl_Instantiated :: int
  cl_Started :: int

abbreviation app_config :: "'a AppConfig_scheme \<Rightarrow> AppConfig" where
  "app_config cfg \<equiv> \<lparr>CacheSeconds = CacheSeconds cfg, PermissionCheckExact = PermissionCheckExact cfg,
     AuthorizeSubpaths = AuthorizeSubpaths cfg\<rparr>"

section \<open>Handlers\<close>

text \<open>What the client receives when the handler returns.\<close>

definition finish :: "response \<Rightarrow> response" where
  "finish w = WriteHeader 200 w"

definition preflight :: "string \<Rightarrow> response \<Rightarrow> response" where
  "preflight origin w =
     WriteHeader 200
       (SetHeader ''access-control-max-age'' ''1728000''
         (SetHeader ''access-control-allow-methods'' ''GET,POST,HEAD,PUT,DELETE''
           (SetHeader ''access-control-allow-headers'' ''Authorization,Accept,X-CSRFToken,User,Content-Type,Header''
             (SetHeader ''access-control-allow-credentials'' ''true''
               (SetHeader ''access-control-allow-origin'' origin w)))))"

definition api_options :: "Configuration \<Rightarrow> response \<Rightarrow> response" where
  "api_options cfg w = preflight (AllowOrigin cfg) w"

definition api_ping :: "Configuration \<Rightarrow> response \<Rightarrow> response" where
  "api_ping cfg w =
     Write (str_bytes ''PONG'') (SetHeader ''access-control-allow-origin'' (AllowOrigin cfg) (WriteHeader 200 w))"

definition cluster_status :: "Configuration \<Rightarrow> Cluster \<Rightarrow> nat \<Rightarrow> http_request \<Rightarrow> ClusterStatus" where
  "cluster_status cfg cl connc r = \<lparr>cs_Client = getIP r, cs_Binding = cl_Binding cl,
     cs_Conns = MaximumConnections cfg - int connc, cs_ReplicaID = cl_ReplicaID cl, cs_ShardID = cl_ShardID cl,
     cs_Hosts = cl_Hosts cl, cs_Instantiated = cl_Instantiated cl, cs_Started = cl_Started cl\<rparr>"

definition api_status :: "Configuration \<Rightarrow> Cluster \<Rightarrow> nat \<Rightarrow> response \<Rightarrow> http_request \<Rightarrow> response" where
  "api_status cfg cl connc w r =
     Write (json_Marshal (ClusterStatus_json (cluster_status cfg cl connc r)))
       (SetHeader ''Content-Type'' ''application/json''
         (SetHeader ''access-control-allow-origin'' (AllowOrigin cfg) (WriteHeader 200 w)))"

text \<open>\<open>session\<close> says whether the API service has been connected.\<close>

definition serveWithArgs ::
    "('nh, 'a) cluster_host_scheme \<Rightarrow> Configuration \<Rightarrow> serve_env \<Rightarrow> bool \<Rightarrow> 'nh \<Rightarrow> response \<Rightarrow> http_request
      \<Rightarrow> ServiceArgs \<Rightarrow> 'nh served" where
  "serveWithArgs H cfg env session nh w r args =
     (if session then serve H (app_config cfg) env nh w r args else (Ok (), w, [], nh))"

text \<open>The reply to an error, and the reply when no token is left.\<close>

definition bad_request :: "error \<Rightarrow> response \<Rightarrow> response" where
  "bad_request e w = Write (str_bytes (err_text e)) (WriteHeader 400 w)"

definition no_slot :: "response \<Rightarrow> response" where
  "no_slot w = http_Error ''Maximum clients reached on this node.'' 503 (SetHeader ''Retry-After'' ''1'' w)"

text \<open>
  The common form of the handlers that take a token: whether it panicked, the tokens afterwards, the
  response, the writes of a goroutine and the state.
\<close>

type_synonym 'nh handled = "unit outcome \<times> nat \<times> response \<times> KVAction list \<times> 'nh"

definition with_slot ::
    "('nh, 'a) cluster_host_scheme \<Rightarrow> Configuration \<Rightarrow> serve_env \<Rightarrow> bool \<Rightarrow> ServiceArgs \<Rightarrow> nat \<Rightarrow> 'nh \<Rightarrow> response
      \<Rightarrow> http_request \<Rightarrow> 'nh handled" where
  "with_slot H cfg env session args connc nh w r =
     (if connc > 0 then
        (case serveWithArgs H cfg env session nh (SetHeader ''access-control-allow-origin'' (AllowOrigin cfg) w) r args of
           (Ok _, w', acts, nh') \<Rightarrow> (Ok (), connc - 1 + 1, w', acts, nh')
         | (Err e, w', acts, nh') \<Rightarrow> (Ok (), connc - 1 + 1, bad_request e w', acts, nh')
         | (Panic p, w', acts, nh') \<Rightarrow> (Panic p, connc - 1, w', acts, nh'))
      else (Ok (), connc, no_slot w, [], nh))"

definition api_join where
  "api_join H cfg env session params = with_slot H cfg env session \<lparr>sa_ServiceType = SERVE_POST_JOIN, sa_Values = Some params\<rparr>"

definition api_remove where
  "api_remove H cfg env session params = with_slot H cfg env session \<lparr>sa_ServiceType = SERVE_POST_REMOVE, sa_Values = Some params\<rparr>"

definition api_rescue where
  "api_rescue H cfg env session params = with_slot H cfg env session \<lparr>sa_ServiceType = SERVE_POST_RESCUE, sa_Values = Some params\<rparr>"

definition api_kvs where
  "api_kvs H cfg env session params = with_slot H cfg env session \<lparr>sa_ServiceType = SERVE_GET_KVS, sa_Values = Some params\<rparr>"

definition api_get_kv where
  "api_get_kv H cfg env session params = with_slot H cfg env session \<lparr>sa_ServiceType = SERVE_GET_KV, sa_Values = Some params\<rparr>"

definition api_put_kv where
  "api_put_kv H cfg env session params = with_slot H cfg env session \<lparr>sa_ServiceType = SERVE_PUT_KV, sa_Values = Some params\<rparr>"

definition api_put_perm where
  "api_put_perm H cfg env session = with_slot H cfg env session \<lparr>sa_ServiceType = SERVE_PUT_PERM, sa_Values = None\<rparr>"

definition api_post_perm where
  "api_post_perm H cfg env session = with_slot H cfg env session \<lparr>sa_ServiceType = SERVE_POST_PERM, sa_Values = None\<rparr>"

definition api_delete_perm where
  "api_delete_perm H cfg env session params = with_slot H cfg env session \<lparr>sa_ServiceType = SERVE_DELETE_PERM, sa_Values = Some params\<rparr>"

text \<open>The swarm handler takes no token.\<close>

definition api_swarm ::
    "('nh, 'a) cluster_host_scheme \<Rightarrow> Configuration \<Rightarrow> serve_env \<Rightarrow> bool \<Rightarrow> nat \<Rightarrow> 'nh \<Rightarrow> response \<Rightarrow> http_request \<Rightarrow> 'nh handled" where
  "api_swarm H cfg env session connc nh w r =
     (case serveWithArgs H cfg env session nh w r \<lparr>sa_ServiceType = SERVE_POST_SWARM, sa_Values = None\<rparr> of
        (Ok _, w', acts, nh') \<Rightarrow> (Ok (), connc, w', acts, nh')
      | (Err e, w', acts, nh') \<Rightarrow> (Ok (), connc, bad_request e w', acts, nh')
      | (Panic p, w', acts, nh') \<Rightarrow> (Panic p, connc, w', acts, nh'))"

end
