(* ===== verification/Go_Cache.thy ===== *)
theory Go_Cache
  imports Main
begin

text \<open>
  The in-memory cache the program uses for host checks, proxies, certificates and request counts
  (\<open>go-cache\<close>, a package outside the repository): a record of its operations at a given moment, and
  the locale \<open>go_cache\<close> with what its documentation promises for entries with the default
  expiration \<open>life\<close>. The cleanup of expired entries is not observable. \<open>ref_cache\<close> satisfies it.
\<close>

record ('c, 'v) gocache =
  gc_Get :: "'c \<Rightarrow> int \<Rightarrow> string \<Rightarrow> 'v option"
  gc_Set :: "'c \<Rightarrow> int \<Rightarrow> string \<Rightarrow> 'v \<Rightarrow> 'c"
  gc_Delete :: "'c \<Rightarrow> string \<Rightarrow> 'c"

locale go_cache =
  fixes C :: "('c, 'v, 'a) gocache_scheme" and life :: int
  assumes get_set: "t \<le> t' \<Longrightarrow> gc_Get C (gc_Set C c t k v) t' k' =
      (if k' = k then (if t' \<le> t + life then Some v else None) else gc_Get C c t' k')"
    and get_delete: "gc_Get C (gc_Delete C c k) t k' = (if k' = k then None else gc_Get C c t k')"
begin

lemma get_set_same: "t \<le> t' \<Longrightarrow> t' \<le> t + life \<Longrightarrow> gc_Get C (gc_Set C c t k v) t' k = Some v"
  by (simp add: get_set)

lemma get_set_expired: "t \<le> t' \<Longrightarrow> t + life < t' \<Longrightarrow> gc_Get C (gc_Set C c t k v) t' k = None"
  by (simp add: get_set)

lemma get_set_other: "t \<le> t' \<Longrightarrow> k' \<noteq> k \<Longrightarrow> gc_Get C (gc_Set C c t k v) t' k' = gc_Get C c t' k'"
  by (simp add: get_set)

end

definition ref_cache :: "int \<Rightarrow> (string \<rightharpoonup> 'v \<times> int, 'v) gocache" where
  "ref_cache life = \<lparr>
     gc_Get = (\<lambda>c t k. case c k of None \<Rightarrow> None | Some (v, expiry) \<Rightarrow> if t > expiry then None else Some v),
     gc_Set = (\<lambda>c t k v. c(k \<mapsto> (v, t + life))),
     gc_Delete = (\<lambda>c k. c(k := None))\<rparr>"

lemma ref_cache_ops [simp]:
  "gc_Get (ref_cache life) c t k = (case c k of None \<Rightarrow> None | Some (v, expiry) \<Rightarrow> if t > expiry then None else Some v)"
  "gc_Set (ref_cache life) c t k v = c(k \<mapsto> (v, t + life))"
  "gc_Delete (ref_cache life) c k = c(k := None)"
  by (simp_all add: ref_cache_def)

interpretation refcache: go_cache "ref_cache life" life for life
  by unfold_locales auto

end
