(* ===== verification/Proxy_Server.thy ===== *)
theory Proxy_Server
  imports Api_Server Go_Cache
begin

text \<open>
  The public side of the node: the reverse proxy (\<open>proxy.go\<close>), and from \<open>roo.go\<close> the daily limit, the
  host policy of the certificate manager and the handler of all requests. What the standard
  library's reverse proxy exchanges with the destination is not modelled; a request that is handed
  to it is recorded as \<open>Forward\<close> with the scheme and host the director puts into the URL.
\<close>

definition HOST_NOT_FOUND :: string where
  "HOST_NOT_FOUND = ''Host Not Found''"

definition API_LIMIT_REACHED :: string where
  "API_LIMIT_REACHED = ''API Limit Reached''"

section \<open>The daily limit\<close>

text \<open>The counter: looking at it increments it, and sets it with a fresh expiration.\<close>

definition limit_count :: "('c, uint64, 'b) gocache_scheme \<Rightarrow> 'c \<Rightarrow> int \<Rightarrow> string \<Rightarrow> uint64 \<times> 'c" where
  "limit_count C c now ip =
     (let total = (case gc_Get C c now ip of Some temp \<Rightarrow> temp | None \<Rightarrow> 0) + 1
      in (total, gc_Set C c now ip total))"

text \<open>\<open>limiter\<close> says whether a checker is configured.\<close>

definition check ::
    "('c, uint64, 'b) gocache_scheme \<Rightarrow> Configuration \<Rightarrow> bool \<Rightarrow> 'c \<Rightarrow> int \<Rightarrow> http_request \<Rightarrow> error option \<times> 'c" where
  "check C cfg limiter c now r =
     (if ProxyDailyLimit cfg > 0 \<and> limiter then
        (let (total, c') = limit_count C c now (getIP r)
         in (if total > ProxyDailyLimit cfg then Some (Errorf ''API Limit Reached'') else None, c'))
      else (None, c))"

section \<open>The proxy\<close>

text \<open>A proxy is determined by the destination its director has captured.\<close>

record RooProxy =
  rp_Route :: Route
  rp_Proxy :: "string \<times> string"

record 'c proxies =
  Proxies :: "string \<rightharpoonup> RooProxy"
  ProxyCache :: 'c

datatype forwarded = Answered | Forward "string \<times> string"

definition request_key :: "http_request \<Rightarrow> string" where
  "request_key r = HOST_PREFIX @ rq_Host r @ (if rq_TLS r then '':https'' else '':http'')"

text \<open>The director: the outgoing header, scheme and host of a request.\<close>

definition director :: "Configuration \<Rightarrow> string \<times> string \<Rightarrow> http_request \<Rightarrow> header \<times> string \<times> string" where
  "director cfg dest r =
     (let h = header_add ''X-Forwarded-For'' (header_get (rq_Header r) ''X-Forwarded-For'') (rq_Header r);
          h = header_add ''X-Forwarded-Host'' (rq_Host r) h;
          h = header_add ''X-Origin-Host'' (snd dest) h;
          h = (if ProxyForceJson cfg then header_set ''content-type'' ''application/json'' h else h)
      in (h, fst dest, snd dest))"

definition proxy_headers :: "Configuration \<Rightarrow> response \<Rightarrow> response" where
  "proxy_headers cfg w =
     (if \<not> IgnoreProxyOptions cfg then
        SetHeader ''access-control-allow-origin'' (AllowOrigin cfg)
          (SetHeader ''Strict-Transport-Security'' ''max-age=15768000 ; includeSubDomains'' w)
      else w)"

text \<open>A new proxy for a key.\<close>

definition install ::
    "('c, bool, 'b) gocache_scheme \<Rightarrow> int \<Rightarrow> http_request \<Rightarrow> string \<times> string \<Rightarrow> 'c proxies \<Rightarrow> 'c proxies" where
  "install C now r dest ps = ps\<lparr>
     Proxies := (Proxies ps)(request_key r \<mapsto> \<lparr>
       rp_Route = \<lparr>OriginScheme = (if rq_TLS r then '':https'' else '':http''), OriginHost = rq_Host r, OriginPort = [],
         DestinationScheme = fst dest, DestinationHost = snd dest, DestinationPort = []\<rparr>,
       rp_Proxy = dest\<rparr>),
     ProxyCache := gc_Set C (ProxyCache ps) now (request_key r) True\<rparr>"

text \<open>What happens once the store has been asked for the destination.\<close>

definition proxy_to ::
    "('c, bool, 'b) gocache_scheme \<Rightarrow> int \<Rightarrow> http_request \<Rightarrow> string \<Rightarrow> 'c proxies \<Rightarrow> forwarded outcome \<times> 'c proxies" where
  "proxy_to C now r dest ps = (case url_Parse dest of
     None \<Rightarrow> (Panic ''nil pointer dereference'', ps)
   | Some destination \<Rightarrow>
       (case Proxies ps (request_key r) of
          Some rp \<Rightarrow>
            (if fst destination \<noteq> DestinationScheme (rp_Route rp) \<or> snd destination \<noteq> DestinationHost (rp_Route rp)
             then (Ok (Forward destination),
               install C now r destination (ps\<lparr>Proxies := (Proxies ps)(request_key r := None)\<rparr>))
             else (Ok (Forward (rp_Proxy rp)), ps\<lparr>ProxyCache := gc_Set C (ProxyCache ps) now (request_key r) True\<rparr>))
        | None \<Rightarrow> (Ok (Forward destination), install C now r destination ps)))"

definition Proxy ::
    "('nh, 'a) nodehost_scheme \<Rightarrow> ('c, bool, 'b) gocache_scheme \<Rightarrow> Configuration \<Rightarrow> bool \<Rightarrow> int \<Rightarrow> 'nh \<Rightarrow> 'c proxies
      \<Rightarrow> response \<Rightarrow> http_request \<Rightarrow> forwarded outcome \<times> response \<times> 'c proxies \<times> 'nh" where
  "Proxy H C cfg session now nh ps w r =
     (if \<not> session then (Ok Answered, Write (str_bytes HOST_NOT_FOUND) (WriteHeader 425 w), ps, nh)
      else case (gc_Get C (ProxyCache ps) now (request_key r), Proxies ps (request_key r)) of
        (Some _, Some rp) \<Rightarrow> (Ok (Forward (rp_Proxy rp)), w, ps, nh)
      | _ \<Rightarrow>
          (case execute H nh (get_action (request_key r)) of
             (Inl e, nh') \<Rightarrow> (Ok Answered, Write (str_bytes HOST_NOT_FOUND) (WriteHeader 404 w), ps, nh')
           | (Inr (VRead (RBytes b)), nh') \<Rightarrow>
               if length (slice_bytes b) = 0
               then (Ok Answered, Write (str_bytes HOST_NOT_FOUND) (WriteHeader 404 w), ps, nh')
               else (let (o', ps') = proxy_to C now r (bytes_str (slice_bytes b)) ps
                     in (o', proxy_headers cfg w, ps', nh'))
           | (Inr _, nh') \<Rightarrow> (Panic ''interface conversion'', w, ps, nh')))"

section \<open>The handler of all requests\<close>

record ('c, 'l) front =
  fr_connc :: nat
  fr_limits :: 'l
  fr_proxies :: "'c proxies"

definition proxy_handler ::
    "('nh, 'a) nodehost_scheme \<Rightarrow> ('c, bool, 'b) gocache_scheme \<Rightarrow> ('l, uint64, 'd) gocache_scheme \<Rightarrow> Configuration
      \<Rightarrow> bool \<Rightarrow> bool \<Rightarrow> int \<Rightarrow> 'nh \<Rightarrow> ('c, 'l) front \<Rightarrow> response \<Rightarrow> http_request
      \<Rightarrow> forwarded outcome \<times> response \<times> ('c, 'l) front \<times> 'nh" where
  "proxy_handler H C L cfg session limiter now nh fr w r =
     (if \<not> IgnoreProxyOptions cfg \<and> rq_Method r = ''OPTIONS''
      then (Ok Answered, preflight (AllowOrigin cfg) w, fr, nh)
      else if fr_connc fr > 0 then
        (let fr1 = fr\<lparr>fr_connc := fr_connc fr - 1\<rparr> in
         case check L cfg limiter (fr_limits fr) now r of
           (Some e, l') \<Rightarrow> (Ok Answered, Write (str_bytes API_LIMIT_REACHED) (WriteHeader 429 w), fr1\<lparr>fr_limits := l'\<rparr>, nh)
         | (None, l') \<Rightarrow>
             (let fr2 = fr1\<lparr>fr_limits := l'\<rparr> in
              case Proxy H C cfg session now nh (fr_proxies fr2) w r of
                (Panic p, w', ps', nh') \<Rightarrow> (Panic p, w', fr2\<lparr>fr_proxies := ps'\<rparr>, nh')
              | (o', w', ps', nh') \<Rightarrow> (o', w', fr2\<lparr>fr_proxies := ps', fr_connc := fr_connc fr2 + 1\<rparr>, nh')))
      else (Ok Answered, no_slot w, fr, nh))"

section \<open>The host policy\<close>

definition HostPolicy ::
    "('nh, 'a) nodehost_scheme \<Rightarrow> ('c, bool, 'b) gocache_scheme \<Rightarrow> Configuration \<Rightarrow> bool \<Rightarrow> int \<Rightarrow> 'nh \<Rightarrow> 'c \<Rightarrow> string
      \<Rightarrow> unit outcome \<times> 'c \<times> 'nh" where
  "HostPolicy H C cfg session now nh c name =
     (if \<not> CheckHostnames cfg then (Ok (), c, nh)
      else if \<not> session then (Err (Errorf ''Hostname Check Not Ready''), c, nh)
      else case gc_Get C c now name of
        Some True \<Rightarrow> (Ok (), c, nh)
      | Some False \<Rightarrow> (Err (Errorf ''Hostname Check Failed (Repeat)''), c, nh)
      | None \<Rightarrow>
          (case execute H nh (scan_action (HOST_PREFIX @ name)) of
             (Inl e, nh') \<Rightarrow> (Err (Errorf ''Hostname Check Failed''), gc_Set C c now name False, nh')
           | (Inr (VRead (RMap hosts)), nh') \<Rightarrow>
               if length hosts = 0
               then (Err (Errorf ''Hostname Check Failed''), gc_Set C c now name False, nh')
               else (Ok (), gc_Set C c now name True, nh')
           | (Inr _, nh') \<Rightarrow> (Panic ''interface conversion'', c, nh')))"

end
