(* ===== verification/Proxy_Routes.thy ===== *)
theory Proxy_Routes
  imports Proxy_Server
begin

text \<open>
  Where the proxy sends requests: the destination stored for the host, found again while the check of
  the store is still fresh; and the way of a route from its labels through the store to the proxy.
\<close>

section \<open>URLs of routes\<close>

definition name_char :: "char \<Rightarrow> bool" where
  "name_char c \<longleftrightarrow> is_alpha c \<or> is_digit c \<or> c = CHR ''.'' \<or> c = CHR ''-''"

definition lower_alpha :: "char \<Rightarrow> bool" where
  "lower_alpha c \<longleftrightarrow> 97 \<le> byte_at c \<and> byte_at c \<le> 122"

lemma name_char_not [simp]:
  "\<not> name_char (CHR ''/'')" "\<not> name_char (CHR '':'')" "\<not> name_char (CHR ''?'')" "\<not> name_char (CHR ''#'')"
  "\<not> name_char (CHR ''@'')" "\<not> name_char (CHR ''['')" "\<not> name_char (CHR ''%'')" "\<not> name_char (CHR ''*'')"
  by (simp_all add: name_char_def is_alpha_def is_digit_def Let_def)

lemma name_char_facts:
  assumes "name_char c"
  shows "host_char c" "\<not> (byte_at c < 32 \<or> byte_at c = 127)"
  using assms by (auto simp: name_char_def is_alpha_def is_digit_def host_char_def Let_def)

lemma of_char_colon_slash: "\<not> (byte_at (CHR '':'') < 32 \<or> byte_at (CHR '':'') = 127)" "\<not> (byte_at (CHR ''/'') < 32 \<or> byte_at (CHR ''/'') = 127)"
  by simp_all

lemma lower_alpha_facts:
  assumes "lower_alpha c"
  shows "name_char c" "is_alpha c" "to_lower c = c"
  using assms by (auto simp: lower_alpha_def name_char_def is_alpha_def to_lower_def Let_def)

lemma digit_name: "is_digit c \<Longrightarrow> name_char c"
  by (simp add: name_char_def)

lemma unescape_plain: "list_all plain s \<Longrightarrow> CHR ''%'' \<notin> set s \<Longrightarrow> unescape plain esc s = Some s"
  by (induction s) auto

lemma last_index_append: "c \<notin> set t \<Longrightarrow> last_index c (s @ c # t) = Some (length s)"
proof -
  assume "c \<notin> set t"
  then have "takeWhile (\<lambda>x. x \<noteq> c) (rev t) = rev t" by auto
  then have "length (takeWhile (\<lambda>x. x \<noteq> c) (rev t)) = length t" by (metis length_rev)
  then show ?thesis by (simp add: last_index_def takeWhile_tail)
qed

lemma cut_at_none: "c \<notin> set s \<Longrightarrow> cut_at c s = (s, [])"
proof -
  assume "c \<notin> set s"
  then have "takeWhile (\<lambda>x. x \<noteq> c) s = s" "dropWhile (\<lambda>x. x \<noteq> c) s = []"
    by auto
  then show ?thesis unfolding cut_at_def by (simp only: drop_Nil)
qed

lemma parse_host_port:
  assumes "h \<noteq> []" "list_all name_char h" "list_all is_digit p"
  shows "parse_host (h @ '':'' @ p) = Some (h @ '':'' @ p)"
proof -
  let ?a = "h @ '':'' @ p"
  have "\<not> is_digit (CHR '':'')" "\<not> is_digit (CHR ''%'')" by (simp_all add: is_digit_def)
  then have no: "CHR '':'' \<notin> set p" "CHR ''%'' \<notin> set ?a"
    using assms name_char_not(7) by (auto simp: list_all_iff)
  have "list_all host_char ?a"
    using assms name_char_facts(1) digit_name by (auto simp: list_all_iff) (simp add: host_char_def)
  then have u: "unescape_host ?a = Some ?a" using no(2) by (rule unescape_plain)
  have "\<not> prefix ''['' ?a" using assms(1,2) by (cases h) auto
  moreover have "last_index (CHR '':'') ?a = Some (length h)" using last_index_append [OF no(1)] by simp
  ultimately show ?thesis using u assms(3) by (simp add: parse_host_def valid_port_def)
qed

lemma url_Parse_route:
  assumes "s \<noteq> []" "list_all lower_alpha s" "h \<noteq> []" "list_all name_char h" "list_all is_digit p"
  shows "url_Parse (s @ ''://'' @ h @ '':'' @ p) = Some (s, h @ '':'' @ p)"
proof -
  let ?a = "h @ '':'' @ p" and ?u = "s @ ''://'' @ h @ '':'' @ p"
  have chars: "x \<in> set ?u \<Longrightarrow> name_char x \<or> x = CHR '':'' \<or> x = CHR ''/''" for x
    using assms lower_alpha_facts(1) digit_name by (auto simp: list_all_iff)
  have achars: "x \<in> set ?a \<Longrightarrow> name_char x \<or> x = CHR '':''" for x
    using assms digit_name by (auto simp: list_all_iff)
  have no: "CHR ''#'' \<notin> set ?u" "CHR ''?'' \<notin> set (''//'' @ ?a)" "CHR ''@'' \<notin> set ?a" "CHR ''/'' \<notin> set ?a"
    using chars [of "CHR ''#''"] achars [of "CHR ''?''"] achars [of "CHR ''@''"] achars [of "CHR ''/''"] by auto
  have ctl: "\<not> list_ex (\<lambda>c. byte_at c < 32 \<or> byte_at c = 127) ?u"
    unfolding list_ex_iff using chars name_char_facts(2) by (metis of_char_colon_slash)
  have alpha: "\<forall>x\<in>set s. is_alpha x" "map to_lower s = s" "is_alpha (hd s)"
    using assms(1,2) lower_alpha_facts by (auto simp: list_all_iff map_idI)
  have "takeWhile (\<lambda>c. is_alpha c \<or> is_digit c \<or> c \<in> set ''+-.'') ?u = s"
    using alpha(1) by (simp add: takeWhile_append2 is_alpha_def is_digit_def)
  moreover have "\<not> prefix '':'' ?u" using assms(1) alpha(3) by (cases s) (auto simp: is_alpha_def)
  ultimately have scheme: "get_scheme ?u = Some (s, ''//'' @ ?a)"
    using alpha(2,3) assms(1) by (simp add: get_scheme_def)
  have tw: "takeWhile (\<lambda>c. c \<noteq> CHR ''/'') (h @ CHR '':'' # p) = h @ CHR '':'' # p" using no(4) by auto
  have "parse_authority (h @ CHR '':'' # p) = Some (h @ CHR '':'' # p)"
    using no(3) parse_host_port [OF assms(3-5)] by (simp add: parse_authority_def last_index_def)
  moreover have "?u \<noteq> ''*''" using assms(1) by (cases s) auto
  moreover have "cut_at (CHR ''?'') (CHR ''/'' # CHR ''/'' # h @ CHR '':'' # p) = (CHR ''/'' # CHR ''/'' # h @ CHR '':'' # p, [])"
    using cut_at_none [OF no(2)] by simp
  ultimately show ?thesis
    using scheme ctl assms(1) unfolding url_Parse_def cut_at_none [OF no(1)]
    by (simp add: Let_def tw del: takeWhile_eq_all_conv)
qed

section \<open>The table of proxies\<close>

text \<open>Every proxy goes where its route says.\<close>

definition proxies_ok :: "'c proxies \<Rightarrow> bool" where
  "proxies_ok ps \<longleftrightarrow> (\<forall>k rp. Proxies ps k = Some rp \<longrightarrow>
     rp_Proxy rp = (DestinationScheme (rp_Route rp), DestinationHost (rp_Route rp)))"

text \<open>The answer for a stored value.\<close>

definition proxy_answer :: "bytes option \<Rightarrow> forwarded outcome" where
  "proxy_answer v = (case v of None \<Rightarrow> Ok Answered
     | Some b \<Rightarrow> if b = [] then Ok Answered
         else case url_Parse (bytes_str b) of None \<Rightarrow> Panic ''nil pointer dereference'' | Some d \<Rightarrow> Ok (Forward d))"

lemma proxy_answer_url: "url_Parse s = Some d \<Longrightarrow> s \<noteq> [] \<Longrightarrow> proxy_answer (Some (str_bytes s)) = Ok (Forward d)"
  by (simp add: proxy_answer_def)

lemma install_ok: "proxies_ok ps \<Longrightarrow> proxies_ok (install C now r d ps)"
  by (auto simp: proxies_ok_def install_def)

lemma proxies_ok_delete: "proxies_ok ps \<Longrightarrow> proxies_ok (ps\<lparr>Proxies := (Proxies ps)(k := None)\<rparr>)"
  by (auto simp: proxies_ok_def split: if_splits)

lemma install_simps [simp]:
  "ProxyCache (install C now r d ps) = gc_Set C (ProxyCache ps) now (request_key r) True"
  "\<exists>rp. Proxies (install C now r d ps) (request_key r) = Some rp \<and> rp_Proxy rp = d"
  by (simp_all add: install_def)

lemma proxy_to_spec:
  assumes "proxies_ok ps" "proxy_to C now r dest ps = (out, ps')"
  shows "proxies_ok ps' \<and> (case url_Parse dest of
      None \<Rightarrow> out = Panic ''nil pointer dereference''
    | Some d \<Rightarrow> out = Ok (Forward d) \<and> ProxyCache ps' = gc_Set C (ProxyCache ps) now (request_key r) True
        \<and> (\<exists>rp. Proxies ps' (request_key r) = Some rp \<and> rp_Proxy rp = d))"
proof (cases "url_Parse dest")
  case None
  with assms show ?thesis by (auto simp: proxy_to_def)
next
  case (Some d)
  show ?thesis
  proof (cases "Proxies ps (request_key r)")
    case None
    with assms Some show ?thesis by (auto simp: proxy_to_def install_ok)
  next
    case (Some rp)
    then have rp: "rp_Proxy rp = (DestinationScheme (rp_Route rp), DestinationHost (rp_Route rp))"
      using assms(1) by (simp add: proxies_ok_def)
    show ?thesis
    proof (cases "d = rp_Proxy rp")
      case True
      with assms Some rp \<open>url_Parse dest = Some d\<close> show ?thesis by (auto simp: proxy_to_def proxies_ok_def)
    next
      case False
      then have "fst d \<noteq> DestinationScheme (rp_Route rp) \<or> snd d \<noteq> DestinationHost (rp_Route rp)"
        using rp by (cases d) auto
      with assms Some \<open>url_Parse dest = Some d\<close> show ?thesis
        by (auto simp: proxy_to_def install_ok proxies_ok_delete)
    qed
  qed
qed

lemma Proxy_cached:
  assumes "gc_Get C (ProxyCache ps) now (request_key r) = Some b" "Proxies ps (request_key r) = Some rp"
  shows "Proxy H C cfg True now nh ps w r = (Ok (Forward (rp_Proxy rp)), w, ps, nh)"
  using assms by (simp add: Proxy_def)

lemma Proxy_checked:
  assumes "raft_kv H sm" "proxies_ok ps" "execute H nh (get_action (request_key r)) = (Inr v, nh1)"
    and "gc_Get C (ProxyCache ps) now (request_key r) = None \<or> Proxies ps (request_key r) = None"
    and "Proxy H C cfg True now nh ps w r = (out, w', ps', nh')"
  shows "out = proxy_answer (sm nh (str_bytes (request_key r))) \<and> proxies_ok ps' \<and> nh' = nh
    \<and> (\<forall>d. out = Ok (Forward d) \<longrightarrow> ProxyCache ps' = gc_Set C (ProxyCache ps) now (request_key r) True
        \<and> (\<exists>rp. Proxies ps' (request_key r) = Some rp \<and> rp_Proxy rp = d))"
proof -
  let ?b = "sm nh (str_bytes (request_key r))"
  have v: "v = VRead (RBytes ?b)" "nh1 = nh" using raft_kv.execute_get [OF assms(1,3)] by simp_all
  have "Proxy H C cfg True now nh ps w r =
      (if length (slice_bytes ?b) = 0 then (Ok Answered, Write (str_bytes HOST_NOT_FOUND) (WriteHeader 404 w), ps, nh)
       else (let (o', ps') = proxy_to C now r (bytes_str (slice_bytes ?b)) ps in (o', proxy_headers cfg w, ps', nh)))"
    using assms(3,4) v by (auto simp: Proxy_def split: option.split)
  moreover obtain out2 ps2 where p: "proxy_to C now r (bytes_str (slice_bytes ?b)) ps = (out2, ps2)" by (rule prod.exhaust)
  ultimately show ?thesis
    using assms(2,5) proxy_to_spec [OF assms(2) p]
    by (cases ?b) (auto simp: proxy_answer_def split: if_splits option.splits)
qed


definition get_request :: "bool \<Rightarrow> string \<Rightarrow> http_request" where
  "get_request tls host = \<lparr>rq_Method = ''GET'', rq_Host = host, rq_RemoteAddr = ''192.0.2.7:4000'', rq_TLS = tls, rq_Header = (\<lambda>_. []), rq_Body = Inr []\<rparr>"

definition example_front_config :: Configuration where
  "example_front_config = \<lparr>CacheSeconds = 0, PermissionCheckExact = False, AuthorizeSubpaths = True,
     ApiVersionString = ''v1'', AllowOrigin = ''*'', MaximumConnections = 2, CheckHostnames = True, ProxyDailyLimit = 1,
     IgnoreProxyOptions = False, ProxyForceJson = False\<rparr>"

abbreviation no_proxies :: "(string \<rightharpoonup> bool \<times> int) proxies" where
  "no_proxies \<equiv> \<lparr>Proxies = Map.empty, ProxyCache = Map.empty\<rparr>"

lemma example_urls: "url_Parse ''http://a:1'' = Some (''http'', ''a:1'')" "url_Parse ''http://b:2'' = Some (''http'', ''b:2'')"
  using url_Parse_route [of "''http''" "''a''" "''1''"] url_Parse_route [of "''http''" "''b''" "''2''"]
  by (simp_all add: lower_alpha_def name_char_def is_alpha_def is_digit_def)


section \<open>From the labels to the proxy\<close>

text \<open>The requests a route is meant for, and where it sends them.\<close>

definition default_port :: "Route \<Rightarrow> bool" where
  "default_port rt \<longleftrightarrow> OriginPort rt = [] \<or>
     (if OriginScheme rt = ''http'' then OriginPort rt \<in> {''80'', '':http''} else OriginPort rt \<in> {''443'', '':https''})"

definition route_matches :: "Route \<Rightarrow> http_request \<Rightarrow> bool" where
  "route_matches rt r \<longleftrightarrow>
     OriginScheme rt \<in> (if rq_TLS r then {[], ''https''} else {''http''})
     \<and> rq_Host r = OriginHost rt @ (if default_port rt then [] else '':'' @ OriginPort rt)"

definition well_formed_route :: "Route \<Rightarrow> bool" where
  "well_formed_route rt \<longleftrightarrow> list_all lower_alpha (DestinationScheme rt)
     \<and> DestinationHost rt \<noteq> [] \<and> list_all name_char (DestinationHost rt) \<and> list_all is_digit (DestinationPort rt)"

definition route_destination :: "Route \<Rightarrow> string \<times> string" where
  "route_destination rt = (if DestinationScheme rt = [] then ''http'' else DestinationScheme rt, DestinationHost rt @ '':'' @ DestinationPort rt)"

lemma request_key_route: "route_matches rt r \<Longrightarrow> request_key r = GetKey rt"
  by (auto simp: route_matches_def default_port_def request_key_def GetKey_def Let_def split: if_splits)

lemma url_Parse_value: "well_formed_route rt \<Longrightarrow> url_Parse (GetValue rt) = Some (route_destination rt)"
  using url_Parse_route [of "''http''" "DestinationHost rt" "DestinationPort rt"]
    url_Parse_route [of "DestinationScheme rt" "DestinationHost rt" "DestinationPort rt"]
  by (simp add: well_formed_route_def GetValue_def Let_def route_destination_def) (simp add: lower_alpha_def)

lemma GetValue_neq_Nil [simp]: "GetValue rt \<noteq> []"
  by (simp add: GetValue_def)

lemma route_table_None: "\<forall>rt\<in>set rts. GetKey rt \<noteq> k \<Longrightarrow> route_table rts k = None"
  by (induction rts) auto

lemma route_table_last:
  "\<forall>rt'\<in>set after. GetKey rt' \<noteq> GetKey rt \<Longrightarrow> route_table (before @ rt # after) (GetKey rt) = Some (GetValue rt)"
  by (induction before) (simp_all add: route_table_None)

text \<open>
  C12. A container that is labelled with a route is served: once the update from the swarm has
  written the routes, a request for the host, port and scheme of a route whose key no later route
  has is sent to the destination the route names (over http unless the label says otherwise), in
  whatever state the table of proxies is, as long as its check of that host has expired.
\<close>

theorem route_served:
  assumes "raft_kv H sm" "GetDockerRoutes dk = Ok (before @ rt # after)"
    and "\<forall>rt'\<in>set (before @ rt # after). utf8_ok (GetKey rt')" "\<forall>rt'\<in>set after. GetKey rt' \<noteq> GetKey rt"
    and "updateFromSwarm H binding dk False nh = (Ok (err, actions), nh1)"
    and "accepts H (length (before @ rt # after)) nh1" "write_routes H nh1 actions = nh2"
    and "well_formed_route rt" "route_matches rt r" "execute H nh2 (get_action (request_key r)) = (Inr v, nh3)"
    and "proxies_ok ps" "gc_Get C (ProxyCache ps) now (request_key r) = None"
    and "Proxy H C cfg True now nh2 ps w r = (out, w', ps', nh')"
  shows "out = Ok (Forward (route_destination rt))"
proof -
  note key = request_key_route [OF assms(9)]
  have "actions = map route_action (before @ rt # after)" using assms(2,5) by (simp add: updateFromSwarm_def)
  then have "sm nh2 (str_bytes (request_key r)) = Some (str_bytes (GetValue rt))"
    using raft_kv.write_routes_effect [OF assms(1,6,3) GetKey_no_index, of rt] assms(7) route_table_last [OF assms(4), of before]
    by (simp add: key)
  moreover have "out = proxy_answer (sm nh2 (str_bytes (request_key r)))"
    using Proxy_checked [OF assms(1,11,10) disjI1 [OF assms(12)] assms(13)] by simp
  ultimately show ?thesis using proxy_answer_url [OF url_Parse_value [OF assms(8)]] by simp
qed

lemma write_routes_live:
  "live s = Some c \<Longrightarrow> unat (lastApplied (fst s)) + length rts < 2 ^ 64
    \<Longrightarrow> \<exists>c'. live (write_routes (single_host ref_pebble) s (map route_action rts)) = Some c'"
proof (induction rts arbitrary: s c)
  case (Cons rt rts)
  have next_index: "unat (lastApplied (fst s) + 1) = unat (lastApplied (fst s)) + 1"
    using Cons.prems(2) by (simp add: unat_word_ariths)
  then have "lastApplied (fst s) < lastApplied (fst s) + 1" by (simp add: word_less_nat_alt)
  from single_execute_put [OF Cons.prems(1) this GetKey_neq_Nil, of rt "Some (str_bytes (GetValue rt))"]
  obtain v s' c' where s': "execute (single_host ref_pebble) s (route_action rt) = (Inr (VResult v), s')" "live s' = Some c'"
      "lastApplied (fst s') = lastApplied (fst s) + 1"
    unfolding route_action_def by blast
  have "\<exists>c'. live (write_routes (single_host ref_pebble) s' (map route_action rts)) = Some c'"
    using s'(3) next_index Cons.prems(2) by (intro Cons.IH [OF s'(2)]) simp
  with s'(1) show ?case by simp
qed simp

theorem route_served_witness:
  "\<exists>w' ps' nh'. Proxy (single_host ref_pebble) (ref_cache 60) example_front_config True 0
      (write_routes (single_host ref_pebble) (example_host [])
        (map route_action ([route_of example_labels ''a.example''] @ route_of example_labels ''b.example'' # []))) no_proxies new_response
      (get_request True ''b.example'') = (Ok (Forward (''http'', ''web:8080'')), w', ps', nh')"
proof -
  let ?H = "single_host ref_pebble" and ?C = "ref_cache 60 :: (string \<rightharpoonup> bool \<times> int, bool) gocache" and ?r = "get_request True ''b.example''"
  let ?a = "route_of example_labels ''a.example''" and ?b = "route_of example_labels ''b.example''"
  have routes: "GetDockerRoutes example_docker = Ok ([?a] @ ?b # [])" using example_routes by simp
  have keys: "GetKey ?a = ''com.roo.host:a.example:https''" "GetKey ?b = ''com.roo.host:b.example:https''"
    by (simp_all add: GetKey_def route_of_def label_def example_labels_def HOST_PREFIX_def Let_def)
  have utf8: "\<forall>rt\<in>set ([?a] @ ?b # []). utf8_ok (GetKey rt)"
    by (simp add: keys) (simp add: utf8_ok_ascii is_ascii_def)
  have u: "updateFromSwarm ?H ''10.0.0.1'' example_docker False (example_host []) = (Ok (None, map route_action ([?a] @ ?b # [])), example_host [])"
    using routes by (simp add: updateFromSwarm_def)
  have acc: "accepts ?H (length ([?a] @ ?b # [])) (example_host [])"
    by (rule single_accepts [OF example_host_simps(1)]) simp
  let ?nh2 = "write_routes ?H (example_host []) (map route_action ([?a] @ ?b # []))"
  obtain c where "live ?nh2 = Some c"
    using write_routes_live [OF example_host_simps(1), of "[]" "[?a] @ ?b # []"] by auto
  note get = single_execute_get [OF this, of "request_key ?r"]
  have wf: "well_formed_route ?b" "route_matches ?b ?r" "route_destination ?b = (''http'', ''web:8080'')"
    by (simp_all add: well_formed_route_def route_matches_def route_destination_def default_port_def get_request_def route_of_def
        label_def example_labels_def name_char_def is_alpha_def is_digit_def)
  have ok: "proxies_ok no_proxies" and none: "gc_Get ?C (ProxyCache no_proxies) 0 (request_key ?r) = None"
    by (simp_all add: proxies_ok_def)
  obtain out w' ps' nh' where p: "Proxy ?H ?C example_front_config True 0 ?nh2 no_proxies new_response ?r = (out, w', ps', nh')"
    by (rule prod_cases4)
  have "\<forall>rt'\<in>set []. GetKey rt' \<noteq> GetKey ?b" by simp
  from route_served [OF refdb.single.raft_kv_axioms routes utf8 this u acc refl wf(1,2) get ok none p]
  have "out = Ok (Forward (''http'', ''web:8080''))" unfolding wf(3) .
  with p show ?thesis by blast
qed

end
