(* ===== verification/Proxy_Limits.thy ===== *)
theory Proxy_Limits
  imports Proxy_Routes
begin

text \<open>
  What limits the requests to the proxy: the counter behind the daily limit, compared with the
  number of requests it is meant to count, and the host policy of the certificate manager.
\<close>

section \<open>The daily limit\<close>

text \<open>The cache of the counter after a sequence of checked requests, the oldest first.\<close>

definition checks ::
    "('c, uint64, 'b) gocache_scheme \<Rightarrow> Configuration \<Rightarrow> 'c \<Rightarrow> (int \<times> http_request) list \<Rightarrow> 'c" where
  "checks C cfg c past = foldl (\<lambda>c (t, r). snd (check C cfg True c t r)) c past"

text \<open>
  The requests of a client that the counter counts (the latest first), the one at \<open>t\<close> included: those
  that no pause longer than the lifetime separates from it. The window is not a day but grows with
  every request.
\<close>

fun streak :: "int \<Rightarrow> (int \<times> string) list \<Rightarrow> string \<Rightarrow> int \<Rightarrow> nat" where
  "streak life [] ip t = 1"
| "streak life ((t0, ip0) # past) ip t =
     (if ip0 = ip then (if t \<le> t0 + life then Suc (streak life past ip t0) else 1) else streak life past ip t)"

definition visits :: "(int \<times> http_request) list \<Rightarrow> (int \<times> string) list" where
  "visits past = rev (map (\<lambda>(t, r). (t, getIP r)) past)"

lemma streak_bounds: "1 \<le> streak life past ip t" "streak life past ip t \<le> Suc (length past)"
  by (induction life past ip t rule: streak.induct) auto

lemma visits_snoc [simp]: "visits [] = []" "visits (past @ [(t, r)]) = (t, getIP r) # visits past"
  by (simp_all add: visits_def)

lemma check_enabled:
  assumes "ProxyDailyLimit cfg > 0"
  shows "check C cfg True c now r =
    (if fst (limit_count C c now (getIP r)) > ProxyDailyLimit cfg then Some (Errorf ''API Limit Reached'') else None,
     snd (limit_count C c now (getIP r)))"
  using assms by (simp add: check_def split_beta)

lemma limit_count_set:
  fixes C :: "('c, uint64, 'b) gocache_scheme"
  assumes "go_cache C life" "t0 \<le> t"
  shows "fst (limit_count C (snd (limit_count C c t0 ip0)) t ip) =
    (if ip0 = ip then (if t \<le> t0 + life then fst (limit_count C c t0 ip) + 1 else 1) else fst (limit_count C c t ip))"
  using assms(2) by (simp add: limit_count_def Let_def go_cache.get_set [OF assms(1)])

lemma limit_count_streak:
  fixes C :: "('c, uint64, 'b) gocache_scheme"
  assumes "go_cache C life" "ProxyDailyLimit cfg > 0" "\<And>t ip. gc_Get C c t ip = None"
    and "sorted (map fst past)" "\<forall>x\<in>set past. fst x \<le> t"
  shows "fst (limit_count C (checks C cfg c past) t ip) = of_nat (streak life (visits past) ip t)"
  using assms(4,5)
proof (induction past arbitrary: t ip rule: rev_induct)
  case Nil
  show ?case by (simp add: checks_def limit_count_def assms(3))
next
  case (snoc x past)
  obtain t0 r0 where x: "x = (t0, r0)" by (cases x)
  have "t0 \<le> t" "sorted (map fst past)" "\<forall>x\<in>set past. fst x \<le> t0" "\<forall>x\<in>set past. fst x \<le> t"
    using snoc.prems by (auto simp: x sorted_append)
  with snoc.IH [of t0 ip] snoc.IH [of t ip] show ?case
    using limit_count_set [OF assms(1), of t0 t "checks C cfg c past" "getIP r0" ip]
    by (simp add: x checks_def check_enabled [OF assms(2)] add.commute)
qed

text \<open>
  C31. The limit refuses exactly the requests that come after \<open>ProxyDailyLimit\<close> others from the same
  address without a pause longer than the lifetime of the counter: a request is refused if and only
  if its number in the uninterrupted sequence of requests of its address exceeds the limit. Refused
  requests count as well, and every request starts the lifetime anew, so a client that goes on
  asking stays locked out for good.
\<close>

theorem limit_exact:
  fixes C :: "('c, uint64, 'b) gocache_scheme"
  assumes "go_cache C life" "ProxyDailyLimit cfg > 0" "\<And>t ip. gc_Get C c t ip = None"
    and "sorted (map fst past @ [now])" "length past < 2 ^ 64 - 1"
    and "check C cfg True (checks C cfg c past) now r = (e, c')"
  shows "e \<noteq> None \<longleftrightarrow> unat (ProxyDailyLimit cfg) < streak life (visits past) (getIP r) now"
proof -
  let ?n = "streak life (visits past) (getIP r) now"
  have "?n < 2 ^ 64" using streak_bounds(2) [of life "visits past" "getIP r" now] assms(5) by (simp add: visits_def)
  then have n: "unat (of_nat ?n :: uint64) = ?n" by (simp add: unat_of_nat take_bit_eq_mod)
  have "sorted (map fst past)" "\<forall>x\<in>set past. fst x \<le> now" using assms(4) by (auto simp: sorted_append)
  from limit_count_streak [OF assms(1-3) this, of "getIP r"] n assms(6) show ?thesis
    by (auto simp: check_enabled [OF assms(2)] word_less_nat_alt split: if_splits)
qed

theorem limit_exact_witness:
  "(\<exists>e c'. check (ref_cache 86400) example_front_config True
       (checks (ref_cache 86400) example_front_config Map.empty [(0, get_request True ''h''), (80000, get_request True ''h'')])
       160000 (get_request True ''h'') = (e, c') \<and> e \<noteq> None)"
proof -
  let ?C = "ref_cache 86400 :: (string \<rightharpoonup> uint64 \<times> int, uint64) gocache" and ?r = "get_request True ''h''"
  let ?past = "[(0 :: int, ?r), (80000, ?r)]"
  obtain e c' where c: "check ?C example_front_config True (checks ?C example_front_config Map.empty ?past) 160000 ?r = (e, c')"
    by (rule prod.exhaust)
  have "visits ?past = [(80000, getIP ?r), (0, getIP ?r)]" by (simp add: visits_def)
  then have "streak 86400 (visits ?past) (getIP ?r) 160000 = 3" by simp
  moreover have "unat (ProxyDailyLimit example_front_config) = 1" "ProxyDailyLimit example_front_config > 0"
    by (simp_all add: example_front_config_def)
  ultimately have "e \<noteq> None"
    using limit_exact [OF refcache.go_cache_axioms _ _ _ _ c] by simp
  with c show ?thesis by blast
qed

section \<open>The host policy\<close>

text \<open>
  C32. The certificate manager is allowed to ask for a certificate for a name exactly when some key
  of the store starts with the prefix of hosts and the name, and that decision stands for the
  lifetime of the cache, whatever happens to the store. As the name is only a prefix of the key, the
  beginning of a configured host name is accepted as well.
\<close>

theorem host_policy:
  assumes "raft_kv H sm" "go_cache C life" "CheckHostnames cfg" "gc_Get C c t name = None"
    and "execute H nh (scan_action (HOST_PREFIX @ name)) = (Inr v, nh0)"
    and "HostPolicy H C cfg True t nh c name = (out, c', nh')"
    and "t \<le> t'" "t' \<le> t + life" "HostPolicy H C cfg True t' nh2 c' name = (out2, c2, nh3)"
  shows "(out = Ok () \<longleftrightarrow> (\<exists>k. prefix (HOST_PREFIX @ name) k \<and> sm nh (str_bytes k) \<noteq> None))
    \<and> (out2 = Ok () \<longleftrightarrow> out = Ok ()) \<and> c2 = c' \<and> nh3 = nh2"
proof -
  obtain hosts where h: "v = VRead (RMap hosts)" "map_of hosts = map_scan (sm nh) (HOST_PREFIX @ name)"
    using raft_kv.execute_scan [OF assms(1,5)] by blast
  have "hosts \<noteq> [] \<longleftrightarrow> (\<exists>k. map_of hosts k \<noteq> None)" by (metis map_of_eq_None_iff last_in_set list.set_map image_eqI map_of_eq_empty_iff)
  then have found: "hosts \<noteq> [] \<longleftrightarrow> (\<exists>k. prefix (HOST_PREFIX @ name) k \<and> sm nh (str_bytes k) \<noteq> None)"
    unfolding h(2) map_scan_def by (auto split: if_splits)
  have first: "out = (if hosts = [] then Err (Errorf ''Hostname Check Failed'') else Ok ())"
      "c' = gc_Set C c t name (hosts \<noteq> [])"
    using assms(3-6) h(1) by (auto simp: HostPolicy_def split: if_splits)
  then have "gc_Get C c' t' name = Some (hosts \<noteq> [])" using go_cache.get_set_same [OF assms(2,7,8)] by simp
  then have "(out2, c2, nh3) = (if hosts = [] then Err (Errorf ''Hostname Check Failed (Repeat)'') else Ok (), c', nh2)"
    using assms(3,9) by (auto simp: HostPolicy_def)
  with first(1) found show ?thesis by (auto split: if_splits)
qed

lemma single_execute_scan:
  assumes "live s = Some c"
  obtains v where "execute (single_host ref_pebble) s (scan_action k) = (Inr v, s)"
proof -
  obtain r where "single_read ref_pebble s (QAction (Some (scan_action k))) = Inr (RMap r)"
    using single_read_scan_action [OF assms] by blast
  then show thesis using that by (simp add: execute_def)
qed

theorem host_policy_witness:
  "\<exists>c' nh'. HostPolicy (single_host ref_pebble) (ref_cache 240) example_front_config True 0
      (example_host [(str_bytes ''com.roo.host:example.com:https'', str_bytes ''http://a:1'')]) Map.empty ''exam''
    = (Ok (), c', nh') \<and> HostPolicy (single_host ref_pebble) (ref_cache 240) example_front_config True 200 (example_host []) c' ''exam''
    = (Ok (), c', example_host [])"
proof -
  let ?H = "single_host ref_pebble" and ?C = "ref_cache 240 :: (string \<rightharpoonup> bool \<times> int, bool) gocache"
  let ?nh = "example_host [(str_bytes ''com.roo.host:example.com:https'', str_bytes ''http://a:1'')]"
  obtain v where v: "execute ?H ?nh (scan_action (HOST_PREFIX @ ''exam'')) = (Inr v, ?nh)"
    by (rule single_execute_scan [OF example_host_simps(1)])
  obtain out c' nh' where p1: "HostPolicy ?H ?C example_front_config True 0 ?nh Map.empty ''exam'' = (out, c', nh')"
    by (rule prod_cases3)
  obtain out2 c2 nh3 where p2: "HostPolicy ?H ?C example_front_config True 200 (example_host []) c' ''exam'' = (out2, c2, nh3)"
    by (rule prod_cases3)
  have pre: "CheckHostnames example_front_config" "gc_Get ?C Map.empty 0 ''exam'' = None" "(0 :: int) \<le> 200" "(200 :: int) \<le> 0 + 240"
    by (simp_all add: example_front_config_def)
  have "prefix (HOST_PREFIX @ ''exam'') ''com.roo.host:example.com:https''" by (simp add: HOST_PREFIX_def)
  moreover have "host_map ref_pebble ?nh (str_bytes ''com.roo.host:example.com:https'') \<noteq> None"
    unfolding example_host_simps(3) map_of.simps fst_conv snd_conv fun_upd_same by (rule option.distinct)
  ultimately have "\<exists>k. prefix (HOST_PREFIX @ ''exam'') k \<and> host_map ref_pebble ?nh (str_bytes k) \<noteq> None" by blast
  then have "out = Ok ()" "out2 = Ok ()" "c2 = c'" "nh3 = example_host []"
    using host_policy [OF refdb.single.raft_kv_axioms refcache.go_cache_axioms pre(1,2) v p1 pre(3,4) p2] by blast+
  with p1 p2 show ?thesis by blast
qed

end
