(* ===== verification/Api_Replies.thy ===== *)
theory Api_Replies
  imports Proxy_Limits
begin

text \<open>
  What the clients of the API and of the proxy receive: the status and body of every reply, and what
  becomes of the connection slots.
\<close>

section \<open>Errors of the service\<close>

text \<open>A case of \<open>serve\<close> that returns an error has not written to the response.\<close>

lemma serve_post_perm_Err: "serve_post_perm H cfg env nh w r = (Err e, w', acts, nh') \<Longrightarrow> w' = w"
  by (auto simp: serve_post_perm_def split: sum.splits prod.splits option.splits bool.splits)

lemma serve_get_kv_Err: "serve_get_kv H nh w s = (Err e, w', acts, nh') \<Longrightarrow> w' = w"
  by (auto simp: serve_get_kv_def split: sum.splits prod.splits option.splits exec_value.splits lookup_result.splits)

lemma serve_put_perm_Err: "serve_put_perm H env nh w r = (Err e, w', acts, nh') \<Longrightarrow> w' = w"
  by (auto simp: serve_put_perm_def split: sum.splits prod.splits option.splits bool.splits)

lemma serve_delete_perm_Err: "serve_delete_perm H nh w s = (Err e, w', acts, nh') \<Longrightarrow> w' = w"
  by (auto simp: serve_delete_perm_def split: option.splits outcome.splits prod.splits if_splits)

lemma serve_put_kv_Err: "serve_put_kv H nh w r s = (Err e, w', acts, nh') \<Longrightarrow> w' = w"
  by (auto simp: serve_put_kv_def split: sum.splits prod.splits option.splits)

lemma serve_get_kvs_Err: "serve_get_kvs H nh w s = (Err e, w', acts, nh') \<Longrightarrow> w' = w"
  by (auto simp: serve_get_kvs_def Let_def split: sum.splits prod.splits option.splits exec_value.splits)

lemma serve_post_swarm_Err: "serve_post_swarm H env nh w = (Err e, w', acts, nh') \<Longrightarrow> w' = w"
  by (auto simp: serve_post_swarm_def split: prod.splits option.splits outcome.splits)

lemma serve_post_join_Err: "serve_post_join H nh w r = (Err e, w', acts, nh') \<Longrightarrow> w' = w"
  by (auto simp: serve_post_join_def split: sum.splits prod.splits bool.splits outcome.splits if_splits)

lemmas served_Err = serve_post_perm_Err serve_get_kv_Err serve_put_perm_Err serve_delete_perm_Err serve_put_kv_Err
  serve_get_kvs_Err serve_post_swarm_Err serve_post_join_Err

lemma serve_Err: "serve H cfg env nh w r s = (Err e, w', acts, nh') \<Longrightarrow> w' = w"
  using served_Err unfolding serve_def Let_def by (auto split: if_splits)

lemma bad_request_new [simp]:
  "status (bad_request e (SetHeader k v new_response)) = Some 400"
  "w_body (bad_request e (SetHeader k v new_response)) = str_bytes (err_text e)"
  by (simp_all add: bad_request_def status_Write status_WriteHeader)

lemma no_slot_new [simp]: "status (no_slot new_response) = Some 503"
  by (simp add: no_slot_def http_Error_def status_Write status_WriteHeader)


text \<open>A PUT whose body cannot be read, and the same request without a slot.\<close>

definition broken_request :: http_request where
  "broken_request = \<lparr>rq_Method = ''PUT'', rq_Host = [], rq_RemoteAddr = ''192.0.2.7:4000'', rq_TLS = False, rq_Header = (\<lambda>_. []),
     rq_Body = Inl (Errorf ''unexpected EOF'')\<rparr>"


section \<open>The status of a node\<close>

text \<open>
  A node that asks a peer for its status gets it: the reply has status 200, and its body decodes
  to the address the peer sees the client at, its binding, replica, shard and hosts, the times it was
  created and started, and the number of slots in use or lost. The content type is set too late to be
  sent.
\<close>

theorem api_status_reply:
  assumes "status_ok (cluster_status cfg cl connc r)"
  shows "status (api_status cfg cl connc new_response r) = Some 200
    \<and> json_Unmarshal dec_ClusterStatus (w_body (api_status cfg cl connc new_response r)) zero_ClusterStatus
        = (cluster_status cfg cl connc r, True)
    \<and> w_sent (api_status cfg cl connc new_response r) = Some (200, \<lambda>_. [])"
  using decode_ClusterStatus [OF assms, of zero_ClusterStatus]
  by (simp add: api_status_def status_Write status_WriteHeader)
    (simp add: Write_def WriteHeader_def SetHeader_def new_response_def)

definition example_cluster :: Cluster where
  "example_cluster = \<lparr>cl_Binding = ''10.0.0.1'', cl_ReplicaID = 7, cl_ShardID = 1, cl_Hosts = Some [''10.0.0.2''], cl_Instantiated = 5, cl_Started = 0\<rparr>"

lemma example_client: "getIP (get_request True ''h'') = ''192.0.2.7''"
proof -
  have ip: "ip_String (IPv4 [192, 0, 2, 7]) = ''192.0.2.7''" by code_simp
  have split: "SplitHostPort ''192.0.2.7:4000'' = Some (''192.0.2.7'', ''4000'')" by code_simp
  have "cleanIP ''192.0.2.7'' = ''192.0.2.7''"
    using cleanIP_last [of "[192, 0, 2, 7]" "''192.0.2.7''"] unfolding ip by (simp add: octets_def)
  then show ?thesis by (simp add: getIP_def get_request_def header_get_def split Let_def)
qed

theorem api_status_reply_witness:
  "json_Unmarshal dec_ClusterStatus (w_body (api_status example_front_config example_cluster 1 new_response (get_request True ''h''))) zero_ClusterStatus
     = (\<lparr>cs_Client = ''192.0.2.7'', cs_Binding = ''10.0.0.1'', cs_Conns = 1, cs_ReplicaID = 7, cs_ShardID = 1,
         cs_Hosts = Some [''10.0.0.2''], cs_Instantiated = 5, cs_Started = 0\<rparr>, True)"
proof -
  have c: "cluster_status example_front_config example_cluster 1 (get_request True ''h'') = \<lparr>cs_Client = ''192.0.2.7'', cs_Binding = ''10.0.0.1'',
      cs_Conns = 1, cs_ReplicaID = 7, cs_ShardID = 1, cs_Hosts = Some [''10.0.0.2''], cs_Instantiated = 5, cs_Started = 0\<rparr>"
    by (simp add: cluster_status_def example_client example_cluster_def example_front_config_def)
  have "status_ok (cluster_status example_front_config example_cluster 1 (get_request True ''h''))"
    unfolding c by (simp add: status_ok_def utf8_ok_ascii is_ascii_def)
  from api_status_reply [OF this] show ?thesis unfolding c by blast
qed

end
