(* ===== verification/Conn_Slots.thy ===== *)
theory Conn_Slots
  imports Api_Replies
begin

text \<open>
  The connection slots under concurrency. All handlers share the channel \<open>connc\<close>; requests run
  concurrently, so that their beginnings and ends interleave. The step relation describes what each
  handler does to the channel, and the handlers of the model are shown to take exactly these steps.
\<close>

section \<open>Steps of the handlers\<close>

text \<open>Tokens in the channel, requests in progress, and requests that ended without giving their token back.\<close>

record slots =
  free :: nat
  busy :: nat
  lost :: nat

datatype slot_event = Begin | Refused | Finished | Dropped

inductive slot_step :: "nat \<Rightarrow> slots \<Rightarrow> slot_event \<Rightarrow> slots \<Rightarrow> bool" for cap where
  begin_request: "free s > 0 \<Longrightarrow> slot_step cap s Begin (s\<lparr>free := free s - 1, busy := busy s + 1\<rparr>)"
| refuse_request: "free s = 0 \<Longrightarrow> slot_step cap s Refused s"
| finish_request: "busy s > 0 \<Longrightarrow> free s < cap \<Longrightarrow> slot_step cap s Finished (s\<lparr>free := free s + 1, busy := busy s - 1\<rparr>)"
| drop_request: "busy s > 0 \<Longrightarrow> slot_step cap s Dropped (s\<lparr>busy := busy s - 1, lost := lost s + 1\<rparr>)"

inductive_cases slot_stepE: "slot_step cap s e s'"
inductive_simps slot_step_begin: "slot_step cap s Begin s'"
inductive_simps slot_step_refused: "slot_step cap s Refused s'"
inductive_simps slot_step_finished: "slot_step cap s Finished s'"
inductive_simps slot_step_dropped: "slot_step cap s Dropped s'"

lemmas slot_step_simps = slot_step_begin slot_step_refused slot_step_finished slot_step_dropped

inductive slot_run :: "nat \<Rightarrow> slots \<Rightarrow> slot_event list \<Rightarrow> slots \<Rightarrow> bool" for cap where
  run_none: "slot_run cap s [] s"
| run_step: "slot_step cap s e s1 \<Longrightarrow> slot_run cap s1 es s2 \<Longrightarrow> slot_run cap s (e # es) s2"

inductive_cases slot_run_ConsE: "slot_run cap s (e # es) s'"
inductive_simps slot_run_Nil [simp]: "slot_run cap s [] s'"
inductive_simps slot_run_Cons [simp]: "slot_run cap s (e # es) s'"

definition all_free :: "nat \<Rightarrow> slots" where
  "all_free cap = \<lparr>free = cap, busy = 0, lost = 0\<rparr>"

definition slots_ok :: "nat \<Rightarrow> slots \<Rightarrow> bool" where
  "slots_ok cap s \<longleftrightarrow> free s + busy s + lost s = cap"

lemma slot_step_ok: "slot_step cap s e s' \<Longrightarrow> slots_ok cap s \<Longrightarrow> slots_ok cap s'"
  by (erule slot_stepE) (auto simp: slots_ok_def)

lemma slot_run_ok: "slot_run cap s es s' \<Longrightarrow> slots_ok cap s \<Longrightarrow> slots_ok cap s'"
  by (induction rule: slot_run.induct) (auto intro: slot_step_ok)

lemma slot_step_lost: "slot_step cap s e s' \<Longrightarrow> lost s' = lost s + (if e = Dropped then 1 else 0)"
  by (erule slot_stepE) auto

lemma slot_run_lost: "slot_run cap s es s' \<Longrightarrow> lost s' = lost s + count_list es Dropped"
  by (induction rule: slot_run.induct) (auto dest: slot_step_lost)

lemma slot_run_append: "slot_run cap s (es @ es') s' \<longleftrightarrow> (\<exists>s1. slot_run cap s es s1 \<and> slot_run cap s1 es' s')"
  by (induction es arbitrary: s) auto

section \<open>The handlers take these steps\<close>

text \<open>The steps of a request that is handled on its own.\<close>

definition slot_events :: "nat \<Rightarrow> bool \<Rightarrow> slot_event list" where
  "slot_events connc returned = (if connc = 0 then [Refused] else [Begin, if returned then Finished else Dropped])"

lemma slot_events_run:
  assumes "slots_ok cap s"
  shows "slot_run cap s (slot_events (free s) True) s"
    and "free s > 0 \<Longrightarrow> slot_run cap s (slot_events (free s) False) (s\<lparr>free := free s - 1, lost := lost s + 1\<rparr>)"
  using assms by (auto simp: slot_events_def slot_step_simps slots_ok_def)

lemma with_slot_events:
  assumes "with_slot H cfg env session args (free s) nh w r = (out, connc', w', acts, nh')" "slots_ok cap s"
  shows "\<exists>s'. slot_run cap s (slot_events (free s) (out = Ok ())) s' \<and> free s' = connc' \<and> busy s' = busy s"
proof -
  obtain res w1 acts1 nh1 where
    r: "serveWithArgs H cfg env session nh (SetHeader ''access-control-allow-origin'' (AllowOrigin cfg) w) r args = (res, w1, acts1, nh1)"
    by (rule prod_cases4)
  show ?thesis
  proof (cases "out = Ok ()")
    case True
    then have "connc' = free s" using assms(1) r by (cases res) (auto simp: with_slot_def split: if_splits)
    then show ?thesis using slot_events_run(1) [OF assms(2)] True by auto
  next
    case False
    then have "connc' = free s - 1" "free s > 0"
      using assms(1) r by (cases res; auto simp: with_slot_def split: if_splits)+
    then show ?thesis using slot_events_run(2) [OF assms(2)] False by fastforce
  qed
qed



section \<open>The limit takes slots away\<close>

definition proxied :: "Configuration \<Rightarrow> http_request \<Rightarrow> bool" where
  "proxied cfg r \<longleftrightarrow> IgnoreProxyOptions cfg \<or> rq_Method r \<noteq> ''OPTIONS''"

text \<open>The state after requests of the same form at the given times, one after the other.\<close>

fun proxy_all where
  "proxy_all H C L cfg session r [] fr nh = (fr, nh)"
| "proxy_all H C L cfg session r (t # ts) fr nh =
     (let (o', w, fr', nh') = proxy_handler H C L cfg session True t nh fr new_response r
      in proxy_all H C L cfg session r ts fr' nh')"

lemma proxy_handler_refused:
  assumes "proxied cfg r" "ProxyDailyLimit cfg > 0" "fr_connc fr > 0"
    and "fst (limit_count L (fr_limits fr) t (getIP r)) > ProxyDailyLimit cfg"
  shows "proxy_handler H C L cfg session True t nh fr new_response r =
    (Ok Answered, Write (str_bytes API_LIMIT_REACHED) (WriteHeader 429 new_response),
     fr\<lparr>fr_connc := fr_connc fr - 1, fr_limits := snd (limit_count L (fr_limits fr) t (getIP r))\<rparr>, nh)"
  using assms by (auto simp: proxy_handler_def proxied_def check_enabled Let_def)

lemma proxy_all_refused:
  fixes L :: "('l, uint64, 'd) gocache_scheme"
  assumes "go_cache L life" "proxied cfg r" "ProxyDailyLimit cfg > 0"
  shows "successively (\<lambda>t t'. t \<le> t' \<and> t' \<le> t + life) ts \<Longrightarrow> length ts \<le> fr_connc fr \<Longrightarrow>
    ts \<noteq> [] \<longrightarrow> fst (limit_count L (fr_limits fr) (hd ts) (getIP r)) > ProxyDailyLimit cfg
      \<and> unat (fst (limit_count L (fr_limits fr) (hd ts) (getIP r))) + length ts < 2 ^ 64 \<Longrightarrow>
    \<exists>l. proxy_all H C L cfg session r ts fr nh = (fr\<lparr>fr_connc := fr_connc fr - length ts, fr_limits := l\<rparr>, nh)"
proof (induction ts arbitrary: fr)
  case (Cons t ts)
  let ?k = "fst (limit_count L (fr_limits fr) t (getIP r))"
  let ?fr = "fr\<lparr>fr_connc := fr_connc fr - 1, fr_limits := snd (limit_count L (fr_limits fr) t (getIP r))\<rparr>"
  have k: "?k > ProxyDailyLimit cfg" "unat ?k + length (t # ts) < 2 ^ 64" using Cons.prems(3) by auto
  have "ts \<noteq> [] \<longrightarrow> fst (limit_count L (fr_limits ?fr) (hd ts) (getIP r)) > ProxyDailyLimit cfg
      \<and> unat (fst (limit_count L (fr_limits ?fr) (hd ts) (getIP r))) + length ts < 2 ^ 64"
  proof
    assume "ts \<noteq> []"
    then have t: "t \<le> hd ts" "hd ts \<le> t + life" using Cons.prems(1) by (cases ts; simp)+
    have "unat (?k + 1) = unat ?k + 1" using k(2) by (simp add: unat_word_ariths)
    then have "?k + 1 > ProxyDailyLimit cfg" "unat (?k + 1) + length ts < 2 ^ 64" using k by (simp_all add: word_less_nat_alt)
    then show "fst (limit_count L (fr_limits ?fr) (hd ts) (getIP r)) > ProxyDailyLimit cfg
        \<and> unat (fst (limit_count L (fr_limits ?fr) (hd ts) (getIP r))) + length ts < 2 ^ 64"
      using limit_count_set [OF assms(1) t(1), of "fr_limits fr" "getIP r" "getIP r"] t(2) by simp
  qed
  moreover have "successively (\<lambda>t t'. t \<le> t' \<and> t' \<le> t + life) ts" using Cons.prems(1) by (cases ts) auto
  moreover have "length ts \<le> fr_connc ?fr" using Cons.prems(2) by simp
  ultimately have "\<exists>l. proxy_all H C L cfg session r ts ?fr nh = (?fr\<lparr>fr_connc := fr_connc ?fr - length ts, fr_limits := l\<rparr>, nh)"
    by (rule Cons.IH [rotated 2])
  moreover have "fr_connc fr > 0" using Cons.prems(2) by simp
  then have "proxy_all H C L cfg session r (t # ts) fr nh = proxy_all H C L cfg session r ts ?fr nh"
    using proxy_handler_refused [OF assms(2,3) _ k(1), of H C session nh] by simp
  ultimately show ?case by auto
next
  case Nil
  show ?case by (rule exI [of _ "fr_limits fr"]) simp
qed

text \<open>
  C34. A client above the daily limit can stop the node: every request that the limit refuses keeps
  its slot, so after as many refused requests as there are free slots no slot is left, and from then
  on every request of every client, to the proxy and to the API, is answered with status 503.
\<close>

theorem limit_denies_all:
  fixes L :: "('l, uint64, 'd) gocache_scheme"
  assumes "go_cache L life" "proxied cfg r" "ProxyDailyLimit cfg > 0"
    and "successively (\<lambda>t t'. t \<le> t' \<and> t' \<le> t + life) ts" "length ts = fr_connc fr" "ts \<noteq> []"
    and "fst (limit_count L (fr_limits fr) (hd ts) (getIP r)) > ProxyDailyLimit cfg"
    and "unat (fst (limit_count L (fr_limits fr) (hd ts) (getIP r))) + length ts < 2 ^ 64"
    and "proxy_all H C L cfg session r ts fr nh = (fr1, nh1)" "proxied cfg r'"
    and "proxy_handler H C L cfg session' True now nh2 fr1 new_response r' = (out, w, fr2, nh3)"
    and "with_slot H2 cfg env session' args (fr_connc fr1) nh2 new_response r'' = (out', connc', w', acts, nh4)"
  shows "fr2 = fr1 \<and> status w = Some 503 \<and> connc' = fr_connc fr1 \<and> status w' = Some 503 \<and> nh3 = nh2 \<and> nh4 = nh2"
proof -
  have "fr_connc fr1 = 0" using proxy_all_refused [OF assms(1-4), of fr H C session nh] assms(5-9) by auto
  with assms(10-12) show ?thesis by (auto simp: proxy_handler_def proxied_def with_slot_def)
qed

theorem limit_denies_all_witness:
  "\<exists>fr1 nh1 out w fr2 nh3. proxy_all (single_host ref_pebble) (ref_cache 60) (ref_cache 86400) example_front_config True (get_request True ''h'') [10, 20]
       \<lparr>fr_connc = 2, fr_limits = [''192.0.2.7'' \<mapsto> (1, 86400)], fr_proxies = no_proxies\<rparr> (example_host []) = (fr1, nh1)
     \<and> proxy_handler (single_host ref_pebble) (ref_cache 60) (ref_cache 86400) example_front_config True True 900000 nh1 fr1 new_response (get_request True ''other'')
       = (out, w, fr2, nh3) \<and> status w = Some 503"
proof -
  let ?H = "single_host ref_pebble" and ?C = "ref_cache 60 :: (string \<rightharpoonup> bool \<times> int, bool) gocache"
  let ?L = "ref_cache 86400 :: (string \<rightharpoonup> uint64 \<times> int, uint64) gocache" and ?r = "get_request True ''h''"
  let ?fr = "\<lparr>fr_connc = 2, fr_limits = [''192.0.2.7'' \<mapsto> (1 :: uint64, 86400 :: int)], fr_proxies = no_proxies\<rparr>"
  have k: "fst (limit_count ?L (fr_limits ?fr) (hd [10, 20]) (getIP ?r)) = 2"
    by (simp add: limit_count_def example_client)
  have pre: "proxied example_front_config ?r" "proxied example_front_config (get_request True ''other'')" "ProxyDailyLimit example_front_config > 0"
      "successively (\<lambda>t t'. t \<le> t' \<and> t' \<le> t + 86400) [10, 20 :: int]" "length [10, 20 :: int] = fr_connc ?fr" "[10, 20 :: int] \<noteq> []"
      "ProxyDailyLimit example_front_config < 2" "unat (2 :: uint64) + length [10, 20 :: int] < 2 ^ 64"
    by (simp_all add: proxied_def get_request_def example_front_config_def)
  obtain fr1 nh1 where a: "proxy_all ?H ?C ?L example_front_config True ?r [10, 20] ?fr (example_host []) = (fr1, nh1)" by (rule prod.exhaust)
  obtain out w fr2 nh3 where p: "proxy_handler ?H ?C ?L example_front_config True True 900000 nh1 fr1 new_response (get_request True ''other'')
      = (out, w, fr2, nh3)" by (rule prod_cases4)
  obtain out' connc' w' acts nh4 where s: "with_slot (single_cluster ref_pebble) example_front_config example_env True (key_args SERVE_PUT_KV ''a'')
      (fr_connc fr1) nh1 new_response broken_request = (out', connc', w', acts, nh4)" by (rule prod_cases5)
  have "status w = Some 503"
    using limit_denies_all [OF refcache.go_cache_axioms pre(1,3-6) _ _ a pre(2) p s] k pre(7,8) by simp
  with a p show ?thesis by blast
qed

end
