(* ===== verification/Cert_Cache.thy ===== *)
theory Cert_Cache
  imports Kv_Execute Go_Cache
begin

text \<open>
  The certificate cache (\<open>kvcache.go\<close>): the \<open>Cache\<close> interface of the certificate manager, implemented
  on the replicated store with a cache in memory in front of it. The memory cache holds values of
  any type; the program puts byte slices and pointers to byte slices into it.
\<close>

datatype cert_value = CSlice slice | CPointer slice

definition cert_Get ::
    "('nh, 'a) nodehost_scheme \<Rightarrow> ('c, cert_value, 'b) gocache_scheme \<Rightarrow> 'nh \<Rightarrow> 'c \<Rightarrow> int \<Rightarrow> string \<Rightarrow> slice outcome \<times> 'c" where
  "cert_Get H C nh c now name = (case gc_Get C c now name of
     Some (CSlice p) \<Rightarrow> (Ok p, c)
   | Some (CPointer p) \<Rightarrow> (Panic ''interface conversion'', c)
   | None \<Rightarrow>
       (case nh_SyncRead H nh (QString (CACHE_PREFIX @ name)) of
          Inl e \<Rightarrow> (Err e, c)
        | Inr (RMap _) \<Rightarrow> (Panic ''interface conversion'', c)
        | Inr (RBytes result) \<Rightarrow>
            if length (slice_bytes result) = 0 then (Err ErrCacheMiss, c)
            else (Ok result, gc_Set C c now name (CSlice result))))"

definition cert_Put ::
    "('nh, 'a) nodehost_scheme \<Rightarrow> ('c, cert_value, 'b) gocache_scheme \<Rightarrow> 'nh \<Rightarrow> 'c \<Rightarrow> int \<Rightarrow> string \<Rightarrow> slice
      \<Rightarrow> error option \<times> 'c \<times> 'nh" where
  "cert_Put H C nh c now name data =
     (let keyname = CACHE_PREFIX @ name;
          kvdata = json_Marshal (KVData_json \<lparr>Key = keyname, Val = data\<rparr>)
      in case nh_SyncPropose H nh kvdata of
           (Inr _, nh') \<Rightarrow> (None, gc_Set C c now name (CPointer data), nh')
         | (Inl err, nh') \<Rightarrow> (Some err, c, nh'))"

definition cert_Delete ::
    "('nh, 'a) nodehost_scheme \<Rightarrow> ('c, cert_value, 'b) gocache_scheme \<Rightarrow> 'nh \<Rightarrow> 'c \<Rightarrow> int \<Rightarrow> string \<Rightarrow> error option \<times> 'c \<times> 'nh" where
  "cert_Delete H C nh c now name = cert_Put H C nh (gc_Delete C c name) now name (Some [])"

section \<open>What a certificate manager reads back\<close>

context raft_kv
begin

lemma cert_Put_stored:
  assumes "cert_Put H C nh c now name data = (None, c', nh')" "utf8_ok (CACHE_PREFIX @ name)"
  shows "sm nh' (str_bytes (CACHE_PREFIX @ name)) = data" "c' = gc_Set C c now name (CPointer data)"
proof -
  let ?kv = "\<lparr>Key = CACHE_PREFIX @ name, Val = data\<rparr>"
  obtain v where p: "nh_SyncPropose H nh (json_Marshal (KVData_json ?kv)) = (Inr v, nh')"
    and c': "c' = gc_Set C c now name (CPointer data)"
    using assms(1) by (auto simp: cert_Put_def Let_def split: prod.splits sum.splits)
  have "Key ?kv \<noteq> []" "CACHE_PREFIX @ name \<noteq> appliedIndexKey"
    by (simp_all add: CACHE_PREFIX_def appliedIndexKey_def)
  then have "wrote ?kv (sm nh) (sm nh')"
    using propose_done [OF p] by (simp add: applied_def wrote_def cmd_effect_data kv_effect_def)
  from wrote_same [OF this] assms(2) \<open>CACHE_PREFIX @ name \<noteq> appliedIndexKey\<close>
  show "sm nh' (str_bytes (CACHE_PREFIX @ name)) = data" by simp
  show "c' = gc_Set C c now name (CPointer data)" by (rule c')
qed

lemma cert_Get_cold:
  assumes "gc_Get C c now name = None" "nh_SyncRead H nh (QString (CACHE_PREFIX @ name)) = Inr v"
  shows "fst (cert_Get H C nh c now name) =
    (if slice_bytes (sm nh (str_bytes (CACHE_PREFIX @ name))) = [] then Err ErrCacheMiss else Ok (sm nh (str_bytes (CACHE_PREFIX @ name))))"
  using assms read_string [OF assms(2)] by (simp add: cert_Get_def)

end

text \<open>
  C35. A certificate that was put is read back by every node whose memory cache does not hold the
  name, and so is its deletion, as a miss. The node that put it panics instead for the lifetime of
  its memory cache (an hour): \<open>Put\<close> caches a pointer to the data, \<open>Get\<close> asserts the data itself.
\<close>

theorem cert_put_get:
  assumes "raft_kv H sm" "go_cache C life" "utf8_ok (CACHE_PREFIX @ name)"
    and "cert_Put H C nh c t name data = (None, c1, nh1) \<and> data \<noteq> Some [] \<and> data \<noteq> None
      \<or> cert_Delete H C nh c t name = (None, c1, nh1) \<and> data = None"
    and "nh_SyncRead H nh1 (QString (CACHE_PREFIX @ name)) = Inr v" "t \<le> t'" "gc_Get C other t' name = None"
  shows "fst (cert_Get H C nh1 other t' name) = (case data of None \<Rightarrow> Err ErrCacheMiss | Some _ \<Rightarrow> Ok data)
    \<and> fst (cert_Get H C nh1 c1 t' name) =
        (if t' \<le> t + life then Panic ''interface conversion'' else case data of None \<Rightarrow> Err ErrCacheMiss | Some _ \<Rightarrow> Ok data)"
proof -
  obtain c0 stored where put: "cert_Put H C nh c0 t name stored = (None, c1, nh1)"
    and data: "data = (if slice_bytes stored = [] then None else stored)"
  proof (cases "cert_Put H C nh c t name data = (None, c1, nh1) \<and> data \<noteq> Some [] \<and> data \<noteq> None")
    case True
    then show thesis by (intro that [of c data]) auto
  next
    case False
    with assms(4) show thesis by (intro that [of "gc_Delete C c name" "Some []"]) (auto simp: cert_Delete_def)
  qed
  note stored = raft_kv.cert_Put_stored [OF assms(1) put assms(3)]
  have cold: "fst (cert_Get H C nh1 cc t' name) = (case data of None \<Rightarrow> Err ErrCacheMiss | Some _ \<Rightarrow> Ok data)"
    if "gc_Get C cc t' name = None" for cc
    using raft_kv.cert_Get_cold [OF assms(1) that assms(5)] stored(1) data by (cases stored) auto
  show ?thesis
  proof (cases "t' \<le> t + life")
    case True
    then have "gc_Get C c1 t' name = Some (CPointer stored)" using go_cache.get_set_same [OF assms(2,6)] stored(2) by simp
    then show ?thesis using True cold [OF assms(7)] by (simp add: cert_Get_def)
  next
    case False
    then have "gc_Get C c1 t' name = None" using go_cache.get_set_expired [OF assms(2,6)] stored(2) by simp
    with False cold [OF assms(7)] cold show ?thesis by simp
  qed
qed

theorem cert_put_get_witness:
  "\<exists>c1 nh1. cert_Put (single_host ref_pebble) (ref_cache 3600) (example_host []) Map.empty 0 ''h'' (Some [1, 2]) = (None, c1, nh1)
    \<and> fst (cert_Get (single_host ref_pebble) (ref_cache 3600) nh1 Map.empty 10 ''h'') = Ok (Some [1, 2])
    \<and> fst (cert_Get (single_host ref_pebble) (ref_cache 3600) nh1 c1 10 ''h'') = Panic ''interface conversion''"
proof -
  let ?H = "single_host ref_pebble" and ?C = "ref_cache 3600 :: (string \<rightharpoonup> cert_value \<times> int, cert_value) gocache"
  let ?kv = "\<lparr>Key = CACHE_PREFIX @ ''h'', Val = Some [1, 2]\<rparr>"
  have "Key ?kv \<noteq> []" by simp
  note ops = entry_ops_data [OF this]
  obtain v nh1 c where p: "single_propose ref_pebble (example_host []) (json_Marshal (KVData_json ?kv)) = (Inr v, nh1)" "live nh1 = Some c"
    by (rule single_propose_Ok [OF example_host_simps(1) ops]) auto
  define c1 where "c1 = gc_Set ?C Map.empty 0 ''h'' (CPointer (Some [1, 2]))"
  have put: "cert_Put ?H ?C (example_host []) Map.empty 0 ''h'' (Some [1, 2]) = (None, c1, nh1)"
    using p(1) by (simp add: cert_Put_def c1_def)
  have read: "nh_SyncRead ?H nh1 (QString (CACHE_PREFIX @ ''h'')) = Inr (RBytes (host_map ref_pebble nh1 (str_bytes (CACHE_PREFIX @ ''h''))))"
    using p(2) refdb.Get_spec [OF p(2), of "CACHE_PREFIX @ ''h''"]
    by (simp add: single_read_def Lookup_def decode_query_def host_map_def store_def)
  have pre: "utf8_ok (CACHE_PREFIX @ ''h'')" "(0 :: int) \<le> 10" "gc_Get ?C Map.empty 10 ''h'' = None"
    by (simp_all add: CACHE_PREFIX_def utf8_ok_ascii is_ascii_def)
  have "cert_Put ?H ?C (example_host []) Map.empty 0 ''h'' (Some [1, 2]) = (None, c1, nh1) \<and> Some [1, 2] \<noteq> Some [] \<and> Some [1, 2 :: 8 word] \<noteq> None
      \<or> cert_Delete ?H ?C (example_host []) Map.empty 0 ''h'' = (None, c1, nh1) \<and> Some [1, 2 :: 8 word] = None"
    using put by simp
  from cert_put_get [OF refdb.single.raft_kv_axioms refcache.go_cache_axioms pre(1) this read pre(2,3)] put
  show ?thesis by auto
qed

end
