(* ===== verification/Raft_Watcher.thy ===== *)
theory Raft_Watcher
  imports Kv_Serve Go_Cache
begin

text \<open>
  The watcher of the leader (\<open>kvwatcher.go\<close>): every second it asks all replicas for their status and
  removes replicas that do not answer. The clock (in nanoseconds) and the answers of the replicas
  are arguments; the loop of the worker and its stopper are not modelled, one tick is one step.
\<close>

definition BOOTSTRAP_WAIT_S :: int where
  "BOOTSTRAP_WAIT_S = 60"

definition status_url :: "string \<Rightarrow> string \<Rightarrow> string" where
  "status_url ver host = ''http://'' @ host @ API_PORT @ ''/roo/'' @ ver @ ''/status''"

text \<open>
  The threshold the age of the last answer is compared with: in Go \<open>^\<close> is the exclusive or, and it
  binds weaker than the product.
\<close>

definition ping_threshold :: int where
  "ping_threshold = xor (BOOTSTRAP_WAIT_S * 10) 9"

definition member_host :: "string \<Rightarrow> string" where
  "member_host node = (case SplitHostPort node of Some (host, port) \<Rightarrow> host | None \<Rightarrow> [])"

text \<open>
  One replica, handled at time \<open>now\<close>: whether its removal was requested, the cache of the last answers
  and the state of the host. \<open>ping\<close> gives the status of the answer to a request, nothing for an error.
\<close>

definition watch_member ::
    "('nh, 'a) cluster_host_scheme \<Rightarrow> ('c, int, 'b) gocache_scheme \<Rightarrow> uint64 \<Rightarrow> string \<Rightarrow> (string \<Rightarrow> nat option)
      \<Rightarrow> uint64 \<times> string \<times> int \<Rightarrow> 'c \<Rightarrow> 'nh \<Rightarrow> (bool outcome) \<times> 'c \<times> 'nh" where
  "watch_member H C shard ver ping = (\<lambda>(ReplicaID, node, now) c nh.
     let host = member_host node; url = status_url ver host in
     if url_Parse url = None then (Panic ''nil pointer dereference'', c, nh)
     else if ok_status (ping url) then (Ok False, gc_Set C c now host now, nh)
     else case gc_Get C c now host of
       Some pinged \<Rightarrow>
         if now - pinged > ping_threshold
         then (Ok True, c, snd (nh_RequestDeleteReplica H nh shard ReplicaID))
         else (Ok False, c, nh)
     | None \<Rightarrow> (Ok True, c, snd (nh_RequestDeleteReplica H nh shard ReplicaID)))"

text \<open>The loop over the members, with the replicas whose removal was requested.\<close>

fun watch_members ::
    "('nh, 'a) cluster_host_scheme \<Rightarrow> ('c, int, 'b) gocache_scheme \<Rightarrow> uint64 \<Rightarrow> string \<Rightarrow> (string \<Rightarrow> nat option)
      \<Rightarrow> (uint64 \<times> string \<times> int) list \<Rightarrow> 'c \<Rightarrow> 'nh \<Rightarrow> (uint64 list outcome) \<times> 'c \<times> 'nh" where
  "watch_members H C shard ver ping [] c nh = (Ok [], c, nh)"
| "watch_members H C shard ver ping (m # ms) c nh = (case watch_member H C shard ver ping m c nh of
     (Ok removed, c1, nh1) \<Rightarrow>
       (let (r, c2, nh2) = watch_members H C shard ver ping ms c1 nh1
        in (map_outcome2 (\<lambda>ids. if removed then fst m # ids else ids) r, c2, nh2))
   | (Err e, c1, nh1) \<Rightarrow> (Err e, c1, nh1)
   | (Panic p, c1, nh1) \<Rightarrow> (Panic p, c1, nh1))"

text \<open>One tick: nothing unless this replica leads and the membership could be read.\<close>

definition watch_tick ::
    "('nh, 'a) cluster_host_scheme \<Rightarrow> ('c, int, 'b) gocache_scheme \<Rightarrow> bool \<Rightarrow> uint64 \<Rightarrow> string \<Rightarrow> (string \<Rightarrow> nat option)
      \<Rightarrow> error + (uint64 \<times> string \<times> int) list \<Rightarrow> 'c \<Rightarrow> 'nh \<Rightarrow> (uint64 list outcome) \<times> 'c \<times> 'nh" where
  "watch_tick H C leader shard ver ping membership c nh =
     (if \<not> leader then (Ok [], c, nh)
      else case membership of
        Inl cerr \<Rightarrow> (Ok [], c, nh)
      | Inr nodes \<Rightarrow> watch_members H C shard ver ping nodes c nh)"

section \<open>Which replicas are removed\<close>

lemma ping_threshold_value: "ping_threshold = 593"
  by (simp add: ping_threshold_def BOOTSTRAP_WAIT_S_def)

definition unanswered :: "string \<Rightarrow> (string \<Rightarrow> nat option) \<Rightarrow> uint64 \<times> string \<times> int \<Rightarrow> bool" where
  "unanswered ver ping = (\<lambda>(ReplicaID, node, now). \<not> ok_status (ping (status_url ver (member_host node))))"

text \<open>The answers in the cache are at least as old as \<open>B\<close>.\<close>

definition pinged_before :: "('c, int, 'b) gocache_scheme \<Rightarrow> int \<Rightarrow> 'c \<Rightarrow> bool" where
  "pinged_before C B c \<longleftrightarrow> (\<forall>h t p. B \<le> t \<longrightarrow> gc_Get C c t h = Some p \<longrightarrow> p \<le> B)"

lemma pinged_before_mono: "pinged_before C B c \<Longrightarrow> B \<le> B' \<Longrightarrow> pinged_before C B' c"
  unfolding pinged_before_def by (meson order_trans)

lemma pinged_before_set:
  fixes C :: "('c, int, 'b) gocache_scheme"
  assumes "go_cache C life" "pinged_before C B c" "now \<le> B"
  shows "pinged_before C B (gc_Set C c now h now)"
  unfolding pinged_before_def
proof (intro allI impI)
  fix h' t p assume t: "B \<le> t" and g: "gc_Get C (gc_Set C c now h now) t h' = Some p"
  have "now \<le> t" using t assms(3) by simp
  from go_cache.get_set [OF assms(1) this, of c h now h'] g have "p = now \<or> gc_Get C c t h' = Some p" by (auto split: if_splits)
  then show "p \<le> B" using assms(2,3) t by (auto simp: pinged_before_def)
qed

lemma watch_members_exact:
  fixes C :: "('c, int, 'b) gocache_scheme"
  assumes "go_cache C life"
  shows "sorted (map (snd \<circ> snd) ms) \<Longrightarrow> \<forall>m\<in>set ms. snd (snd m) \<le> T \<and> url_Parse (status_url ver (member_host (fst (snd m)))) \<noteq> None \<Longrightarrow>
    \<forall>m\<in>set ms. unanswered ver ping m \<longrightarrow> (\<forall>p. gc_Get C c (snd (snd m)) (member_host (fst (snd m))) = Some p \<longrightarrow> p + ping_threshold < snd (snd m)) \<Longrightarrow>
    pinged_before C T c \<Longrightarrow>
    \<exists>c' nh'. watch_members H C shard ver ping ms c nh = (Ok (map fst (filter (unanswered ver ping) ms)), c', nh') \<and> pinged_before C T c'"
proof (induction ms arbitrary: c nh)
  case (Cons m ms)
  obtain ident node now where m: "m = (ident, node, now)" by (rule prod_cases3)
  show ?case
  proof (cases "unanswered ver ping m")
    case True
    then have "watch_member H C shard ver ping m c nh = (Ok True, c, snd (nh_RequestDeleteReplica H nh shard ident))"
      using Cons.prems(2,3) by (auto simp: watch_member_def m unanswered_def Let_def split: option.split)
    then show ?thesis
      using Cons.IH [of c "snd (nh_RequestDeleteReplica H nh shard ident)"] Cons.prems True by (auto simp: m)
  next
    case False
    let ?c = "gc_Set C c now (member_host node) now"
    have "watch_member H C shard ver ping m c nh = (Ok False, ?c, nh)"
      using Cons.prems(2) False by (auto simp: watch_member_def m unanswered_def Let_def)
    moreover have "pinged_before C T ?c" using Cons.prems(2,4) by (intro pinged_before_set [OF assms]) (auto simp: m)
    moreover have "\<forall>m'\<in>set ms. unanswered ver ping m' \<longrightarrow>
        (\<forall>p. gc_Get C ?c (snd (snd m')) (member_host (fst (snd m'))) = Some p \<longrightarrow> p + ping_threshold < snd (snd m'))"
    proof (intro ballI impI)
      fix m' assume m': "m' \<in> set ms" "unanswered ver ping m'"
      then have "member_host (fst (snd m')) \<noteq> member_host node" "now \<le> snd (snd m')"
        using False Cons.prems(1) by (auto simp: m unanswered_def split_beta)
      then have "gc_Get C ?c (snd (snd m')) (member_host (fst (snd m'))) = gc_Get C c (snd (snd m')) (member_host (fst (snd m')))"
        by (intro go_cache.get_set_other [OF assms]) auto
      then show "\<forall>p. gc_Get C ?c (snd (snd m')) (member_host (fst (snd m'))) = Some p \<longrightarrow> p + ping_threshold < snd (snd m')"
        using Cons.prems(3) m' by auto
    qed
    ultimately show ?thesis using Cons.IH [of ?c nh] Cons.prems(1,2) False by auto
  qed
qed simp



end
