(* ===== verification/Serve_Effects.thy ===== *)
theory Serve_Effects
  imports Kv_Serve
begin

text \<open>
  What the requests of the service may change. The program keeps its own records (peers, routes,
  certificates, roles) under \<open>com.roo.\<close>; permissions, cached grants and expiry records have the
  prefixes \<open>p:\<close>, \<open>c:\<close> and \<open>ttl:\<close>. The lemmas below show which requests reach which keys.
\<close>

section \<open>Keys\<close>

definition reserved :: "string \<Rightarrow> bool" where
  "reserved k \<longleftrightarrow> prefix ''com.roo.'' k"

lemma reserved_not_index: "reserved k \<Longrightarrow> k \<noteq> appliedIndexKey"
  by (auto simp: reserved_def appliedIndexKey_def)

lemma coerce_prefix:
  assumes "is_ascii p" "prefix p s"
  shows "prefix p (utf8_coerce s)"
  using assms by (auto simp: prefix_def utf8_coerce_ascii_append)

lemma reserved_other:
  assumes "reserved k" "prefix p s" "p \<in> {''p:'', ''c:'', ''ttl:''}"
  shows "k \<noteq> utf8_coerce s"
proof -
  have "prefix p (utf8_coerce s)" using assms(2,3) by (intro coerce_prefix) (auto simp: is_ascii_def)
  with assms(1,3) show ?thesis by (auto simp: reserved_def prefix_def)
qed

text \<open>The keys that authorization does not write.\<close>

definition outside_cache :: "string \<Rightarrow> bool" where
  "outside_cache k \<longleftrightarrow> \<not> prefix ''c:'' k \<and> \<not> prefix ''ttl:'' k \<and> k \<noteq> appliedIndexKey"

lemma reserved_outside_cache: "reserved k \<Longrightarrow> outside_cache k"
  using reserved_not_index by (auto simp: outside_cache_def reserved_def prefix_def)

lemma outside_cache_other:
  assumes "outside_cache k" "prefix p s" "p \<in> {''c:'', ''ttl:''}"
  shows "k \<noteq> utf8_coerce s"
proof -
  have "prefix p (utf8_coerce s)" using assms(2,3) by (intro coerce_prefix) (auto simp: is_ascii_def)
  with assms(1,3) show ?thesis by (auto simp: outside_cache_def)
qed

section \<open>Permission requests and the reserved keys\<close>

lemma authorize_entities_cache:
  "authorize_entities H cfg now rnd nh request path es = (b, nh') \<Longrightarrow>
   nh' = nh \<or> (\<exists>e c. nh' = snd (cache H cfg now rnd nh request e c))"
  by (induction es) (auto split: if_splits)

lemma permission_kv_prefix: "prefix ''p:'' (Key (permission_kv p))"
  by (auto simp: permission_kv_def Let_def prefix_def)

lemma getCacheKey_prefix: "prefix ''c:'' (getCacheKey q)"
  by (auto simp: getCacheKey_def Let_def prefix_def)

context raft_kv
begin

lemma authorize_cache:
  assumes "authorize H cfg now rnd nh request = (b, nh')"
  shows "nh' = nh \<or> (\<exists>e c. nh' = snd (cache H cfg now rnd nh request e c))"
proof -
  have "nh' = nh \<or> (\<exists>e c. nh' = snd (cache H cfg now rnd nh request e c))"
    if "authorize_paths H cfg now rnd nh request first path parts = (b, nh')" for first path parts b
    using that
  proof (induction parts arbitrary: first path)
    case (Cons part parts)
    define path' where "path' = (if first then path else path @ ''/'' @ part)"
    obtain b1 nh1 where e: "authorize_entities H cfg now rnd nh request path' (r_Entities request) = (b1, nh1)" by fastforce
    show ?case
    proof (cases b1)
      case True
      with Cons.prems e authorize_entities_cache [OF e] show ?thesis
        by (auto simp: Let_def path'_def [symmetric] split: if_splits)
    next
      case False
      have "nh1 = nh" using authorize_entities_state e False by fastforce
      with Cons e False show ?thesis by (auto simp: Let_def path'_def [symmetric] split: if_splits)
    qed
  qed simp
  with assms show ?thesis unfolding authorize_alt by (auto split: if_splits)
qed

lemma propose_data_other:
  assumes "nh_SyncPropose H nh (json_Marshal (KVData_json kv)) = (r, nh')" "Key kv \<noteq> []"
    and "k \<noteq> utf8_coerce (Key kv)" "k \<noteq> appliedIndexKey"
  shows "sm nh' (str_bytes k) = sm nh (str_bytes k)"
  using propose_cases [OF assms(1)] assms(2-4)
  by (auto simp: applied_def with_index_def cmd_effect_data kv_effect_def)

lemma ttl_other:
  assumes "outside_cache k"
  shows "sm (snd (ttl H cfg now rnd nh key)) (str_bytes k) = sm nh (str_bytes k)"
proof -
  let ?kv = "\<lparr>Key = ''ttl:'' @ show_int_pad 15 (int64 (now + CacheSeconds cfg)) @ '':'' @ rnd, Val = Some (str_bytes key)\<rparr>"
  obtain r nh' where p: "nh_SyncPropose H nh (json_Marshal (KVData_json ?kv)) = (r, nh')" by (rule prod.exhaust)
  have "prefix ''ttl:'' (Key ?kv)" by (auto simp: prefix_def)
  then have "k \<noteq> utf8_coerce (Key ?kv)" using outside_cache_other [OF assms] by blast
  with propose_data_other [OF p] assms p show ?thesis
    by (simp add: ttl_def Let_def outside_cache_def split: sum.split)
qed

lemma cache_other:
  assumes "outside_cache k"
  shows "sm (snd (cache H cfg now rnd nh q e c)) (str_bytes k) = sm nh (str_bytes k)"
proof (cases "CacheSeconds cfg \<le> 1")
  case False
  let ?kv = "\<lparr>Key = getCacheKey q,
    Val = Some (str_bytes (''e:'' @ ts_Val e @ '':'' @ show_rune (ts_Rune c) @ '':'' @ ts_Val c))\<rparr>"
  obtain r nh1 where p: "nh_SyncPropose H nh (json_Marshal (KVData_json ?kv)) = (r, nh1)" by (rule prod.exhaust)
  have pre: "prefix ''c:'' (Key ?kv)" using getCacheKey_prefix by simp
  then have ne: "Key ?kv \<noteq> []" by auto
  have "k \<noteq> utf8_coerce (Key ?kv)" "k \<noteq> appliedIndexKey"
    using outside_cache_other [OF assms] assms pre by (auto simp: outside_cache_def)
  from propose_data_other [OF p ne this] p False ttl_other [OF assms] show ?thesis
    by (cases r) (simp_all add: cache_def Let_def)
qed (simp add: cache_off)

lemma authorize_other:
  assumes "authorize H cfg now rnd nh q = (b, nh')" "outside_cache k"
  shows "sm nh' (str_bytes k) = sm nh (str_bytes k)"
  using authorize_cache [OF assms(1)] cache_other [OF assms(2)] by auto

lemmas authorize_reserved = authorize_other [OF _ reserved_outside_cache]

lemma permiss_reserved:
  assumes "permiss H nh ps = (r, nh')" "reserved k"
  shows "sm nh' (str_bytes k) = sm nh (str_bytes k)"
proof -
  let ?cmd = "json_Marshal (KVBatch_json \<lparr>kb_Action = act_PUT, kb_Batch = Some (map Some (map permission_kv ps))\<rparr>)"
  obtain x where "nh_SyncPropose H nh ?cmd = (x, nh')"
    using assms(1) by (auto simp: permiss_def split: prod.splits sum.splits)
  from propose_cases [OF this] consider "sm nh' = sm nh"
    | i where "sm nh' = with_index i (fold kv_effect (map coerce_KVData (map permission_kv ps)) (sm nh))"
    unfolding applied_def cmd_effect_batch by blast
  then show ?thesis
  proof cases
    case 2
    have "\<forall>kv\<in>set (map coerce_KVData (map permission_kv ps)). str_bytes (Key kv) \<noteq> str_bytes k"
      using reserved_other [OF assms(2) permission_kv_prefix] by auto
    with 2 fold_kv_effect_other reserved_not_index [OF assms(2)] show ?thesis by (simp add: with_index_def)
  qed simp
qed

lemma scan_query_any:
  assumes "nh_SyncRead H nh (QBytes (json_Marshal (KVAction_json (action_of act_SCAN kv)))) = Inr v"
  shows "\<exists>r. v = RMap r \<and> distinct (map fst r) \<and> map_of r = map_scan (sm nh) (utf8_coerce (Key kv))"
proof -
  have "decode_query (QBytes (json_Marshal (KVAction_json (action_of act_SCAN kv)))) = Ok (action_of act_SCAN (coerce_KVData kv))"
    using utf8_actions by (simp add: decode_query_def Unmarshal_Marshal dec_KVAction_json utf8_ok_def)
  with read_answers [OF assms] show ?thesis by (simp add: answers_def)
qed

lemma revoke_reserved:
  assumes "revoke H nh user = (r, nh')" "reserved k"
  shows "sm nh' (str_bytes k) = sm nh (str_bytes k)"
proof -
  let ?kv = "\<lparr>Key = ''c:'' @ user, Val = None\<rparr>"
  obtain x where x: "nh_SyncRead H nh (QBytes (json_Marshal (KVAction_json (action_of act_SCAN ?kv)))) = x" by simp
  show ?thesis
  proof (cases "\<exists>items. x = Inr (RMap items)")
    case True
    then obtain items where items: "x = Inr (RMap items)" "distinct (map fst items)"
      "map_of items = map_scan (sm nh) (utf8_coerce (''c:'' @ user))"
      using scan_query_any [of nh ?kv] x by auto
    have "prefix ''c:'' (utf8_coerce (''c:'' @ user))" by (intro coerce_prefix) (auto simp: is_ascii_def prefix_def)
    then have pre: "prefix ''c:'' i" if "(i, b) \<in> set items" for i b
      using map_items_iff [OF items(2,3)] that by (auto simp: map_scan_def prefix_def split: if_splits)
    have "\<not> removes i (str_bytes k)" if "(i, b) \<in> set items" for i b
      using reserved_other [OF assms(2) pre [OF that]] by (simp add: removes_def)
    moreover have "nh' = revoke_loop H nh items" using assms(1) x items(1) by (simp add: revoke_def)
    ultimately show ?thesis
      using revoke_loop_effect [of "str_bytes k" nh items] reserved_not_index [OF assms(2)] by auto
  next
    case False
    with assms(1) x have "nh' = nh" by (auto simp: revoke_def Let_def split: sum.splits lookup_result.splits)
    then show ?thesis by simp
  qed
qed

end

section \<open>Properties\<close>

definition put_key :: "ServiceArgs \<Rightarrow> string \<Rightarrow> bool" where
  "put_key s k \<longleftrightarrow> sa_ServiceType s = SERVE_PUT_KV \<and> (\<exists>key. svalue s ''key'' = Some key \<and> k = utf8_coerce key)"

definition join_key :: "ServiceArgs \<Rightarrow> http_request \<Rightarrow> string \<Rightarrow> bool" where
  "join_key s r k \<longleftrightarrow> sa_ServiceType s = SERVE_POST_JOIN \<and>
     (\<exists>body cs ok. rq_Body r = Inr body \<and> json_Unmarshal dec_ClusterStatus body zero_ClusterStatus = (cs, ok)
        \<and> k = utf8_coerce (peer_key (cs_Binding cs)))"

lemma serve_post_join_state:
  assumes "serve_post_join H nh w r = (res, w', acts, nh')"
  shows "nh' = nh \<or> (\<exists>body cs ok nh1 x. rq_Body r = Inr body
    \<and> json_Unmarshal dec_ClusterStatus body zero_ClusterStatus = (cs, ok) \<and> join_prune H nh cs = (x, nh1)
    \<and> (nh' = nh1 \<or> (\<exists>y. join_add H nh1 cs = (y, nh'))))"
proof (cases "\<exists>body cs. rq_Body r = Inr body \<and> body \<noteq> [] \<and> json_Unmarshal dec_ClusterStatus body zero_ClusterStatus = (cs, True)")
  case True
  then obtain body cs where b: "rq_Body r = Inr body" "body \<noteq> []" "json_Unmarshal dec_ClusterStatus body zero_ClusterStatus = (cs, True)"
    by blast
  obtain x nh1 where p: "join_prune H nh cs = (x, nh1)" by (rule prod.exhaust)
  obtain y nh2 where a: "join_add H nh1 cs = (y, nh2)" by (rule prod.exhaust)
  have "nh' = nh1 \<or> nh' = nh2" using assms b p a by (cases x; cases y) (simp_all add: serve_post_join_def)
  then have "nh' = nh1 \<or> (\<exists>y. join_add H nh1 cs = (y, nh'))" using a by auto
  with b(1,3) p show ?thesis by blast
next
  case False
  then show ?thesis using assms by (auto simp: serve_post_join_def split: sum.splits if_splits prod.splits bool.splits)
qed

context cluster_kv
begin

lemma execute_get_sm: "execute H nh (get_action k) = (r, nh') \<Longrightarrow> nh' = nh"
  using execute_get [of nh k] execute_failed [of nh "get_action k"] by (cases r) auto

lemma execute_scan_sm: "execute H nh (scan_action k) = (r, nh') \<Longrightarrow> nh' = nh"
  using execute_scan [of nh k] execute_failed [of nh "scan_action k"] by (cases r) auto

lemma execute_put_other:
  "execute H nh (put_action key v) = (r, nh') \<Longrightarrow> k \<noteq> utf8_coerce key \<Longrightarrow> k \<noteq> appliedIndexKey \<Longrightarrow>
   sm nh' (str_bytes k) = sm nh (str_bytes k)"
  by (rule execute_frame) auto

lemma join_prune_old:
  assumes "join_prune H nh cs = (Ok (), nh1)" "execute H nh (get_action (peer_key (cs_Binding cs))) = (Inr v, nh0)"
    and "sm nh (str_bytes (peer_key (cs_Binding cs))) = Some (str_bytes (show_uint64 old))" "old \<noteq> cs_ReplicaID cs"
  shows "\<exists>nh2. nh_RequestDeleteReplica H nh (cs_ShardID cs) old = (None, nh2)"
proof -
  have v: "v = VRead (RBytes (Some (str_bytes (show_uint64 old))))" "nh0 = nh"
    using execute_get [OF assms(2)] assms(3) by simp_all
  have "show_uint64 old \<noteq> show_uint64 (cs_ReplicaID cs)" using assms(4) by (simp add: show_uint64_def word_unat_eq_iff)
  moreover obtain e nh2 where "nh_RequestDeleteReplica H nh (cs_ShardID cs) old = (e, nh2)" by (rule prod.exhaust)
  ultimately show ?thesis using assms(1,2) v by (cases e) (simp_all add: join_prune_def)
qed

lemma join_add_other:
  assumes "join_add H nh cs = (r, nh')" "k \<noteq> utf8_coerce (peer_key (cs_Binding cs))" "k \<noteq> appliedIndexKey"
  shows "sm nh' (str_bytes k) = sm nh (str_bytes k)"
proof -
  obtain x nh1 where a: "nh_RequestAddReplica H nh (cs_ShardID cs) (cs_ReplicaID cs) (cs_Binding cs @ KV_PORT) = (x, nh1)"
    by (rule prod.exhaust)
  let ?p = "put_action (peer_key (cs_Binding cs)) (Some (str_bytes (show_uint64 (cs_ReplicaID cs))))"
  obtain y nh2 where e: "execute H nh1 ?p = (y, nh2)" by (rule prod.exhaust)
  have "nh' = nh1 \<or> nh' = nh2" using assms(1) a e by (auto simp: join_add_def split: sum.splits option.splits)
  with add_replica [OF a] execute_put_other [OF e assms(2,3)] show ?thesis by auto
qed

text \<open>The cases of \<open>serve\<close> that write, on keys they are not meant for.\<close>

lemma serve_delete_perm_other:
  assumes "serve_delete_perm H nh w s = (res, w', acts, nh')" "reserved k"
  shows "sm nh' (str_bytes k) = sm nh (str_bytes k)"
proof (cases "svalue s ''user''")
  case (Some user)
  obtain x nh1 where x: "revoke H nh user = (x, nh1)" by (rule prod.exhaust)
  have "nh' = nh \<or> nh' = nh1" using assms(1) Some x by (cases x) (auto simp: serve_delete_perm_def split: if_splits)
  with revoke_reserved [OF x assms(2)] show ?thesis by auto
qed (use assms(1) in \<open>simp add: serve_delete_perm_def\<close>)

lemma serve_put_kv_other:
  assumes "serve_put_kv H nh w r s = (res, w', acts, nh')" "k \<noteq> appliedIndexKey"
    and "\<And>key. svalue s ''key'' = Some key \<Longrightarrow> k \<noteq> utf8_coerce key"
  shows "sm nh' (str_bytes k) = sm nh (str_bytes k)"
  using assms execute_put_other by (auto simp: serve_put_kv_def split: sum.splits prod.splits option.splits)

lemma serve_post_join_other:
  assumes "serve_post_join H nh w r = (res, w', acts, nh')" "k \<noteq> appliedIndexKey"
    and "\<And>body cs ok. rq_Body r = Inr body \<Longrightarrow> json_Unmarshal dec_ClusterStatus body zero_ClusterStatus = (cs, ok)
      \<Longrightarrow> k \<noteq> utf8_coerce (peer_key (cs_Binding cs))"
  shows "sm nh' (str_bytes k) = sm nh (str_bytes k)"
proof -
  from serve_post_join_state [OF assms(1)] consider "nh' = nh"
    | body cs ok nh1 x where "rq_Body r = Inr body" "json_Unmarshal dec_ClusterStatus body zero_ClusterStatus = (cs, ok)"
        "join_prune H nh cs = (x, nh1)" "nh' = nh1 \<or> (\<exists>y. join_add H nh1 cs = (y, nh'))" by blast
  then show ?thesis
  proof cases
    case (2 body cs ok nh1 x)
    have "sm nh' (str_bytes k) = sm nh1 (str_bytes k)" if "join_add H nh1 cs = (y, nh')" for y
      using join_add_other [OF that assms(3) [OF 2(1,2)] assms(2)] .
    with 2(4) join_prune_sm [OF 2(3)] show ?thesis by auto
  qed simp
qed

end

text \<open>Requests that only read, and those whose writes are left to a goroutine.\<close>

lemma serve_reads:
  assumes "cluster_kv H sm" "serve H cfg env nh w r s = (res, w', acts, nh')"
    and "sa_ServiceType s = SERVE_GET_KV \<or> sa_ServiceType s = SERVE_GET_KVS \<or> sa_ServiceType s = SERVE_POST_SWARM"
  shows "sm nh' = sm nh"
  using assms(3)
proof (elim disjE)
  assume "sa_ServiceType s = SERVE_GET_KV"
  with assms(2) cluster_kv.execute_get_sm [OF assms(1)] show ?thesis
    by (auto simp: serve_cases serve_get_kv_def split: sum.splits prod.splits option.splits exec_value.splits lookup_result.splits)
next
  assume "sa_ServiceType s = SERVE_GET_KVS"
  with assms(2) cluster_kv.execute_scan_sm [OF assms(1)] show ?thesis
    by (auto simp: serve_cases serve_get_kvs_def Let_def split: sum.splits prod.splits option.splits exec_value.splits)
next
  assume "sa_ServiceType s = SERVE_POST_SWARM"
  with assms(2) have "nh' = nh"
    by (auto simp: serve_cases serve_post_swarm_def updateFromSwarm_def split: outcome.splits)
  then show ?thesis by simp
qed



lemma serve_join_Ok:
  assumes "serve_post_join H nh w r = (Ok (), w', acts, nh')" "rq_Body r = Inr body"
    and "json_Unmarshal dec_ClusterStatus body zero_ClusterStatus = (cs, ok)"
  shows "\<exists>nh1. join_prune H nh cs = (Ok (), nh1) \<and> join_add H nh1 cs = (Ok (), nh') \<and> w' = WriteHeader 200 w"
proof -
  obtain x nh1 where p: "join_prune H nh cs = (x, nh1)" by (rule prod.exhaust)
  obtain y nh2 where a: "join_add H nh1 cs = (y, nh2)" by (rule prod.exhaust)
  have "ok" "body \<noteq> []" using assms by (cases ok; simp add: serve_post_join_def split: if_splits)+
  then show ?thesis
    using assms p a by (cases x; cases y) (simp_all add: serve_post_join_def)
qed

lemma peer_key_ok:
  assumes "utf8_ok b"
  shows "utf8_ok (peer_key b)" "peer_key b \<noteq> appliedIndexKey"
proof -
  have "utf8_ok PEER_PREFIX" "utf8_ok NODE_POSTFIX"
    by (simp_all add: utf8_ok_ascii is_ascii_def PEER_PREFIX_def NODE_POSTFIX_def)
  with assms show "utf8_ok (peer_key b)" unfolding peer_key_def by (simp only: utf8_ok_append)
qed (simp add: peer_key_def PEER_PREFIX_def appliedIndexKey_def)



end
