(* ===== verification/Bootstrap.thy ===== *)
theory Bootstrap
  imports Raft_Watcher Client_Address Serve_Effects
begin

text \<open>
  Starting a node (\<open>connect\<close> of \<open>kv.go\<close>): the choice of the address it binds to, the rounds in which
  it asks its peers whether there is a cluster to join or whether it is the oldest node and has to
  create one, the start of the replica, and the goroutine that announces the node in the store.

  The answers of the peers depend on when they are asked; the network is a state that every request
  takes and returns. A response is its status and what reading the body gives; a request that fails
  has no response. Ending the process (\<open>os.Exit\<close>, \<open>log.Fatalf\<close>) and panics are values.
\<close>

datatype 'a run = Run 'a | Exit string | Crash string

record 'n peers =
  pe_Get :: "'n \<Rightarrow> string \<Rightarrow> (nat \<times> (error + bytes)) option \<times> 'n"
  pe_Post :: "'n \<Rightarrow> string \<Rightarrow> bytes \<Rightarrow> nat option \<times> 'n"

section \<open>The binding\<close>

fun find_own :: "ip list \<Rightarrow> string \<Rightarrow> string" where
  "find_own [] tempBinding = []"
| "find_own (ip # ips) tempBinding = (if ip_String ip = tempBinding then tempBinding else find_own ips tempBinding)"

fun bind_host :: "ip \<Rightarrow> string list \<Rightarrow> string \<Rightarrow> string" where
  "bind_host ip [] binding = binding"
| "bind_host ip (h # hosts) binding = (if ip_String ip = h then h else bind_host ip hosts binding)"

fun bind_hosts :: "ip list \<Rightarrow> string list \<Rightarrow> string \<Rightarrow> string" where
  "bind_hosts [] hosts binding = binding"
| "bind_hosts (ip # ips) hosts binding = bind_hosts ips hosts (bind_host ip hosts binding)"

definition choose_binding :: "ip list \<Rightarrow> string list \<Rightarrow> string \<Rightarrow> string" where
  "choose_binding myIPs hosts binding =
     (let b = (if binding \<noteq> [] then find_own myIPs binding else binding)
      in if b = [] then bind_hosts myIPs hosts b else b)"

definition ipv4_host :: "string \<Rightarrow> bool" where
  "ipv4_host h \<longleftrightarrow> (case ParseIP h of None \<Rightarrow> False | Some ip \<Rightarrow> To4 ip \<noteq> None)"

fun other_hosts :: "string \<Rightarrow> string list \<Rightarrow> string list \<Rightarrow> string list" where
  "other_hosts binding [] tmp = tmp"
| "other_hosts binding (h # hosts) tmp =
     other_hosts binding hosts (if h \<noteq> binding \<and> ipv4_host h then tmp @ [h] else tmp)"

section \<open>Asking the peers\<close>

text \<open>What stays the same while the node connects.\<close>

record connection =
  cn_Binding :: string
  cn_ReplicaID :: uint64
  cn_ShardID :: uint64
  cn_Instantiated :: int
  cn_ver :: string

record 'n boot =
  olderThan :: int
  bootstrap :: bool
  readyToJoin :: bool
  waited :: int
  initialMembers :: "uint64 \<rightharpoonup> string"
  net :: 'n

definition started_url :: "string \<Rightarrow> string \<Rightarrow> string" where
  "started_url ver h = ''http://'' @ h @ API_PORT @ ''/roo/'' @ ver @ ''/kv/'' @ ROO_STARTED"

definition join_url :: "string \<Rightarrow> string \<Rightarrow> string" where
  "join_url ver h = ''http://'' @ h @ API_PORT @ ''/roo/'' @ ver @ ''/join''"

definition join_status :: "connection \<Rightarrow> ClusterStatus" where
  "join_status cn = zero_ClusterStatus\<lparr>cs_ReplicaID := cn_ReplicaID cn, cs_ShardID := cn_ShardID cn, cs_Binding := cn_Binding cn\<rparr>"

text \<open>A peer that does not answer is asked again, until the time is over.\<close>

function getNodeStatus ::
    "('n, 'a) peers_scheme \<Rightarrow> string \<Rightarrow> int \<Rightarrow> 'n \<Rightarrow> ((error + bytes) \<times> int \<times> 'n) run" where
  "getNodeStatus N url wtd n = (case pe_Get N n url of
     (Some (st, body), n') \<Rightarrow> Run (body, wtd, n')
   | (None, n') \<Rightarrow>
       if wtd + 1 \<ge> BOOTSTRAP_WAIT_S then Exit ''[ERROR] Could not confirm status from initial peers.''
       else getNodeStatus N url (wtd + 1) n')"
  by pat_completeness auto
termination
  by (relation "measure (\<lambda>(N, url, wtd, n). nat (BOOTSTRAP_WAIT_S - wtd))") auto

declare getNodeStatus.simps [simp del]

text \<open>Joining a cluster that has been bootstrapped; the second component says whether the loop over the hosts ends.\<close>

definition join_peer :: "('n, 'a) peers_scheme \<Rightarrow> connection \<Rightarrow> string \<Rightarrow> 'n boot \<Rightarrow> 'n boot \<times> bool" where
  "join_peer N cn h s =
     (let s = s\<lparr>bootstrap := False\<rparr>; csdata = json_Marshal (ClusterStatus_json (join_status cn)); url = join_url (cn_ver cn) h in
      if url_Parse url = None then (s, False)
      else
        (let (resp, n') = pe_Post N (net s) url csdata; s = s\<lparr>net := n'\<rparr> in
         if ok_status resp then (s\<lparr>initialMembers := Map.empty, readyToJoin := True\<rparr>, True) else (s, False)))"

definition checkBootstrap :: "('n, 'a) peers_scheme \<Rightarrow> connection \<Rightarrow> string \<Rightarrow> 'n boot \<Rightarrow> ('n boot \<times> bool) run" where
  "checkBootstrap N cn h s =
     (let url = started_url (cn_ver cn) h in
      if url_Parse url = None then Crash ''nil pointer dereference''
      else
        (let (resp, n') = pe_Get N (net s) url; s = s\<lparr>net := n'\<rparr> in
         case resp of
           Some (st, Inr body) \<Rightarrow>
             if ok_status (Some st) \<and> body = str_bytes ''true'' then Run (join_peer N cn h s)
             else Run (s\<lparr>bootstrap := True\<rparr>, False)
         | _ \<Rightarrow> Run (s\<lparr>bootstrap := True\<rparr>, False)))"

definition visit_host :: "('n, 'a) peers_scheme \<Rightarrow> connection \<Rightarrow> string \<Rightarrow> 'n boot \<Rightarrow> ('n boot \<times> bool) run" where
  "visit_host N cn h s =
     (if h = cn_Binding cn \<or> \<not> ipv4_host h then Run (s, False)
      else if url_Parse (status_url (cn_ver cn) h) = None then Crash ''nil pointer dereference''
      else case getNodeStatus N (status_url (cn_ver cn) h) (waited s) (net s) of
        Exit m \<Rightarrow> Exit m
      | Crash p \<Rightarrow> Crash p
      | Run (body, wtd, n') \<Rightarrow>
          (let s = s\<lparr>waited := wtd, net := n'\<rparr> in
           case body of
             Inl e \<Rightarrow> Run (s, False)
           | Inr data \<Rightarrow>
               (case json_Unmarshal dec_ClusterStatus data zero_ClusterStatus of
                  (_, False) \<Rightarrow> Run (s, False)
                | (st, True) \<Rightarrow>
                    if cs_Instantiated st = cn_Instantiated cn
                    then Exit ''[ERROR] Shutting down instance to avoid contention.''
                    else
                      (let s = (if cs_Instantiated st > cn_Instantiated cn then s\<lparr>olderThan := olderThan s + 1\<rparr> else s);
                           s = s\<lparr>initialMembers := (initialMembers s)(cs_ReplicaID st \<mapsto> cs_Binding st @ KV_PORT)\<rparr>
                       in if cs_Started st > 0 then checkBootstrap N cn h s else Run (s, False)))))"

fun visit_hosts :: "('n, 'a) peers_scheme \<Rightarrow> connection \<Rightarrow> string list \<Rightarrow> 'n boot \<Rightarrow> 'n boot run" where
  "visit_hosts N cn [] s = Run s"
| "visit_hosts N cn (h # hosts) s = (case visit_host N cn h s of
     Exit m \<Rightarrow> Exit m
   | Crash p \<Rightarrow> Crash p
   | Run (s', stop) \<Rightarrow> if stop then Run s' else visit_hosts N cn hosts s')"

section \<open>Rounds\<close>

lemma getNodeStatus_waited: "getNodeStatus N url wtd n = Run (body, wtd', n') \<Longrightarrow> wtd \<le> wtd' \<and> (wtd' < BOOTSTRAP_WAIT_S \<or> wtd' = wtd)"
proof (induction N url wtd n rule: getNodeStatus.induct)
  case (1 N url wtd n)
  obtain reply n1 where r: "pe_Get N n url = (reply, n1)" by (rule prod.exhaust)
  show ?case
  proof (cases reply)
    case None
    with r 1(2) have "getNodeStatus N url (wtd + 1) n1 = Run (body, wtd', n')" "\<not> BOOTSTRAP_WAIT_S \<le> wtd + 1"
      by (simp_all add: getNodeStatus.simps [of N url wtd] split: if_splits)
    with 1(1) [OF r [symmetric] None] show ?thesis by auto
  next
    case (Some x)
    with r 1(2) show ?thesis by (cases x) (simp add: getNodeStatus.simps)
  qed
qed

definition waits :: "'n boot \<Rightarrow> 'n boot \<Rightarrow> bool" where
  "waits s s' \<longleftrightarrow> waited s \<le> waited s' \<and> (waited s' < BOOTSTRAP_WAIT_S \<or> waited s' = waited s)"

lemma waits_trans: "waits s s' \<Longrightarrow> waits s' s'' \<Longrightarrow> waits s s''"
  by (auto simp: waits_def)

lemma waits_same: "waited s' = waited s \<Longrightarrow> waits s s'"
  by (simp add: waits_def)

lemma join_peer_waited: "join_peer N cn h s = (s', stop) \<Longrightarrow> waited s' = waited s"
  by (auto simp: join_peer_def Let_def split: prod.splits if_splits)

lemma checkBootstrap_waited: "checkBootstrap N cn h s = Run (s', stop) \<Longrightarrow> waited s' = waited s"
  by (auto simp: checkBootstrap_def Let_def split: prod.splits if_splits option.splits sum.splits dest!: join_peer_waited)

lemma visit_host_waits:
  assumes "visit_host N cn h s = Run (s', stop)"
  shows "waits s s'"
proof (cases "h = cn_Binding cn \<or> \<not> ipv4_host h")
  case True
  with assms show ?thesis by (simp add: visit_host_def waits_same)
next
  case False
  obtain body wtd n' where g: "getNodeStatus N (status_url (cn_ver cn) h) (waited s) (net s) = Run (body, wtd, n')"
    using assms False by (cases "getNodeStatus N (status_url (cn_ver cn) h) (waited s) (net s)") (auto simp: visit_host_def split: if_splits)
  have "waited s' = wtd"
    using assms False g
    by (auto simp: visit_host_def Let_def split: if_splits sum.splits prod.splits bool.splits dest!: checkBootstrap_waited)
  with getNodeStatus_waited [OF g] show ?thesis by (simp add: waits_def)
qed

lemma visit_hosts_waits: "visit_hosts N cn hosts s = Run s' \<Longrightarrow> waits s s'"
proof (induction hosts arbitrary: s)
  case (Cons h hosts)
  then obtain s1 stop where v: "visit_host N cn h s = Run (s1, stop)" by (auto split: run.splits)
  with Cons.prems have "s' = s1 \<or> visit_hosts N cn hosts s1 = Run s'" by (auto split: if_splits)
  with Cons.IH [of s1] visit_host_waits [OF v] show ?case by (auto intro: waits_trans)
qed (simp add: waits_same)

function rounds :: "('n, 'a) peers_scheme \<Rightarrow> connection \<Rightarrow> string list \<Rightarrow> 'n boot \<Rightarrow> 'n boot run" where
  "rounds N cn hosts s = (case visit_hosts N cn hosts (s\<lparr>olderThan := 0\<rparr>) of
     Exit m \<Rightarrow> Exit m
   | Crash p \<Rightarrow> Crash p
   | Run s' \<Rightarrow>
       (let s' = s'\<lparr>waited := waited s' + 1\<rparr> in
        if bootstrap s' then Run s'
        else if olderThan s' = int (length hosts) then Run (s'\<lparr>bootstrap := True\<rparr>)
        else if readyToJoin s' then Run (s'\<lparr>bootstrap := False\<rparr>)
        else if waited s' \<ge> BOOTSTRAP_WAIT_S then Exit ''[ERROR] Could not confirm node is the oldest before time ran out.''
        else rounds N cn hosts s'))"
  by pat_completeness auto
termination
  by (relation "measure (\<lambda>(N, cn, hosts, s). nat (BOOTSTRAP_WAIT_S - waited s))")
    (auto dest!: visit_hosts_waits simp: waits_def)

declare rounds.simps [simp del]

section \<open>Starting the replica\<close>

text \<open>
  \<open>StartOnDiskReplica\<close> of the node host, with the initial members and whether to join. A node that
  bootstraps tries again as long as it fails, so the loop may run forever (\<open>None\<close>).
\<close>

type_synonym 'h starter = "'h \<Rightarrow> (uint64 \<rightharpoonup> string) \<Rightarrow> bool \<Rightarrow> error option \<times> 'h"

partial_function (option) rejoin :: "'h starter \<Rightarrow> (uint64 \<rightharpoonup> string) \<Rightarrow> bool \<Rightarrow> 'h \<Rightarrow> 'h run option" where
  "rejoin start members boot h = (case start h members (\<not> boot) of
     (None, h') \<Rightarrow> Some (Run h')
   | (Some e, h') \<Rightarrow> if boot then rejoin start members boot h' else Some (Exit ''[ERROR] Failed to add cluster''))"

text \<open>The goroutine: writes that are repeated until the store accepts them.\<close>

partial_function (option) put_until :: "('nh, 'a) nodehost_scheme \<Rightarrow> KVAction \<Rightarrow> 'nh \<Rightarrow> 'nh option" where
  "put_until H action nh = (case execute H nh action of
     (Inl e, nh') \<Rightarrow> put_until H action nh'
   | (Inr v, nh') \<Rightarrow> Some nh')"

definition announce_node :: "('nh, 'a) nodehost_scheme \<Rightarrow> connection \<Rightarrow> 'nh \<Rightarrow> 'nh option" where
  "announce_node H cn nh = put_until H (put_action (peer_key (cn_Binding cn)) (Some (str_bytes (show_uint64 (cn_ReplicaID cn))))) nh"

definition confirm_started :: "('nh, 'a) nodehost_scheme \<Rightarrow> 'nh \<Rightarrow> 'nh option" where
  "confirm_started H nh = put_until H (put_action ROO_STARTED (Some (str_bytes ''true''))) nh"

text \<open>
  The goroutine as a whole, up to the loop that confirms the start, which runs beside it: the error
  and the writes are those of the update from the swarm, if there is one.
\<close>

definition announce ::
    "('nh, 'a) nodehost_scheme \<Rightarrow> connection \<Rightarrow> bool \<Rightarrow> docker \<Rightarrow> 'nh \<Rightarrow> ((error option \<times> KVAction list) outcome \<times> 'nh) option" where
  "announce H cn swarm dk nh = (case announce_node H cn nh of
     None \<Rightarrow> None
   | Some nh1 \<Rightarrow> Some (if swarm then updateFromSwarm H (cn_Binding cn) dk True nh1 else (Ok (None, []), nh1)))"

section \<open>Connecting\<close>

text \<open>
  The configuration the node starts with; \<open>rnd\<close> is the random number below 65534. The result is the
  connection, the hosts that remain, whether the node bootstraps, and the started host.
\<close>

record kv_config =
  kc_Binding :: string
  kc_Hosts :: "string list"
  kc_ShardID :: uint64
  kc_Instantiated :: int
  kc_ver :: string

definition new_boot :: "connection \<Rightarrow> 'n \<Rightarrow> 'n boot" where
  "new_boot cn n = \<lparr>olderThan = 0, bootstrap = False, readyToJoin = False, waited = 0,
     initialMembers = [cn_ReplicaID cn \<mapsto> cn_Binding cn @ KV_PORT], net = n\<rparr>"

definition connect ::
    "('n, 'a) peers_scheme \<Rightarrow> 'h starter \<Rightarrow> error + ip list \<Rightarrow> nat \<Rightarrow> error + 'h \<Rightarrow> kv_config \<Rightarrow> 'n
      \<Rightarrow> (connection \<times> string list \<times> 'n boot \<times> 'h) run option" where
  "connect N start ips rnd newNodeHost kc n =
     (let myIPs = (case ips of Inl e \<Rightarrow> [] | Inr xs \<Rightarrow> xs);
          binding = choose_binding myIPs (kc_Hosts kc) (kc_Binding kc) in
      if ParseIP binding = None then Some (Exit ''[CRITICAL] Cluster: Could not initiate cluster on a service IP'')
      else
        (let hosts = other_hosts binding (kc_Hosts kc) [];
             cn = \<lparr>cn_Binding = binding, cn_ReplicaID = of_nat (rnd + 1), cn_ShardID = kc_ShardID kc,
               cn_Instantiated = kc_Instantiated kc, cn_ver = kc_ver kc\<rparr> in
         case newNodeHost of
           Inl err \<Rightarrow> Some (Crash (err_text err))
         | Inr h \<Rightarrow>
             (case rounds N cn hosts (new_boot cn n) of
                Exit m \<Rightarrow> Some (Exit m)
              | Crash p \<Rightarrow> Some (Crash p)
              | Run s \<Rightarrow>
                  (case rejoin start (initialMembers s) (bootstrap s) h of
                     None \<Rightarrow> None
                   | Some (Exit m) \<Rightarrow> Some (Exit m)
                   | Some (Crash p) \<Rightarrow> Some (Crash p)
                   | Some (Run h') \<Rightarrow> Some (Run (cn, hosts, s, h'))))))"

end
