(* ===== verification/Nats_Service.thy ===== *)
theory Nats_Service
  imports Bootstrap
begin

text \<open>
  The NATS session (\<open>nats.go\<close>). The client library and the TLS files are arguments: what loading the
  key pair and the root certificate give, and what the calls of the client return. Ending the
  process is \<open>Exit\<close>, as for the other starting steps.
\<close>

record WriteArgs =
  wa_WriteType :: int
  wa_Values :: "json option"

record Service =
  sv_Service :: string
  sv_Hosts :: "string list"
  sv_Critical :: bool
  sv_Context :: string
  sv_Filter :: "(string \<times> string) list"
  sv_Session :: bool

record nats_client =
  nc_LoadX509KeyPair :: "error option"
  nc_AppendCertsFromPEM :: bool
  nc_Connect :: "string \<Rightarrow> error option"
  nc_NewEncodedConn :: "error option"
  nc_Publish :: "string \<Rightarrow> json option \<Rightarrow> error option"

fun join_hosts :: "string list \<Rightarrow> string" where
  "join_hosts [] = []"
| "join_hosts [h] = h"
| "join_hosts (h # hs) = h @ '','' @ join_hosts hs"

text \<open>The error that is returned, and the service with its session.\<close>

definition nats_connect :: "nats_client \<Rightarrow> Service \<Rightarrow> (error option \<times> Service) run" where
  "nats_connect C i = (case nc_LoadX509KeyPair C of
     Some err \<Rightarrow> Exit (''[ERROR] Parsing X509 certificate/key pair: '' @ err_text err)
   | None \<Rightarrow>
       if \<not> nc_AppendCertsFromPEM C then Exit ''[ERROR] Failed to parse root certificate.''
       else (case nc_Connect C (join_hosts (sv_Hosts i)) of
         Some err \<Rightarrow> Run (Some err, i)
       | None \<Rightarrow> (case nc_NewEncodedConn C of
           Some err \<Rightarrow> Run (Some err, i)
         | None \<Rightarrow> Run (None, i\<lparr>sv_Session := True\<rparr>))))"

definition nats_write :: "nats_client \<Rightarrow> Service \<Rightarrow> WriteArgs \<Rightarrow> error option" where
  "nats_write C i w = nc_Publish C (sv_Context i) (wa_Values w)"

definition nats_serve :: "ServiceArgs \<Rightarrow> error option" where
  "nats_serve s = Some (Errorf ''[ERROR] Nats service not implemented'')"

text \<open>The calls of \<open>close\<close>, in order.\<close>

datatype nats_call = DrainEncoded | CloseEncoded | DrainConn | CloseConn

definition nats_close :: "nats_call list \<times> error option" where
  "nats_close = ([DrainEncoded, CloseEncoded, DrainConn, CloseConn], None)"

text \<open>
  The handler of a message: the write that the notifiers get, for each notifier that is connected.
  A value decodes into a Go map when it is an object or \<open>null\<close>; \<open>numbers_ok\<close> says whether its numbers
  are in the range of a float. The switch over the alias has no case that sets the type of the write.
\<close>

definition dec_map :: "(json \<Rightarrow> bool) \<Rightarrow> json option decoder" where
  "dec_map numbers_ok old v = (case v of
     JObj kvs \<Rightarrow> if numbers_ok v then (Some v, True) else (old, False)
   | JNull \<Rightarrow> (None, True)
   | _ \<Rightarrow> (old, False))"

fun notify_all :: "(bool \<times> (WriteArgs \<Rightarrow> error option)) list \<Rightarrow> WriteArgs \<Rightarrow> error option list" where
  "notify_all [] wargs = []"
| "notify_all ((session, wr) # ns) wargs = (if session then wr wargs # notify_all ns wargs else notify_all ns wargs)"

definition nats_message ::
    "(json \<Rightarrow> bool) \<Rightarrow> (bool \<times> (WriteArgs \<Rightarrow> error option)) list \<Rightarrow> string \<Rightarrow> bytes \<Rightarrow> error option list" where
  "nats_message numbers_ok notify alias data =
     (case json_Unmarshal (dec_map numbers_ok) data (Some (JObj [])) of
        (_, False) \<Rightarrow> []
      | (j, True) \<Rightarrow>
          (let wargs = \<lparr>wa_WriteType = 0, wa_Values = j\<rparr>
           in if wa_WriteType wargs \<noteq> 0 then notify_all notify wargs else []))"

text \<open>Listening subscribes to the id of every filter, in the queue group \<open>roo\<close>, and ignores errors.\<close>

definition NATS_QUEUE_GROUP :: string where
  "NATS_QUEUE_GROUP = ''roo''"

definition nats_listen :: "Service \<Rightarrow> (string \<times> string) list \<times> error option" where
  "nats_listen i = (map (\<lambda>(ident, alias). (ident, NATS_QUEUE_GROUP)) (sv_Filter i), None)"

section \<open>Properties\<close>

text \<open>A connected session is the only way the connection ends without an error.\<close>

lemma nats_connect_session:
  "nats_connect C i = Run (err, i') \<Longrightarrow> \<not> sv_Session i \<Longrightarrow> err = None \<longleftrightarrow> sv_Session i'"
  by (auto simp: nats_connect_def split: option.splits if_splits) metis+

text \<open>No message is passed on to a notifier: the type of the write stays 0.\<close>

lemma nats_message_dropped: "nats_message numbers_ok notify alias data = []"
  by (auto simp: nats_message_def split: prod.split bool.split)

end
