(* ===== verification/Cluster_Start.thy ===== *)
theory Cluster_Start
  imports Bootstrap
begin

text \<open>
  How clusters come about: which node of a fresh set creates the cluster, how a later node finds it
  and joins, how long either takes, and when a second cluster is created.
\<close>

section \<open>The binding and the hosts\<close>

lemma other_hosts_eq: "other_hosts b hosts tmp = tmp @ filter (\<lambda>h. h \<noteq> b \<and> ipv4_host h) hosts"
  by (induction hosts arbitrary: tmp) auto

lemma find_own_mem: "find_own ips b \<noteq> [] \<Longrightarrow> b \<in> ip_String ` set ips \<and> find_own ips b = b"
  by (induction ips) (auto split: if_splits)

lemma bind_host_mem: "bind_host ip hosts b = b \<or> bind_host ip hosts b = ip_String ip"
  by (induction hosts) auto

lemma bind_hosts_mem: "bind_hosts ips hosts b = b \<or> bind_hosts ips hosts b \<in> ip_String ` set ips"
proof (induction ips arbitrary: b)
  case (Cons ip ips)
  from Cons [of "bind_host ip hosts b"] bind_host_mem [of ip hosts b] show ?case by auto
qed simp

text \<open>The binding is an address of the node.\<close>

lemma choose_binding_own: "choose_binding ips hosts b \<noteq> [] \<Longrightarrow> choose_binding ips hosts b \<in> ip_String ` set ips"
  using find_own_mem [of ips b] bind_hosts_mem [of ips hosts "[]"]
  by (auto simp: choose_binding_def Let_def split: if_splits)

section \<open>Bounded waiting\<close>

lemma rounds_waited:
  "rounds N cn hosts s = Run s' \<Longrightarrow> waited s < BOOTSTRAP_WAIT_S \<Longrightarrow> waited s \<le> waited s' \<and> waited s' \<le> BOOTSTRAP_WAIT_S"
proof (induction N cn hosts s rule: rounds.induct)
  case (1 N cn hosts s)
  obtain s1 where v: "visit_hosts N cn hosts (s\<lparr>olderThan := 0\<rparr>) = Run s1"
    using 1(2) by (auto simp: rounds.simps [of N cn hosts s] split: run.splits)
  then have "waited s \<le> waited s1" "waited s1 < BOOTSTRAP_WAIT_S"
    using visit_hosts_waits 1(3) by (force simp: waits_def)+
  moreover have "waited s' = waited s1 + 1 \<or> (waited s1 + 1 < BOOTSTRAP_WAIT_S \<and> waited s1 + 1 \<le> waited s' \<and> waited s' \<le> BOOTSTRAP_WAIT_S)"
    using 1(1) [OF v refl] 1(2) v by (auto simp: rounds.simps [of N cn hosts s] Let_def split: if_splits)
  ultimately show ?case by auto
qed

lemma join_peer_ready:
  "join_peer N cn h s = (s', stop) \<Longrightarrow> if stop then readyToJoin s' \<and> initialMembers s' = Map.empty else readyToJoin s' = readyToJoin s"
  by (auto simp: join_peer_def Let_def split: prod.splits if_splits)

lemma checkBootstrap_ready:
  "checkBootstrap N cn h s = Run (s', stop) \<Longrightarrow> if stop then readyToJoin s' \<and> initialMembers s' = Map.empty else readyToJoin s' = readyToJoin s"
  by (auto simp: checkBootstrap_def Let_def split: prod.splits if_splits option.splits sum.splits dest!: join_peer_ready)

lemma visit_host_ready:
  "visit_host N cn h s = Run (s', stop) \<Longrightarrow> if stop then readyToJoin s' \<and> initialMembers s' = Map.empty else readyToJoin s' = readyToJoin s"
  by (auto simp: visit_host_def Let_def split: if_splits sum.splits prod.splits bool.splits run.splits dest!: checkBootstrap_ready)

lemma visit_hosts_ready:
  "visit_hosts N cn hosts s = Run s' \<Longrightarrow> \<not> readyToJoin s \<Longrightarrow> readyToJoin s' \<longrightarrow> initialMembers s' = Map.empty"
  by (induction hosts arbitrary: s) (auto split: run.splits if_splits dest!: visit_host_ready)

lemma rounds_ready:
  "rounds N cn hosts s = Run s' \<Longrightarrow> \<not> readyToJoin s \<Longrightarrow> bootstrap s' \<or> initialMembers s' = Map.empty"
proof (induction N cn hosts s rule: rounds.induct)
  case (1 N cn hosts s)
  obtain s1 where v: "visit_hosts N cn hosts (s\<lparr>olderThan := 0\<rparr>) = Run s1"
    using 1(2) by (auto simp: rounds.simps [of N cn hosts s] split: run.splits)
  with visit_hosts_ready [OF v] 1(1) [OF v refl] 1(2,3) show ?case
    by (auto simp: rounds.simps [of N cn hosts s] Let_def split: if_splits)
qed

text \<open>
  C37. A node decides within the time it has: whatever the peers answer, the rounds end, with the
  decision to create or join a cluster after at most \<open>BOOTSTRAP_WAIT_S\<close> waits of a second, or with
  the end of the process; and a node that joins instead of creating hands over no initial members.
\<close>

theorem connect_decides:
  "(\<exists>m. rounds N cn hosts (new_boot cn n) = Exit m) \<or> (\<exists>p. rounds N cn hosts (new_boot cn n) = Crash p)
   \<or> (\<exists>s. rounds N cn hosts (new_boot cn n) = Run s \<and> 0 \<le> waited s \<and> waited s \<le> BOOTSTRAP_WAIT_S
        \<and> (bootstrap s \<or> initialMembers s = Map.empty))"
proof (cases "rounds N cn hosts (new_boot cn n)")
  case (Run s)
  then show ?thesis using rounds_waited [OF Run] rounds_ready [OF Run] by (simp add: new_boot_def BOOTSTRAP_WAIT_S_def)
qed auto

section \<open>A fresh set of nodes\<close>

text \<open>The peers answer with their status and have not started.\<close>

definition fresh_peers :: "('n, 'a) peers_scheme \<Rightarrow> connection \<Rightarrow> string list \<Rightarrow> (string \<Rightarrow> ClusterStatus) \<Rightarrow> bool" where
  "fresh_peers N cn hosts cs \<longleftrightarrow> (\<forall>h\<in>set hosts. h \<noteq> cn_Binding cn \<and> ipv4_host h
     \<and> url_Parse (status_url (cn_ver cn) h) \<noteq> None \<and> cs_Started (cs h) \<le> 0 \<and> cs_Instantiated (cs h) \<noteq> cn_Instantiated cn
     \<and> (\<forall>n. \<exists>st data n'. pe_Get N n (status_url (cn_ver cn) h) = (Some (st, Inr data), n')
          \<and> json_Unmarshal dec_ClusterStatus data zero_ClusterStatus = (cs h, True)))"

definition younger :: "connection \<Rightarrow> (string \<Rightarrow> ClusterStatus) \<Rightarrow> string \<Rightarrow> bool" where
  "younger cn cs h \<longleftrightarrow> cn_Instantiated cn < cs_Instantiated (cs h)"

abbreviation member_address :: "(string \<Rightarrow> ClusterStatus) \<Rightarrow> string \<Rightarrow> string" where
  "member_address cs h \<equiv> cs_Binding (cs h) @ KV_PORT"

lemma visit_host_fresh:
  assumes "fresh_peers N cn hosts cs" "h \<in> set hosts"
  shows "\<exists>n'. visit_host N cn h s = Run (s\<lparr>olderThan := olderThan s + (if younger cn cs h then 1 else 0),
      initialMembers := (initialMembers s)(cs_ReplicaID (cs h) \<mapsto> member_address cs h), net := n'\<rparr>, False)"
proof -
  obtain st data n' where g: "pe_Get N (net s) (status_url (cn_ver cn) h) = (Some (st, Inr data), n')"
      "json_Unmarshal dec_ClusterStatus data zero_ClusterStatus = (cs h, True)"
    using assms unfolding fresh_peers_def by blast
  then have "getNodeStatus N (status_url (cn_ver cn) h) (waited s) (net s) = Run (Inr data, waited s, n')"
    by (simp add: getNodeStatus.simps)
  with g(2) assms show ?thesis
    by (intro exI [of _ n']) (auto simp: visit_host_def fresh_peers_def younger_def Let_def)
qed

lemma fresh_peers_Cons: "fresh_peers N cn (h # hosts) cs \<Longrightarrow> fresh_peers N cn hosts cs"
  by (simp add: fresh_peers_def)

lemma visit_hosts_fresh:
  "fresh_peers N cn hosts cs \<Longrightarrow> \<exists>n'. visit_hosts N cn hosts s = Run (s\<lparr>
     olderThan := olderThan s + int (length (filter (younger cn cs) hosts)),
     initialMembers := (initialMembers s)(map (\<lambda>h. cs_ReplicaID (cs h)) hosts [\<mapsto>] map (member_address cs) hosts), net := n'\<rparr>)"
proof (induction hosts arbitrary: s)
  case (Cons h hosts)
  let ?s = "\<lambda>n'. s\<lparr>olderThan := olderThan s + (if younger cn cs h then 1 else 0),
      initialMembers := (initialMembers s)(cs_ReplicaID (cs h) \<mapsto> member_address cs h), net := n'\<rparr>"
  obtain n1 where v: "visit_host N cn h s = Run (?s n1, False)"
    using visit_host_fresh [OF Cons.prems, of h s] by auto
  obtain n2 where "visit_hosts N cn hosts (?s n1) = Run ((?s n1)\<lparr>
     olderThan := olderThan (?s n1) + int (length (filter (younger cn cs) hosts)),
     initialMembers := (initialMembers (?s n1))(map (\<lambda>h. cs_ReplicaID (cs h)) hosts [\<mapsto>] map (member_address cs) hosts), net := n2\<rparr>)"
    using Cons.IH [OF fresh_peers_Cons [OF Cons.prems], of "?s n1"] by blast
  with v show ?case by (intro exI [of _ n2]) (simp add: add.assoc)
next
  case Nil
  show ?case by (rule exI [of _ "net s"]) simp
qed

text \<open>One round over fresh peers.\<close>

definition fresh_round :: "connection \<Rightarrow> string list \<Rightarrow> (string \<Rightarrow> ClusterStatus) \<Rightarrow> 'n boot \<Rightarrow> 'n \<Rightarrow> 'n boot" where
  "fresh_round cn hosts cs s n' = s\<lparr>olderThan := int (length (filter (younger cn cs) hosts)),
     initialMembers := (initialMembers s)(map (\<lambda>h. cs_ReplicaID (cs h)) hosts [\<mapsto>] map (member_address cs) hosts), net := n',
     waited := waited s + 1\<rparr>"

lemma rounds_fresh:
  assumes "fresh_peers N cn hosts cs" "\<not> bootstrap s" "\<not> readyToJoin s"
  shows "\<exists>n'. rounds N cn hosts s =
    (if \<forall>h\<in>set hosts. younger cn cs h then Run ((fresh_round cn hosts cs s n')\<lparr>bootstrap := True\<rparr>)
     else if waited s + 1 \<ge> BOOTSTRAP_WAIT_S then Exit ''[ERROR] Could not confirm node is the oldest before time ran out.''
     else rounds N cn hosts (fresh_round cn hosts cs s n'))"
proof -
  let ?s = "s\<lparr>olderThan := 0\<rparr>"
  obtain n' where "visit_hosts N cn hosts ?s = Run (?s\<lparr>olderThan := olderThan ?s + int (length (filter (younger cn cs) hosts)),
      initialMembers := (initialMembers ?s)(map (\<lambda>h. cs_ReplicaID (cs h)) hosts [\<mapsto>] map (member_address cs) hosts), net := n'\<rparr>)"
    using visit_hosts_fresh [OF assms(1), of ?s] by blast
  then have v: "visit_hosts N cn hosts (s\<lparr>olderThan := 0\<rparr>) = Run ((fresh_round cn hosts cs s n')\<lparr>waited := waited s\<rparr>)"
    by (simp add: fresh_round_def)
  have "length (filter (younger cn cs) hosts) = length hosts \<longleftrightarrow> (\<forall>h\<in>set hosts. younger cn cs h)"
    by (metis filter_id_conv length_filter_less less_irrefl)
  with v assms(2,3) show ?thesis
    by (intro exI [of _ n']) (subst rounds.simps, simp add: Let_def fresh_round_def)
qed

lemma rounds_not_oldest:
  assumes "fresh_peers N cn hosts cs" "\<not> (\<forall>h\<in>set hosts. younger cn cs h)"
  shows "\<not> bootstrap s \<Longrightarrow> \<not> readyToJoin s \<Longrightarrow>
    rounds N cn hosts s = Exit ''[ERROR] Could not confirm node is the oldest before time ran out.''"
proof (induction "nat (BOOTSTRAP_WAIT_S - waited s)" arbitrary: s rule: less_induct)
  case less
  obtain n' where r: "rounds N cn hosts s = (if waited s + 1 \<ge> BOOTSTRAP_WAIT_S
      then Exit ''[ERROR] Could not confirm node is the oldest before time ran out.'' else rounds N cn hosts (fresh_round cn hosts cs s n'))"
    using rounds_fresh [OF assms(1) less.prems] assms(2) by auto
  show ?case
  proof (cases "waited s + 1 \<ge> BOOTSTRAP_WAIT_S")
    case False
    then show ?thesis using less.hyps [of "fresh_round cn hosts cs s n'"] less.prems r by (simp add: fresh_round_def)
  qed (simp add: r)
qed


text \<open>A node with one younger peer, whose answers come from its own handler of the status.\<close>

definition example_connection :: connection where
  "example_connection = \<lparr>cn_Binding = ''10.0.0.1'', cn_ReplicaID = 3, cn_ShardID = 1, cn_Instantiated = 4, cn_ver = ''v1''\<rparr>"

definition fixed_peers :: "(string \<rightharpoonup> nat \<times> (error + bytes)) \<Rightarrow> (string \<Rightarrow> nat option) \<Rightarrow> unit peers" where
  "fixed_peers gets posts = \<lparr>pe_Get = (\<lambda>n url. (gets url, n)), pe_Post = (\<lambda>n url body. (posts url, n))\<rparr>"

lemma fixed_peers_ops [simp]:
  "pe_Get (fixed_peers gets posts) n url = (gets url, n)" "pe_Post (fixed_peers gets posts) n url body = (posts url, n)"
  by (simp_all add: fixed_peers_def)

lemma example_peer:
  "ipv4_host ''10.0.0.2''" "url_Parse (status_url ''v1'' ''10.0.0.2'') \<noteq> None" "url_Parse (started_url ''v1'' ''10.0.0.2'') \<noteq> None"
  "url_Parse (join_url ''v1'' ''10.0.0.2'') \<noteq> None"
proof -
  have ip: "ip_String (IPv4 [10, 0, 0, 2]) = ''10.0.0.2''" by code_simp
  have "ParseIP ''10.0.0.2'' = Some (IPv4 [10, 0, 0, 2])" using ParseIP_String [of "[10, 0, 0, 2]"] unfolding ip by (simp add: octets_def)
  then show "ipv4_host ''10.0.0.2''" by (simp add: ipv4_host_def To4_def)
qed code_simp+

definition fresh_status :: ClusterStatus where
  "fresh_status = example_status\<lparr>cs_Started := 0\<rparr>"

lemma decode_fresh: "json_Unmarshal dec_ClusterStatus (json_Marshal (ClusterStatus_json fresh_status)) zero_ClusterStatus = (fresh_status, True)"
  by (rule decode_ClusterStatus) (use example_status_ok in \<open>simp add: fresh_status_def status_ok_def\<close>)


section \<open>Joining\<close>

lemma put_until_Some:
  fixes H :: "('nh, 'a) nodehost_scheme"
  assumes ret: "put_until H a nh = Some nh'"
  shows "\<exists>nh0 v. execute H nh0 a = (Inr v, nh')"
proof (rule put_until.raw_induct [where P = "\<lambda>H a nh nh'. \<exists>nh0 v. execute H nh0 a = (Inr v, nh')", OF _ ret])
  fix loop :: "('nh, 'a) nodehost_scheme \<Rightarrow> KVAction \<Rightarrow> 'nh \<Rightarrow> 'nh option" and H a nh nh'
  assume IH: "\<And>H a nh nh'. loop H a nh = Some nh' \<Longrightarrow> \<exists>nh0 v. execute H nh0 a = (Inr v, nh')"
    and eq: "(case execute H nh a of (Inl e, nh') \<Rightarrow> loop H a nh' | (Inr v, nh') \<Rightarrow> Some nh') = Some nh'"
  obtain x nh1 where x: "execute H nh a = (x, nh1)" by (rule prod.exhaust)
  show "\<exists>nh0 v. execute H nh0 a = (Inr v, nh')"
  proof (cases x)
    case (Inl e)
    then have "loop H a nh1 = Some nh'" using eq x by simp
    then show ?thesis by (rule IH)
  next
    case (Inr v)
    with eq x show ?thesis by auto
  qed
qed

lemma confirm_started_stored:
  assumes "raft_kv H sm" "confirm_started H nh = Some nh'"
  shows "sm nh' (str_bytes ROO_STARTED) = Some (str_bytes ''true'')"
proof -
  obtain nh0 v where "execute H nh0 (put_action ROO_STARTED (Some (str_bytes ''true''))) = (Inr v, nh')"
    using put_until_Some [OF assms(2) [unfolded confirm_started_def]] by blast
  from raft_kv.execute_put [OF assms(1) this] have "wrote \<lparr>Key = ROO_STARTED, Val = Some (str_bytes ''true'')\<rparr> (sm nh0) (sm nh')" by blast
  from wrote_same [OF this] show ?thesis
    by (simp del: str_bytes_simps add: utf8_ok_ascii is_ascii_def ROO_STARTED_def appliedIndexKey_def)
qed

lemma visit_host_started:
  assumes "h \<noteq> cn_Binding cn" "ipv4_host h" "url_Parse (status_url (cn_ver cn) h) \<noteq> None"
    and "pe_Get N (net s) (status_url (cn_ver cn) h) = (Some (st, Inr data), n1)"
    and "json_Unmarshal dec_ClusterStatus data zero_ClusterStatus = (cs, True)"
    and "cs_Instantiated cs \<noteq> cn_Instantiated cn" "cs_Started cs > 0"
  shows "visit_host N cn h s = checkBootstrap N cn h (s\<lparr>net := n1,
      olderThan := olderThan s + (if cn_Instantiated cn < cs_Instantiated cs then 1 else 0),
      initialMembers := (initialMembers s)(cs_ReplicaID cs \<mapsto> cs_Binding cs @ KV_PORT)\<rparr>)"
proof -
  have "getNodeStatus N (status_url (cn_ver cn) h) (waited s) (net s) = Run (Inr data, waited s, n1)"
    using assms(4) by (simp add: getNodeStatus.simps)
  with assms show ?thesis by (auto simp: visit_host_def Let_def)
qed

lemma checkBootstrap_true:
  assumes "url_Parse (started_url (cn_ver cn) h) \<noteq> None" "ok_status (Some st)"
    and "pe_Get N (net s) (started_url (cn_ver cn) h) = (Some (st, Inr (str_bytes ''true'')), n1)"
  shows "checkBootstrap N cn h s = Run (join_peer N cn h (s\<lparr>net := n1\<rparr>))"
  using assms by (simp add: checkBootstrap_def Let_def del: str_bytes_simps)

lemma join_status_ok: "utf8_ok (cn_Binding cn) \<Longrightarrow> status_ok (join_status cn)"
  by (simp add: status_ok_def join_status_def zero_ClusterStatus_def utf8_ok_ascii is_ascii_def)

text \<open>
  C11. A node that comes later joins the cluster it finds. Once a node of the cluster has confirmed
  that it is started, its service answers the request for that key with \<open>true\<close>; a younger node that
  gets this answer sends its own status to be joined, and when the service accepts it, the store
  names the new replica for its address and the new node stops asking, does not create a cluster and
  starts its replica without initial members.
\<close>

theorem node_joins:
  assumes "cluster_kv H sm" "utf8_ok (cn_Binding cn)" "h \<noteq> cn_Binding cn" "ipv4_host h"
    and "url_Parse (status_url (cn_ver cn) h) \<noteq> None" "url_Parse (started_url (cn_ver cn) h) \<noteq> None" "url_Parse (join_url (cn_ver cn) h) \<noteq> None"
    and "pe_Get N n (status_url (cn_ver cn) h) = (Some (st, Inr data), n1)"
    and "json_Unmarshal dec_ClusterStatus data zero_ClusterStatus = (cs, True)" "cs_Instantiated cs < cn_Instantiated cn" "cs_Started cs > 0"
    and "confirm_started H nh = Some nh1"
    and "serve H cfg env nh1 new_response r (key_args SERVE_GET_KV ROO_STARTED) = (Ok (), w1, acts1, nh2)"
    and "pe_Get N n1 (started_url (cn_ver cn) h) = (Some (the (status w1), Inr (w_body w1)), n2)"
    and "rq_Body r2 = Inr (json_Marshal (ClusterStatus_json (join_status cn)))"
    and "serve H cfg env nh2 new_response r2 \<lparr>sa_ServiceType = SERVE_POST_JOIN, sa_Values = vals\<rparr> = (Ok (), w2, acts2, nh3)"
    and "pe_Post N n2 (join_url (cn_ver cn) h) (json_Marshal (ClusterStatus_json (join_status cn))) = (status w2, n3)"
  shows "sm nh3 (str_bytes (peer_key (cn_Binding cn))) = Some (str_bytes (show_uint64 (cn_ReplicaID cn)))
    \<and> (\<exists>s. rounds N cn (h # hosts) (new_boot cn n) = Run s \<and> \<not> bootstrap s \<and> readyToJoin s \<and> initialMembers s = Map.empty)"
proof -
  note kv = cluster_kv.axioms(1) [OF assms(1)]
  let ?s0 = "(new_boot cn n)\<lparr>olderThan := 0\<rparr>"
  let ?s1 = "?s0\<lparr>net := n1, initialMembers := (initialMembers ?s0)(cs_ReplicaID cs \<mapsto> cs_Binding cs @ KV_PORT)\<rparr>"
  obtain b where b: "execute H nh1 (get_action ROO_STARTED) = (Inr (VRead (RBytes b)), nh2)" "w1 = Write (slice_bytes b) (WriteHeader 200 new_response)"
    using serve_get_Ok [of H nh1 new_response "key_args SERVE_GET_KV ROO_STARTED"] assms(13) by (auto simp: serve_cases svalue_def)
  have "b = Some (str_bytes ''true'')"
    using raft_kv.execute_get [OF kv b(1)] confirm_started_stored [OF kv assms(12)] by simp
  then have w1: "the (status w1) = 200" "w_body w1 = str_bytes ''true''"
    using b(2) by (simp_all add: status_Write status_WriteHeader del: str_bytes_simps)
  have dec: "json_Unmarshal dec_ClusterStatus (json_Marshal (ClusterStatus_json (join_status cn))) zero_ClusterStatus = (join_status cn, True)"
    by (rule decode_ClusterStatus [OF join_status_ok [OF assms(2)]])
  have "serve_post_join H nh2 new_response r2 = (Ok (), w2, acts2, nh3)" using assms(16) by (simp add: serve_cases)
  from serve_join_Ok [OF this assms(15) dec]
  obtain nh4 where j: "join_add H nh4 (join_status cn) = (Ok (), nh3)" "w2 = WriteHeader 200 new_response" by blast
  then have stored: "sm nh3 (str_bytes (peer_key (cn_Binding cn))) = Some (str_bytes (show_uint64 (cn_ReplicaID cn)))"
    using cluster_kv.join_add_Ok [OF assms(1) j(1)] peer_key_ok [OF assms(2)] by (auto simp: join_status_def dest: wrote_same)
  have "visit_host N cn h ?s0 = checkBootstrap N cn h ?s1"
    using visit_host_started [OF assms(3-5) _ assms(9) _ assms(11), of N ?s0 st n1] assms(8,10) by (simp add: new_boot_def)
  also have "\<dots> = Run (join_peer N cn h (?s1\<lparr>net := n2\<rparr>))"
    using checkBootstrap_true [OF assms(6), of 200 N ?s1 n2] assms(14) w1 by (simp add: ok_status_def del: str_bytes_simps)
  also have "join_peer N cn h (?s1\<lparr>net := n2\<rparr>) = (?s1\<lparr>bootstrap := False, net := n3, initialMembers := Map.empty, readyToJoin := True\<rparr>, True)"
    using assms(7,17) j(2) by (auto simp: join_peer_def ok_status_def status_WriteHeader Let_def new_boot_def)
  finally have "\<exists>s. rounds N cn (h # hosts) (new_boot cn n) = Run s \<and> \<not> bootstrap s \<and> readyToJoin s \<and> initialMembers s = Map.empty"
    by (subst rounds.simps) (simp add: new_boot_def Let_def)
  with stored show ?thesis by blast
qed

definition later_connection :: connection where
  "later_connection = example_connection\<lparr>cn_Instantiated := 9\<rparr>"

text \<open>What the peer \<open>10.0.0.2\<close> of a running cluster answers.\<close>

definition running_peer :: "unit peers" where
  "running_peer = fixed_peers
     (\<lambda>url. if url = status_url ''v1'' ''10.0.0.2'' then Some (200, Inr (json_Marshal (ClusterStatus_json example_status)))
           else Some (200, Inr (str_bytes ''true''))) (\<lambda>url. Some 200)"

lemma running_peer_ops:
  "pe_Get running_peer n (status_url ''v1'' ''10.0.0.2'') = (Some (200, Inr (json_Marshal (ClusterStatus_json example_status))), n)"
  "pe_Get running_peer n (started_url ''v1'' ''10.0.0.2'') = (Some (200, Inr (str_bytes ''true'')), n)"
  "pe_Post running_peer n url body = (Some 200, n)"
  by (simp_all add: running_peer_def status_url_def started_url_def ROO_STARTED_def API_PORT_def del: str_bytes_simps)

theorem node_joins_witness:
  "\<exists>s nh3. rounds running_peer later_connection [''10.0.0.2''] (new_boot later_connection ()) = Run s
    \<and> \<not> bootstrap s \<and> readyToJoin s \<and> initialMembers s = Map.empty
    \<and> host_map ref_pebble nh3 (str_bytes (peer_key ''10.0.0.1'')) = Some (str_bytes (show_uint64 3))"
proof -
  let ?H = "single_cluster ref_pebble" and ?cn = later_connection and ?h = "''10.0.0.2''" and ?v = "Some (str_bytes ''true'')"
  have cn: "cn_Binding ?cn = ''10.0.0.1''" "cn_ver ?cn = ''v1''" "cn_Instantiated ?cn = 9" "cn_ReplicaID ?cn = 3"
    by (simp_all add: later_connection_def example_connection_def)
  have "lastApplied (fst (example_host [])) < lastApplied (fst (example_host [])) + 1" "ROO_STARTED \<noteq> []" by (simp_all add: ROO_STARTED_def)
  from single_execute_put [OF example_host_simps(1) this, of ?v]
  obtain v nh1 c1 where e: "execute ?H (example_host []) (put_action ROO_STARTED ?v) = (Inr (VResult v), nh1)" and live: "live nh1 = Some c1"
      and idx: "lastApplied (fst nh1) = 6"
    unfolding single_cluster_host by (auto simp del: str_bytes_simps)
  then have conf: "confirm_started ?H (example_host []) = Some nh1"
    by (simp add: confirm_started_def put_until.simps del: str_bytes_simps)
  have get: "execute ?H nh1 (get_action k) = (Inr (VRead (RBytes (host_map ref_pebble nh1 (str_bytes k)))), nh1)" for k
    using single_execute_get [OF live] by (simp add: single_cluster_host)
  let ?w1 = "Write (str_bytes ''true'') (WriteHeader 200 new_response)"
  have w1: "the (status ?w1) = 200" "w_body ?w1 = str_bytes ''true''"
    by (simp_all add: status_Write status_WriteHeader del: str_bytes_simps)
  have serve1: "serve ?H example_config example_env nh1 new_response (body_request []) (key_args SERVE_GET_KV ROO_STARTED) = (Ok (), ?w1, [], nh1)"
    using get [of ROO_STARTED] confirm_started_stored [OF cluster_kv.axioms(1) [OF refdb.cluster.cluster_kv_axioms] conf]
    by (simp add: serve_cases serve_get_kv_def svalue_def del: str_bytes_simps)
  have "lastApplied (fst nh1) < lastApplied (fst nh1) + 1" "peer_key ''10.0.0.1'' \<noteq> []" by (simp_all add: idx peer_key_def PEER_PREFIX_def)
  from single_execute_put [OF live this, of "Some (str_bytes (show_uint64 3))"]
  obtain v2 nh3 where put: "execute ?H nh1 (put_action (peer_key ''10.0.0.1'') (Some (str_bytes (show_uint64 3)))) = (Inr (VResult v2), nh3)"
    unfolding single_cluster_host by blast
  have prune: "join_prune ?H nh1 (join_status ?cn) = (Ok (), nh1)"
    using get by (auto simp: join_prune_def split: option.split)
  have add: "join_add ?H nh1 (join_status ?cn) = (Ok (), nh3)"
    using put by (simp add: join_add_def join_status_def cn)
  have utf8: "utf8_ok (cn_Binding ?cn)" by (simp add: cn utf8_ok_ascii is_ascii_def)
  let ?r2 = "body_request (json_Marshal (ClusterStatus_json (join_status ?cn)))"
  have r2: "rq_Body ?r2 = Inr (json_Marshal (ClusterStatus_json (join_status ?cn)))" by (simp add: body_request_def)
  have "json_Marshal (ClusterStatus_json (join_status ?cn)) \<noteq> []" by (simp add: json_Marshal_def ClusterStatus_json_def str_bytes_eq_Nil)
  then have serve2: "serve ?H example_config example_env nh1 new_response ?r2 \<lparr>sa_ServiceType = SERVE_POST_JOIN, sa_Values = None\<rparr>
      = (Ok (), WriteHeader 200 new_response, [], nh3)"
    using decode_ClusterStatus [OF join_status_ok [OF utf8]] prune add r2 by (simp add: serve_cases serve_post_join_def)
  have post: "pe_Post running_peer () (join_url (cn_ver ?cn) ?h) (json_Marshal (ClusterStatus_json (join_status ?cn)))
      = (status (WriteHeader 200 new_response), ())"
    by (simp add: running_peer_ops status_WriteHeader)
  have pre: "?h \<noteq> cn_Binding ?cn" "cs_Instantiated example_status < cn_Instantiated ?cn" "cs_Started example_status > 0"
    by (simp_all add: cn example_status_def)
  have started: "pe_Get running_peer () (started_url (cn_ver ?cn) ?h) = (Some (the (status ?w1), Inr (w_body ?w1)), ())"
    unfolding w1 cn by (rule running_peer_ops)
  from node_joins [OF refdb.cluster.cluster_kv_axioms utf8 pre(1) example_peer [folded cn(2)] running_peer_ops(1) [folded cn(2)]
      decode_ClusterStatus [OF example_status_ok] pre(2,3) conf serve1 started r2 serve2 post, of "[]"]
  show ?thesis unfolding cn by blast
qed

section \<open>A second cluster\<close>

definition always_gets :: "('n, 'a) peers_scheme \<Rightarrow> string \<Rightarrow> (nat \<times> (error + bytes)) option \<Rightarrow> bool" where
  "always_gets N url reply \<longleftrightarrow> (\<forall>n. \<exists>n'. pe_Get N n url = (reply, n'))"

text \<open>A peer that reports having started, with the status it reports.\<close>

definition started_peer :: "('n, 'a) peers_scheme \<Rightarrow> connection \<Rightarrow> string \<Rightarrow> ClusterStatus \<Rightarrow> bool" where
  "started_peer N cn h cs \<longleftrightarrow> h \<noteq> cn_Binding cn \<and> ipv4_host h \<and> url_Parse (status_url (cn_ver cn) h) \<noteq> None
     \<and> url_Parse (started_url (cn_ver cn) h) \<noteq> None \<and> cs_Instantiated cs \<noteq> cn_Instantiated cn \<and> cs_Started cs > 0
     \<and> (\<exists>st data. always_gets N (status_url (cn_ver cn) h) (Some (st, Inr data))
          \<and> json_Unmarshal dec_ClusterStatus data zero_ClusterStatus = (cs, True))"

definition says_true :: "(nat \<times> (error + bytes)) option \<Rightarrow> bool" where
  "says_true reply \<longleftrightarrow> (\<exists>st. reply = Some (st, Inr (str_bytes ''true'')) \<and> ok_status (Some st))"

lemma checkBootstrap_reply:
  assumes "url_Parse (started_url (cn_ver cn) h) \<noteq> None" "always_gets N (started_url (cn_ver cn) h) reply"
  shows "\<exists>n'. checkBootstrap N cn h s = Run (if says_true reply then join_peer N cn h (s\<lparr>net := n'\<rparr>) else (s\<lparr>net := n', bootstrap := True\<rparr>, False))"
proof -
  obtain n' where "pe_Get N (net s) (started_url (cn_ver cn) h) = (reply, n')" using assms(2) unfolding always_gets_def by blast
  with assms(1) show ?thesis
    by (intro exI [of _ n']) (auto simp: checkBootstrap_def Let_def says_true_def simp del: str_bytes_simps split: option.split sum.split)
qed

lemma visit_host_reply:
  assumes "started_peer N cn h cs" "always_gets N (started_url (cn_ver cn) h) reply"
  shows "\<exists>k n'. visit_host N cn h s =
    (let s' = s\<lparr>olderThan := k, initialMembers := (initialMembers s)(cs_ReplicaID cs \<mapsto> cs_Binding cs @ KV_PORT), net := n'\<rparr>
     in Run (if says_true reply then join_peer N cn h s' else (s'\<lparr>bootstrap := True\<rparr>, False)))"
proof -
  obtain st data n1 where g: "pe_Get N (net s) (status_url (cn_ver cn) h) = (Some (st, Inr data), n1)"
      "json_Unmarshal dec_ClusterStatus data zero_ClusterStatus = (cs, True)"
    using assms(1) unfolding started_peer_def always_gets_def by metis
  let ?k = "olderThan s + (if cn_Instantiated cn < cs_Instantiated cs then 1 else 0)"
  let ?s = "s\<lparr>net := n1, olderThan := ?k, initialMembers := (initialMembers s)(cs_ReplicaID cs \<mapsto> cs_Binding cs @ KV_PORT)\<rparr>"
  have "visit_host N cn h s = checkBootstrap N cn h ?s"
    using assms(1) by (intro visit_host_started [OF _ _ _ g]) (auto simp: started_peer_def)
  moreover obtain n' where "checkBootstrap N cn h ?s = Run (if says_true reply then join_peer N cn h (?s\<lparr>net := n'\<rparr>) else (?s\<lparr>net := n', bootstrap := True\<rparr>, False))"
    using checkBootstrap_reply [OF _ assms(2), of ?s] assms(1) unfolding started_peer_def by blast
  ultimately show ?thesis by (intro exI [of _ ?k] exI [of _ n']) (simp add: Let_def)
qed

lemma join_peer_refused:
  assumes "\<forall>n. \<not> ok_status (fst (pe_Post N n (join_url (cn_ver cn) h) (json_Marshal (ClusterStatus_json (join_status cn)))))"
  shows "\<exists>n'. join_peer N cn h s = (s\<lparr>bootstrap := False, net := n'\<rparr>, False)"
proof (cases "url_Parse (join_url (cn_ver cn) h) = None")
  case True
  then show ?thesis by (intro exI [of _ "net s"]) (simp add: join_peer_def)
next
  case False
  obtain x n' where p: "pe_Post N (net s) (join_url (cn_ver cn) h) (json_Marshal (ClusterStatus_json (join_status cn))) = (x, n')" by (rule prod.exhaust)
  moreover from assms have "\<not> ok_status (fst (pe_Post N (net s) (join_url (cn_ver cn) h) (json_Marshal (ClusterStatus_json (join_status cn)))))" by blast
  ultimately show ?thesis using False by (intro exI [of _ n']) (auto simp: join_peer_def Let_def)
qed

text \<open>
  C40. A node can create a second cluster next to one it has found: when the first peer says that its
  cluster is running but does not accept the join, and the next peer has started and cannot confirm
  the same, the node gives up joining and bootstraps, with itself and both peers as members.
\<close>

theorem second_cluster:
  assumes "started_peer N cn h1 cs1" "started_peer N cn h2 cs2"
    and "always_gets N (started_url (cn_ver cn) h1) found" "says_true found"
    and "\<forall>n. \<not> ok_status (fst (pe_Post N n (join_url (cn_ver cn) h1) (json_Marshal (ClusterStatus_json (join_status cn)))))"
    and "always_gets N (started_url (cn_ver cn) h2) missing" "\<not> says_true missing"
  shows "\<exists>s. rounds N cn [h1, h2] (new_boot cn n) = Run s \<and> bootstrap s \<and> initialMembers s =
    [cn_ReplicaID cn \<mapsto> cn_Binding cn @ KV_PORT, cs_ReplicaID cs1 \<mapsto> cs_Binding cs1 @ KV_PORT, cs_ReplicaID cs2 \<mapsto> cs_Binding cs2 @ KV_PORT]"
proof -
  let ?s0 = "(new_boot cn n)\<lparr>olderThan := 0\<rparr>"
  obtain k1 n1 where v1: "visit_host N cn h1 ?s0 = Run (join_peer N cn h1
      (?s0\<lparr>olderThan := k1, initialMembers := (initialMembers ?s0)(cs_ReplicaID cs1 \<mapsto> cs_Binding cs1 @ KV_PORT), net := n1\<rparr>))"
    using visit_host_reply [OF assms(1,3), of ?s0] assms(4) unfolding Let_def by auto
  obtain n2 where v1: "visit_host N cn h1 ?s0 = Run (?s0\<lparr>olderThan := k1,
      initialMembers := (initialMembers ?s0)(cs_ReplicaID cs1 \<mapsto> cs_Binding cs1 @ KV_PORT), net := n1, bootstrap := False, net := n2\<rparr>, False)"
    (is "_ = Run (?s1, False)") using join_peer_refused [OF assms(5)] unfolding v1 by blast
  obtain k3 n3 where "visit_host N cn h2 ?s1 = Run (?s1\<lparr>olderThan := k3,
      initialMembers := (initialMembers ?s1)(cs_ReplicaID cs2 \<mapsto> cs_Binding cs2 @ KV_PORT), net := n3, bootstrap := True\<rparr>, False)"
    using visit_host_reply [OF assms(2,6), of ?s1] assms(7) unfolding Let_def by auto
  with v1 show ?thesis by (subst rounds.simps) (simp add: Let_def, simp add: new_boot_def)
qed

theorem second_cluster_witness:
  "\<exists>s. rounds (fixed_peers
       (\<lambda>url. if url = status_url ''v1'' ''10.0.0.2'' \<or> url = status_url ''v1'' ''10.0.0.3'' then Some (200, Inr (json_Marshal (ClusterStatus_json example_status)))
             else if url = started_url ''v1'' ''10.0.0.2'' then Some (200, Inr (str_bytes ''true'')) else None) (\<lambda>url. Some 503))
     later_connection [''10.0.0.2'', ''10.0.0.3''] (new_boot later_connection ()) = Run s \<and> bootstrap s"
proof -
  let ?N = "fixed_peers
       (\<lambda>url. if url = status_url ''v1'' ''10.0.0.2'' \<or> url = status_url ''v1'' ''10.0.0.3'' then Some (200, Inr (json_Marshal (ClusterStatus_json example_status)))
             else if url = started_url ''v1'' ''10.0.0.2'' then Some (200, Inr (str_bytes ''true'')) else None) (\<lambda>url. Some 503)"
  have cn: "cn_Binding later_connection = ''10.0.0.1''" "cn_ver later_connection = ''v1''" "cn_Instantiated later_connection = 9"
    by (simp_all add: later_connection_def example_connection_def)
  have urls: "started_url ''v1'' h \<noteq> status_url ''v1'' h" "started_url ''v1'' ''10.0.0.2'' \<noteq> status_url ''v1'' ''10.0.0.3''"
      "started_url ''v1'' ''10.0.0.3'' \<noteq> status_url ''v1'' ''10.0.0.2''" "started_url ''v1'' ''10.0.0.3'' \<noteq> started_url ''v1'' ''10.0.0.2''" for h
    by (simp_all add: started_url_def status_url_def ROO_STARTED_def)
  have ip: "ip_String (IPv4 [10, 0, 0, 3]) = ''10.0.0.3''" by code_simp
  have "ParseIP ''10.0.0.3'' = Some (IPv4 [10, 0, 0, 3])" using ParseIP_String [of "[10, 0, 0, 3]"] unfolding ip by (simp add: octets_def)
  then have v4: "ipv4_host ''10.0.0.3''" by (simp add: ipv4_host_def To4_def)
  have parse: "url_Parse (status_url ''v1'' ''10.0.0.3'') \<noteq> None" "url_Parse (started_url ''v1'' ''10.0.0.3'') \<noteq> None" by code_simp+
  have peers: "started_peer ?N later_connection h example_status" if "h = ''10.0.0.2'' \<or> h = ''10.0.0.3''" for h
    unfolding started_peer_def cn using that example_peer(1-3) v4 parse decode_ClusterStatus [OF example_status_ok]
    by (auto simp: always_gets_def example_status_def)
  have gets: "always_gets ?N (started_url ''v1'' ''10.0.0.2'') (Some (200, Inr (str_bytes ''true'')))" "always_gets ?N (started_url ''v1'' ''10.0.0.3'') None"
    using urls by (simp_all add: always_gets_def del: str_bytes_simps)
  have "says_true (Some (200, Inr (str_bytes ''true'')))" "\<not> says_true None" by (simp_all add: says_true_def ok_status_def del: str_bytes_simps)
  from second_cluster [of ?N later_connection "''10.0.0.2''" example_status "''10.0.0.3''" example_status, OF peers peers _ this(1) _ _ this(2), unfolded cn] gets
  show ?thesis by (auto simp: ok_status_def)
qed

end
