(* ===== verification/Node_Setup.thy ===== *)
theory Node_Setup
  imports Nats_Service Cluster_Start
begin

text \<open>
  The steps of \<open>main\<close> (\<open>roo.go\<close>) around the services: overrides of the configuration by the
  environment, the delay before the start, the hosts from the DNS, and the start of the cluster, the
  notifiers and the consumers. The environment, the DNS and the sessions are arguments; the decoding
  of the configuration file and the log levels are not modelled.
\<close>

record boot_config =
  su_DNS :: string
  su_Resolver :: string
  su_BootstrapHosts :: bool
  su_StartDelaySeconds :: int
  su_Hosts :: "string list"
  su_ApiVersion :: int
  su_ApiVersionString :: string
  su_AllowOrigin :: string
  su_SwarmRefreshSeconds :: int

section \<open>Configuration\<close>

definition config_overrides :: "(string \<Rightarrow> string) \<Rightarrow> boot_config \<Rightarrow> boot_config" where
  "config_overrides getenv s =
     (let s = (if getenv ''ROO_DNS'' \<noteq> [] then s\<lparr>su_DNS := getenv ''ROO_DNS''\<rparr> else s);
          s = (if getenv ''ROO_RESOLVER'' \<noteq> [] then s\<lparr>su_Resolver := getenv ''ROO_RESOLVER''\<rparr> else s);
          s = s\<lparr>su_ApiVersionString := ''v'' @ show_int (su_ApiVersion s)\<rparr>;
          s = (if su_AllowOrigin s = [] then s\<lparr>su_AllowOrigin := ''*''\<rparr> else s)
      in if su_SwarmRefreshSeconds s = 0 then s\<lparr>su_SwarmRefreshSeconds := 60\<rparr> else s)"

text \<open>The value \<open>strconv.ParseInt\<close> returns beside its error: 0 for bad syntax, the nearest value out of range.\<close>

definition ParseInt_value :: "string \<Rightarrow> int" where
  "ParseInt_value s =
     (let neg = (s \<noteq> [] \<and> hd s = CHR ''-''); digits = (if s \<noteq> [] \<and> hd s \<in> {CHR ''-'', CHR ''+''} then tl s else s)
      in if digits = [] \<or> \<not> list_all is_digit digits then 0
         else if neg then max (- (2 ^ 63)) (- int (digits_val digits))
         else min (2 ^ 63 - 1) (int (digits_val digits)))"

text \<open>The delay: the duration of the sleep in nanoseconds, computed at 64 bits, if there is one.\<close>

definition start_delay :: "(string \<Rightarrow> string) \<Rightarrow> boot_config \<Rightarrow> boot_config \<times> int option" where
  "start_delay getenv s =
     (let d = ParseInt_value (getenv ''ROO_START_DELAY'');
          s = (if d > 0 then s\<lparr>su_StartDelaySeconds := d\<rparr> else s)
      in if su_DNS s \<noteq> [] \<and> su_DNS s \<noteq> ''localhost''
         then (let s = (if su_StartDelaySeconds s = 0 then s\<lparr>su_StartDelaySeconds := 10\<rparr> else s)
               in (s, Some (int64 (su_StartDelaySeconds s * 10 ^ 9))))
         else (s, None))"

text \<open>The hosts: \<open>dns\<close> is the lookup with the system's resolver (\<open>None\<close>) or the configured one.\<close>

definition lookup_hosts :: "(string option \<Rightarrow> string \<Rightarrow> error + string list) \<Rightarrow> boot_config \<Rightarrow> boot_config run" where
  "lookup_hosts dns s =
     (if su_BootstrapHosts s then
        (if su_Resolver s = [] then
           Run (s\<lparr>su_Hosts := su_Hosts s @ (case dns None (su_DNS s) of Inl e \<Rightarrow> [] | Inr hs \<Rightarrow> hs)\<rparr>)
         else
           (case dns (Some (su_Resolver s @ '':53'')) (su_DNS s) of
              Inl err \<Rightarrow> Exit (''[CRITICAL] Cluster: DNS Resolver failed '' @ err_text err)
            | Inr hs \<Rightarrow> Run (s\<lparr>su_Hosts := su_Hosts s @ hs\<rparr>)))
      else Run s)"

section \<open>Services\<close>

text \<open>
  Starting the cluster: only the key-value service is known. \<open>connected\<close> is the outcome of \<open>connect\<close>
  (nothing if it does not return), the error it returns and whether it has set the session; the
  result says whether the API has a session to serve with.
\<close>

definition load_cluster :: "string \<Rightarrow> bool \<Rightarrow> (error option \<times> bool) run option \<Rightarrow> bool run option" where
  "load_cluster service critical connected =
     (if service = ''kv'' then
        (case connected of
           None \<Rightarrow> None
         | Some (Exit m) \<Rightarrow> Some (Exit m)
         | Some (Crash p) \<Rightarrow> Some (Crash p)
         | Some (Run (err, session)) \<Rightarrow>
             if (err \<noteq> None \<or> \<not> session) \<and> critical then Some (Exit ''[CRITICAL] Could not connect to RAFT Cluster.'')
             else Some (Run session))
      else Some (Crash ''[ERROR] Cluster not implemented''))"

text \<open>What \<open>connect\<close> returns when it returns: no error, and the session is set.\<close>

definition connect_returned :: "'a run option \<Rightarrow> (error option \<times> bool) run option" where
  "connect_returned c = (case c of
     None \<Rightarrow> None | Some (Exit m) \<Rightarrow> Some (Exit m) | Some (Crash p) \<Rightarrow> Some (Crash p) | Some (Run x) \<Rightarrow> Some (Run (None, True)))"

text \<open>Starting a notifier or consumer that has the outcome \<open>connected\<close>; a consumer listens when it is connected.\<close>

definition load_service ::
    "bool \<Rightarrow> Service \<Rightarrow> (error option \<times> Service) run \<Rightarrow> (Service \<times> (string \<times> string) list) run" where
  "load_service consume s connected =
     (if sv_Service s = ''nats'' then
        (case connected of
           Exit m \<Rightarrow> Exit m
         | Crash p \<Rightarrow> Crash p
         | Run (err, s') \<Rightarrow>
             if err \<noteq> None \<or> \<not> sv_Session s' then
               (if sv_Critical s' then Exit ''[CRITICAL] Could not connect to NATS Cluster.'' else Run (s', []))
             else Run (s', if consume then fst (nats_listen s') else []))
      else Run (s, []))"

fun load_services ::
    "bool \<Rightarrow> (Service \<Rightarrow> (error option \<times> Service) run) \<Rightarrow> Service list \<Rightarrow> (Service list \<times> (string \<times> string) list) run" where
  "load_services consume connect_to [] = Run ([], [])"
| "load_services consume connect_to (s # ss) = (case load_service consume s (connect_to s) of
     Exit m \<Rightarrow> Exit m
   | Crash p \<Rightarrow> Crash p
   | Run (s', subs) \<Rightarrow> (case load_services consume connect_to ss of
       Exit m \<Rightarrow> Exit m
     | Crash p \<Rightarrow> Crash p
     | Run (ss', subs') \<Rightarrow> Run (s' # ss', subs @ subs')))"

section \<open>Properties\<close>

text \<open>The delay sleeps for the given number of seconds only below 9223372037; above, the product wraps.\<close>

lemma start_delay_exact:
  assumes "su_DNS s \<noteq> []" "su_DNS s \<noteq> ''localhost''" "start_delay getenv s = (s', Some ns)" "0 \<le> su_StartDelaySeconds s'"
  shows "ns = su_StartDelaySeconds s' * 10 ^ 9 \<longleftrightarrow> su_StartDelaySeconds s' \<le> 9223372036"
proof -
  have ns: "ns = int64 (su_StartDelaySeconds s' * 10 ^ 9)"
    using assms(1-3) by (auto simp: start_delay_def Let_def split: if_splits)
  show ?thesis
  proof (cases "su_StartDelaySeconds s' \<le> 9223372036")
    case True
    then have "su_StartDelaySeconds s' * 10 ^ 9 < 2 ^ 63" "0 \<le> su_StartDelaySeconds s' * 10 ^ 9" using assms(4) by simp_all
    then show ?thesis using True ns by (simp add: int64_def)
  next
    case False
    have "ns < 2 ^ 63" unfolding ns int64_def by (simp add: pos_mod_bound less_diff_eq [symmetric] algebra_simps)
    then show ?thesis using False by simp
  qed
qed

text \<open>The API is served as soon as the node has connected, and the branch for errors is never taken.\<close>

lemma load_cluster_connected:
  "load_cluster ''kv'' critical (connect_returned c) = (case c of
     None \<Rightarrow> None | Some (Exit m) \<Rightarrow> Some (Exit m) | Some (Crash p) \<Rightarrow> Some (Crash p) | Some (Run x) \<Rightarrow> Some (Run True))"
  by (auto simp: load_cluster_def connect_returned_def split: option.split run.split)

text \<open>No service that is not critical ends the process.\<close>

lemma load_services_run:
  "\<forall>s\<in>set ss. \<exists>err s'. connect_to s = Run (err, s') \<and> \<not> sv_Critical s' \<Longrightarrow>
   \<exists>ss' subs. load_services consume connect_to ss = Run (ss', subs) \<and> length ss' = length ss"
proof (induction ss)
  case (Cons s ss)
  obtain err s1 where s1: "connect_to s = Run (err, s1)" "\<not> sv_Critical s1" using Cons.prems by auto
  then have "\<exists>s2 subs. load_service consume s (connect_to s) = Run (s2, subs)" by (simp add: load_service_def)
  then obtain s2 subs where "load_service consume s (connect_to s) = Run (s2, subs)" by blast
  moreover obtain ss' subs' where "load_services consume connect_to ss = Run (ss', subs')" "length ss' = length ss"
    using Cons.IH Cons.prems by auto
  ultimately show ?case by simp
qed simp

text \<open>
  A node whose address is among the looked up hosts and that has no binding configured binds to an
  address of its own that is among them, and asks exactly the other IPv4 hosts.
\<close>

lemma bind_host_found: "ip_String ip \<in> set hosts \<Longrightarrow> bind_host ip hosts b = ip_String ip"
  by (induction hosts) auto

lemma bind_host_not_found: "ip_String ip \<notin> set hosts \<Longrightarrow> bind_host ip hosts b = b"
  by (induction hosts) auto

lemma bind_hosts_found:
  "bind_hosts ips hosts b \<in> set hosts \<inter> ip_String ` set ips \<or> (bind_hosts ips hosts b = b \<and> set hosts \<inter> ip_String ` set ips = {})"
proof (induction ips arbitrary: b)
  case (Cons ip ips)
  show ?case
  proof (cases "ip_String ip \<in> set hosts")
    case True
    then show ?thesis using Cons [of "ip_String ip"] by (auto simp: bind_host_found)
  next
    case False
    then show ?thesis using Cons [of b] by (auto simp: bind_host_not_found)
  qed
qed simp

lemma choose_binding_found:
  assumes "set hosts \<inter> ip_String ` set ips \<noteq> {}"
  shows "choose_binding ips hosts [] \<in> set hosts \<inter> ip_String ` set ips"
  using bind_hosts_found [of ips hosts "[]"] assms by (auto simp: choose_binding_def)

section \<open>A node that has connected\<close>

lemma rejoin_Run:
  fixes start :: "'h starter"
  assumes ret: "rejoin start members boot h = Some r"
  shows "\<forall>h'. r = Run h' \<longrightarrow> (\<exists>h0. start h0 members (\<not> boot) = (None, h'))"
proof (rule rejoin.raw_induct [where P = "\<lambda>start members boot h r. \<forall>h'. r = Run h' \<longrightarrow> (\<exists>h0. start h0 members (\<not> boot) = (None, h'))", OF _ ret])
  fix loop :: "'h starter \<Rightarrow> (uint64 \<rightharpoonup> string) \<Rightarrow> bool \<Rightarrow> 'h \<Rightarrow> 'h run option" and start :: "'h starter" and members boot h r
  assume IH: "\<And>start members boot h r. loop start members boot h = Some r \<Longrightarrow> \<forall>h'. r = Run h' \<longrightarrow> (\<exists>h0. start h0 members (\<not> boot) = (None, h'))"
    and eq: "(case start h members (\<not> boot) of (None, h') \<Rightarrow> Some (Run h')
      | (Some e, h') \<Rightarrow> if boot then loop start members boot h' else Some (Exit ''[ERROR] Failed to add cluster'')) = Some r"
  obtain x h1 where x: "start h members (\<not> boot) = (x, h1)" by (rule prod.exhaust)
  show "\<forall>h'. r = Run h' \<longrightarrow> (\<exists>h0. start h0 members (\<not> boot) = (None, h'))"
  proof (cases "x = None")
    case True
    with eq x show ?thesis by auto
  next
    case False
    with eq x have "loop start members boot h1 = Some r \<or> r = Exit ''[ERROR] Failed to add cluster''" by (auto split: if_splits)
    with IH show ?thesis by blast
  qed
qed

lemma ParseIP_Nil [simp]: "ParseIP [] = None"
  by code_simp


text \<open>A node that is alone creates the cluster after one round.\<close>

lemma lone_connect:
  defines "cn t v \<equiv> \<lparr>cn_Binding = ''10.0.0.2'', cn_ReplicaID = of_nat (41 + 1), cn_ShardID = 1, cn_Instantiated = t, cn_ver = v\<rparr>"
  shows "connect (fixed_peers Map.empty (\<lambda>url. None)) (\<lambda>h members join. (None, h)) (Inr [IPv4 [10, 0, 0, 2]]) 41 (Inr ())
      \<lparr>kc_Binding = ''10.0.0.2'', kc_Hosts = [], kc_ShardID = 1, kc_Instantiated = t, kc_ver = v\<rparr> ()
    = Some (Run (cn t v, [], (new_boot (cn t v) ())\<lparr>olderThan := 0, waited := 1, bootstrap := True\<rparr>, ()))"
proof -
  have ip: "ip_String (IPv4 [10, 0, 0, 2]) = ''10.0.0.2''" by code_simp
  have p: "ParseIP ''10.0.0.2'' \<noteq> None" using ParseIP_String [of "[10, 0, 0, 2]"] unfolding ip by (simp add: octets_def)
  have "rounds (fixed_peers Map.empty (\<lambda>url. None)) (cn t v) [] (new_boot (cn t v) ())
      = Run ((new_boot (cn t v) ())\<lparr>olderThan := 0, waited := 1, bootstrap := True\<rparr>)"
    by (subst rounds.simps) (simp add: new_boot_def cn_def)
  moreover have "choose_binding [IPv4 [10, 0, 0, 2]] [] ''10.0.0.2'' = ''10.0.0.2''" by (simp add: choose_binding_def ip)
  ultimately show ?thesis using p by (simp add: connect_def rejoin.simps Let_def cn_def)
qed


end
