(* ===== verification/Raft_Setup.thy ===== *)
theory Raft_Setup
  imports Bootstrap
begin

text \<open>
  What \<open>connect\<close> (\<open>kv.go\<close>) configures the Raft library with: the timing of the replica, the address it
  listens at and the directory of its log. The directory is joined with \<open>filepath.Join\<close>, which is
  modelled with its cleaning of paths, so that the lemmas hold for every configured root.
\<close>

section \<open>Paths\<close>

text \<open>\<open>filepath.Clean\<close>, on the parts between the slashes; the parts that stay are collected in reverse.\<close>

fun clean_parts :: "bool \<Rightarrow> string list \<Rightarrow> string list \<Rightarrow> string list" where
  "clean_parts rooted out [] = rev out"
| "clean_parts rooted out (e # es) =
     (if e = [] \<or> e = ''.'' then clean_parts rooted out es
      else if e = ''..'' then
        (if out \<noteq> [] \<and> hd out \<noteq> ''..'' then clean_parts rooted (tl out) es
         else if rooted then clean_parts rooted out es
         else clean_parts rooted (e # out) es)
      else clean_parts rooted (e # out) es)"

definition path_Clean :: "string \<Rightarrow> string" where
  "path_Clean p =
     (let rooted = (p \<noteq> [] \<and> hd p = CHR ''/'');
          s = join_with CHR ''/'' (clean_parts rooted [] (split_on CHR ''/'' p)) in
      if rooted then CHR ''/'' # s else if s = [] then ''.'' else s)"

definition path_Join :: "string list \<Rightarrow> string" where
  "path_Join es = (case filter (\<lambda>e. e \<noteq> []) es of [] \<Rightarrow> [] | ps \<Rightarrow> path_Clean (join_with CHR ''/'' ps))"

section \<open>The configuration of the library\<close>

record raft_config =
  rc_ReplicaID :: uint64
  rc_ShardID :: uint64
  rc_ElectionRTT :: nat
  rc_HeartbeatRTT :: nat
  rc_CheckQuorum :: bool
  rc_SnapshotEntries :: nat
  rc_CompactionOverhead :: nat

definition connect_rc :: "uint64 \<Rightarrow> uint64 \<Rightarrow> raft_config" where
  "connect_rc shard replica = \<lparr>rc_ReplicaID = replica, rc_ShardID = shard, rc_ElectionRTT = 10, rc_HeartbeatRTT = 1,
     rc_CheckQuorum = True, rc_SnapshotEntries = 10, rc_CompactionOverhead = 5\<rparr>"

definition data_root :: "string \<Rightarrow> string" where
  "data_root root = (if root = [] then ''cluster-data'' else root)"

definition datadir :: "string \<Rightarrow> uint64 \<Rightarrow> string" where
  "datadir root replica = path_Join [data_root root, ''roo'', ''node'' @ show_uint64 replica]"

text \<open>The log of the library is the default one, or \<open>tan\<close>.\<close>

datatype log_db = DefaultLogDB | Tan

record nodehost_config =
  nhc_WALDir :: string
  nhc_NodeHostDir :: string
  nhc_RTTMillisecond :: nat
  nhc_RaftAddress :: string
  nhc_LogDB :: log_db

definition connect_nhc :: "string \<Rightarrow> string \<Rightarrow> string \<Rightarrow> uint64 \<Rightarrow> nodehost_config" where
  "connect_nhc root logdb binding replica =
     \<lparr>nhc_WALDir = datadir root replica, nhc_NodeHostDir = datadir root replica, nhc_RTTMillisecond = 200,
      nhc_RaftAddress = binding @ KV_PORT, nhc_LogDB = (if logdb = ''tan'' then Tan else DefaultLogDB)\<rparr>"

section \<open>Facts on paths\<close>

definition plain_part :: "string \<Rightarrow> bool" where
  "plain_part e \<longleftrightarrow> e \<noteq> [] \<and> e \<noteq> ''.'' \<and> e \<noteq> ''..'' \<and> CHR ''/'' \<notin> set e"

lemma clean_parts_snoc: "plain_part e \<Longrightarrow> clean_parts rooted out (es @ [e]) = clean_parts rooted out es @ [e]"
  by (induction rooted out es rule: clean_parts.induct) (auto simp: plain_part_def)

lemma split_on_snoc: "d \<notin> set e \<Longrightarrow> split_on d (s @ d # e) = split_on d s @ [e]"
proof (induction s)
  case Nil
  then show ?case by (simp add: split_on_no_sep)
next
  case (Cons c s)
  then show ?case by (auto split: list.splits)
qed

lemma join_with_snoc: "join_with d (ps @ [e]) = (if ps = [] then e else join_with d ps @ d # e)"
  by (cases ps) (simp_all add: join_with_def)

text \<open>A last part that is a plain name stays the last part.\<close>

lemma path_Clean_last:
  assumes "plain_part e" "s \<noteq> []"
  obtains (only) "path_Clean (s @ CHR ''/'' # e) = e"
    | (below) t where "path_Clean (s @ CHR ''/'' # e) = t @ CHR ''/'' # e"
proof -
  define rooted where "rooted = (hd s = CHR ''/'')"
  define ps where "ps = clean_parts rooted [] (split_on CHR ''/'' s)"
  have "split_on CHR ''/'' (s @ CHR ''/'' # e) = split_on CHR ''/'' s @ [e]"
    using assms(1) by (simp add: split_on_snoc plain_part_def)
  then have "clean_parts rooted [] (split_on CHR ''/'' (s @ CHR ''/'' # e)) = ps @ [e]"
    using clean_parts_snoc [OF assms(1)] by (simp add: ps_def)
  moreover have "(s @ CHR ''/'' # e \<noteq> [] \<and> hd (s @ CHR ''/'' # e) = CHR ''/'') = rooted" using assms(2) by (simp add: rooted_def)
  ultimately have c: "path_Clean (s @ CHR ''/'' # e) = (let j = join_with CHR ''/'' (ps @ [e]) in
      if rooted then CHR ''/'' # j else if j = [] then ''.'' else j)"
    by (simp only: path_Clean_def Let_def)
  have e: "e \<noteq> []" using assms(1) by (simp add: plain_part_def)
  consider "ps = []" "\<not> rooted" | "ps = []" rooted | "ps \<noteq> []" by blast
  then show thesis
  proof cases
    case 1
    then show thesis using only c e by (simp add: join_with_def)
  next
    case 2
    then show thesis using below [of "[]"] c by (simp add: join_with_def)
  next
    case 3
    then show thesis
      using below [of "(if rooted then ''/'' else []) @ join_with CHR ''/'' ps"] c by (simp add: join_with_snoc Let_def)
  qed
qed

lemma last_part_unique:
  assumes "CHR ''/'' \<notin> set e" "CHR ''/'' \<notin> set e'" "s = e \<or> (\<exists>t. s = t @ CHR ''/'' # e)" "s = e' \<or> (\<exists>t. s = t @ CHR ''/'' # e')"
  shows "e = e'"
proof -
  have last: "last (split_on CHR ''/'' s) = x" if "CHR ''/'' \<notin> set x" "s = x \<or> (\<exists>t. s = t @ CHR ''/'' # x)" for x
    using that by (auto simp: split_on_no_sep split_on_snoc)
  from last [OF assms(1,3)] last [OF assms(2,4)] show ?thesis by simp
qed

section \<open>Directories of replicas\<close>

lemma plain_part_node: "plain_part (''node'' @ show_uint64 r)"
  using show_nat_digits [of "unat r"] by (auto simp: plain_part_def show_uint64_def list_all_iff is_digit_def)

lemma datadir_last: "datadir root r = ''node'' @ show_uint64 r \<or> (\<exists>t. datadir root r = t @ CHR ''/'' # ''node'' @ show_uint64 r)"
proof -
  have root: "data_root root \<noteq> []" by (simp add: data_root_def)
  then have d: "datadir root r = path_Clean ((data_root root @ ''/roo'') @ CHR ''/'' # ''node'' @ show_uint64 r)"
    by (simp add: datadir_def path_Join_def join_with_def)
  from root have "data_root root @ ''/roo'' \<noteq> []" by simp
  from path_Clean_last [OF plain_part_node [of r] this] show ?thesis unfolding d by metis
qed

text \<open>
  Replicas with different identifiers never share a directory, whatever the root is. As a node draws
  its identifier anew at every start, this also means that it does not find the log of its last run.
\<close>

lemma datadir_inj: "datadir root r = datadir root r' \<longleftrightarrow> r = r'"
proof
  assume eq: "datadir root r = datadir root r'"
  have "CHR ''/'' \<notin> set (''node'' @ show_uint64 x)" for x using plain_part_node by (simp add: plain_part_def)
  from last_part_unique [OF this this datadir_last [of root r] datadir_last [of root r', folded eq]]
  show "r = r'" by simp
qed simp

text \<open>The state machine keeps its data below a fixed directory, beside the default one of the log.\<close>

lemma default_datadir: "datadir [] r = ''cluster-data/roo/node'' @ show_uint64 r"
proof -
  have "CHR ''/'' \<notin> set (''node'' @ show_uint64 r)" using plain_part_node by (simp add: plain_part_def)
  from split_on_snoc [OF this, of "''cluster-data/roo''"]
  have "split_on CHR ''/'' (''cluster-data/roo/node'' @ show_uint64 r) = [''cluster-data'', ''roo'', ''node'' @ show_uint64 r]" by simp
  then show ?thesis
    by (simp add: datadir_def path_Join_def data_root_def path_Clean_def join_with_def)
qed

end
