(* ===== verification/Config_File.thy ===== *)
theory Config_File
  imports Kv_Serve
begin

text \<open>
  The configuration file: the structures of \<open>typedefs.go\<close> that it fills, their decoding with
  \<open>encoding/json\<close>, and the steps of \<open>main\<close> (\<open>roo.go\<close>) that read it and set the levels of the loggers.

  Fields that are set by the program while it runs and whose type no file can fill (a session, a
  function, the buffer pool) are not part of the records: giving them any value but \<open>null\<close> is an
  error. The caches, the table of proxies and the mutex are overwritten or not looked at; whether a
  value decodes into them is the argument \<open>opaque\<close>.
\<close>

section \<open>Structures by name\<close>

text \<open>A struct from the list of its fields, by their folded names; other members are ignored.\<close>

definition dec_fields :: "(string \<times> 'a decoder) list \<Rightarrow> 'a decoder" where
  "dec_fields fs = dec_struct (\<lambda>k. case map_of fs k of Some d \<Rightarrow> d | None \<Rightarrow> (\<lambda>old v. (old, True)))"

text \<open>A field of a record, by its selector and its update function.\<close>

definition dec_at :: "('a \<Rightarrow> 'b) \<Rightarrow> (('b \<Rightarrow> 'b) \<Rightarrow> 'a \<Rightarrow> 'a) \<Rightarrow> 'b decoder \<Rightarrow> 'a decoder" where
  "dec_at get upd dec = dec_field get (\<lambda>x. upd (\<lambda>_. x)) dec"

text \<open>Values of function and interface types take only \<open>null\<close>, others what \<open>opaque\<close> says.\<close>

definition dec_null :: "'a decoder" where
  "dec_null old v = (old, v = JNull)"

definition dec_opaque :: "(json \<Rightarrow> bool) \<Rightarrow> 'a decoder" where
  "dec_opaque ok old v = (old, ok v)"

section \<open>The structures\<close>

record Field =
  fd_Type :: string
  fd_Id :: string
  fd_Default :: string

definition zero_Field :: Field where
  "zero_Field = \<lparr>fd_Type = [], fd_Id = [], fd_Default = []\<rparr>"

definition dec_Field :: "Field decoder" where
  "dec_Field = dec_fields [
     (''TYPE'', dec_at fd_Type fd_Type_update dec_string),
     (''ID'', dec_at fd_Id fd_Id_update dec_string),
     (''DEFAULT'', dec_at fd_Default fd_Default_update dec_string)]"

record Query =
  qy_Statement :: string
  qy_QueryType :: string
  qy_Fields :: "Field list option"

definition zero_Query :: Query where
  "zero_Query = \<lparr>qy_Statement = [], qy_QueryType = [], qy_Fields = None\<rparr>"

definition dec_Query :: "Query decoder" where
  "dec_Query = dec_fields [
     (''STATEMENT'', dec_at qy_Statement qy_Statement_update dec_string),
     (''QUERYTYPE'', dec_at qy_QueryType qy_QueryType_update dec_string),
     (''FIELDS'', dec_at qy_Fields qy_Fields_update (dec_list zero_Field dec_Field))]"

record Filter =
  fl_Type :: string
  fl_Alias :: string
  fl_Id :: string
  fl_Queries :: "Query list option"

definition zero_Filter :: Filter where
  "zero_Filter = \<lparr>fl_Type = [], fl_Alias = [], fl_Id = [], fl_Queries = None\<rparr>"

definition dec_Filter :: "Filter decoder" where
  "dec_Filter = dec_fields [
     (''TYPE'', dec_at fl_Type fl_Type_update dec_string),
     (''ALIAS'', dec_at fl_Alias fl_Alias_update dec_string),
     (''ID'', dec_at fl_Id fl_Id_update dec_string),
     (''QUERIES'', dec_at fl_Queries fl_Queries_update (dec_list zero_Query dec_Query))]"

record service_config =
  sc_Service :: string
  sc_Hosts :: "string list option"
  sc_CACert :: string
  sc_Cert :: string
  sc_Key :: string
  sc_Secure :: bool
  sc_Critical :: bool
  sc_Context :: string
  sc_Filter :: "Filter list option"
  sc_Retry :: bool
  sc_Format :: string
  sc_MessageLimit :: int
  sc_ByteLimit :: int
  sc_Timeout :: int
  sc_Connections :: int
  sc_Consumer :: bool
  sc_Ephemeral :: bool
  sc_Note :: string
  sc_Instantiated :: int
  sc_Started :: int

definition zero_service_config :: service_config where
  "zero_service_config = \<lparr>sc_Service = [], sc_Hosts = None, sc_CACert = [], sc_Cert = [], sc_Key = [], sc_Secure = False, sc_Critical = False, sc_Context = [], sc_Filter = None, sc_Retry = False, sc_Format = [], sc_MessageLimit = 0, sc_ByteLimit = 0, sc_Timeout = 0, sc_Connections = 0, sc_Consumer = False, sc_Ephemeral = False, sc_Note = [], sc_Instantiated = 0, sc_Started = 0\<rparr>"

definition dec_service_config :: "service_config decoder" where
  "dec_service_config = dec_fields [
     (''SERVICE'', dec_at sc_Service sc_Service_update dec_string),
     (''HOSTS'', dec_at sc_Hosts sc_Hosts_update (dec_list [] dec_string)),
     (''CACERT'', dec_at sc_CACert sc_CACert_update dec_string),
     (''CERT'', dec_at sc_Cert sc_Cert_update dec_string),
     (''KEY'', dec_at sc_Key sc_Key_update dec_string),
     (''SECURE'', dec_at sc_Secure sc_Secure_update dec_bool),
     (''CRITICAL'', dec_at sc_Critical sc_Critical_update dec_bool),
     (''CONTEXT'', dec_at sc_Context sc_Context_update dec_string),
     (''FILTER'', dec_at sc_Filter sc_Filter_update (dec_list zero_Filter dec_Filter)),
     (''RETRY'', dec_at sc_Retry sc_Retry_update dec_bool),
     (''FORMAT'', dec_at sc_Format sc_Format_update dec_string),
     (''MESSAGELIMIT'', dec_at sc_MessageLimit sc_MessageLimit_update dec_int64),
     (''BYTELIMIT'', dec_at sc_ByteLimit sc_ByteLimit_update dec_int64),
     (''TIMEOUT'', dec_at sc_Timeout sc_Timeout_update dec_int64),
     (''CONNECTIONS'', dec_at sc_Connections sc_Connections_update dec_int64),
     (''CONSUMER'', dec_at sc_Consumer sc_Consumer_update dec_bool),
     (''EPHEMERAL'', dec_at sc_Ephemeral sc_Ephemeral_update dec_bool),
     (''NOTE'', dec_at sc_Note sc_Note_update dec_string),
     (''INSTANTIATED'', dec_at sc_Instantiated sc_Instantiated_update dec_int64),
     (''STARTED'', dec_at sc_Started sc_Started_update dec_int64),
     (''SESSION'', dec_null)]"

record cluster_config =
  cc_Service :: "service_config option"
  cc_DNS :: string
  cc_Resolver :: string
  cc_BootstrapHosts :: bool
  cc_Binding :: string
  cc_ReplicaID :: uint64
  cc_ShardID :: uint64
  cc_StartDelaySeconds :: int

definition zero_cluster_config :: cluster_config where
  "zero_cluster_config = \<lparr>cc_Service = None, cc_DNS = [], cc_Resolver = [], cc_BootstrapHosts = False, cc_Binding = [], cc_ReplicaID = 0, cc_ShardID = 0, cc_StartDelaySeconds = 0\<rparr>"

definition dec_cluster_config :: "cluster_config decoder" where
  "dec_cluster_config = dec_fields [
     (''SERVICE'', dec_at cc_Service cc_Service_update (dec_ptr zero_service_config dec_service_config)),
     (''DNS'', dec_at cc_DNS cc_DNS_update dec_string),
     (''RESOLVER'', dec_at cc_Resolver cc_Resolver_update dec_string),
     (''BOOTSTRAPHOSTS'', dec_at cc_BootstrapHosts cc_BootstrapHosts_update dec_bool),
     (''BINDING'', dec_at cc_Binding cc_Binding_update dec_string),
     (''REPLICAID'', dec_at cc_ReplicaID cc_ReplicaID_update dec_uint64),
     (''SHARDID'', dec_at cc_ShardID cc_ShardID_update dec_uint64),
     (''STARTDELAYSECONDS'', dec_at cc_StartDelaySeconds cc_StartDelaySeconds_update dec_int64)]"

record config =
  cf_SchemaVersion :: int
  cf_ApiVersion :: int
  cf_ApiVersionString :: string
  cf_DataDirectoryRoot :: string
  cf_AuthorizeSubpaths :: bool
  cf_AcmeStaging :: bool
  cf_Tests :: "string list option"
  cf_Swarm :: bool
  cf_SwarmRefreshSeconds :: int
  cf_SwarmRole :: string
  cf_CheckHostnames :: bool
  cf_Cluster :: cluster_config
  cf_ClusterDNS :: string
  cf_Notify :: "service_config list option"
  cf_Consume :: "service_config list option"
  cf_API :: "service_config option"
  cf_IgnoreInsecureTLS :: bool
  cf_ProxyUrlFilter :: string
  cf_IgnoreProxyOptions :: bool
  cf_PermissionCheckExact :: bool
  cf_ProxyForceJson :: bool
  cf_ProxyDailyLimit :: uint64
  cf_ProxyDailyLimitChecker :: string
  cf_Debug :: bool
  cf_UrlFilter :: string
  cf_UrlFilterMatchGroup :: int
  cf_AllowOrigin :: string
  cf_LogDB :: string
  cf_IsUrlFiltered :: bool
  cf_MaximumConnections :: int
  cf_ReadTimeoutSeconds :: int
  cf_CacheSeconds :: int
  cf_ReadHeaderTimeoutSeconds :: int
  cf_WriteTimeoutSeconds :: int
  cf_IdleTimeoutSeconds :: int
  cf_MaxHeaderBytes :: int
  cf_DefaultRedirect :: string
  cf_IgnoreQueryParamsKey :: string
  cf_AccountHashMixer :: string

definition zero_config :: config where
  "zero_config = \<lparr>cf_SchemaVersion = 0, cf_ApiVersion = 0, cf_ApiVersionString = [], cf_DataDirectoryRoot = [], cf_AuthorizeSubpaths = False, cf_AcmeStaging = False, cf_Tests = None, cf_Swarm = False, cf_SwarmRefreshSeconds = 0, cf_SwarmRole = [], cf_CheckHostnames = False, cf_Cluster = zero_cluster_config, cf_ClusterDNS = [], cf_Notify = None, cf_Consume = None, cf_API = None, cf_IgnoreInsecureTLS = False, cf_ProxyUrlFilter = [], cf_IgnoreProxyOptions = False, cf_PermissionCheckExact = False, cf_ProxyForceJson = False, cf_ProxyDailyLimit = 0, cf_ProxyDailyLimitChecker = [], cf_Debug = False, cf_UrlFilter = [], cf_UrlFilterMatchGroup = 0, cf_AllowOrigin = [], cf_LogDB = [], cf_IsUrlFiltered = False, cf_MaximumConnections = 0, cf_ReadTimeoutSeconds = 0, cf_CacheSeconds = 0, cf_ReadHeaderTimeoutSeconds = 0, cf_WriteTimeoutSeconds = 0, cf_IdleTimeoutSeconds = 0, cf_MaxHeaderBytes = 0, cf_DefaultRedirect = [], cf_IgnoreQueryParamsKey = [], cf_AccountHashMixer = []\<rparr>"

definition dec_config :: "(string \<Rightarrow> json \<Rightarrow> bool) \<Rightarrow> config decoder" where
  "dec_config opaque = dec_fields [
     (''SCHEMAVERSION'', dec_at cf_SchemaVersion cf_SchemaVersion_update dec_int64),
     (''APIVERSION'', dec_at cf_ApiVersion cf_ApiVersion_update dec_int64),
     (''APIVERSIONSTRING'', dec_at cf_ApiVersionString cf_ApiVersionString_update dec_string),
     (''DATADIRECTORYROOT'', dec_at cf_DataDirectoryRoot cf_DataDirectoryRoot_update dec_string),
     (''AUTHORIZESUBPATHS'', dec_at cf_AuthorizeSubpaths cf_AuthorizeSubpaths_update dec_bool),
     (''ACMESTAGING'', dec_at cf_AcmeStaging cf_AcmeStaging_update dec_bool),
     (''TESTS'', dec_at cf_Tests cf_Tests_update (dec_list [] dec_string)),
     (''SWARM'', dec_at cf_Swarm cf_Swarm_update dec_bool),
     (''SWARMREFRESHSECONDS'', dec_at cf_SwarmRefreshSeconds cf_SwarmRefreshSeconds_update dec_int64),
     (''SWARMROLE'', dec_at cf_SwarmRole cf_SwarmRole_update dec_string),
     (''CHECKHOSTNAMES'', dec_at cf_CheckHostnames cf_CheckHostnames_update dec_bool),
     (''CLUSTER'', dec_at cf_Cluster cf_Cluster_update dec_cluster_config),
     (''CLUSTERDNS'', dec_at cf_ClusterDNS cf_ClusterDNS_update dec_string),
     (''NOTIFY'', dec_at cf_Notify cf_Notify_update (dec_list zero_service_config dec_service_config)),
     (''CONSUME'', dec_at cf_Consume cf_Consume_update (dec_list zero_service_config dec_service_config)),
     (''API'', dec_at cf_API cf_API_update (dec_ptr zero_service_config dec_service_config)),
     (''IGNOREINSECURETLS'', dec_at cf_IgnoreInsecureTLS cf_IgnoreInsecureTLS_update dec_bool),
     (''PROXYURLFILTER'', dec_at cf_ProxyUrlFilter cf_ProxyUrlFilter_update dec_string),
     (''IGNOREPROXYOPTIONS'', dec_at cf_IgnoreProxyOptions cf_IgnoreProxyOptions_update dec_bool),
     (''PERMISSIONCHECKEXACT'', dec_at cf_PermissionCheckExact cf_PermissionCheckExact_update dec_bool),
     (''PROXYFORCEJSON'', dec_at cf_ProxyForceJson cf_ProxyForceJson_update dec_bool),
     (''PROXYDAILYLIMIT'', dec_at cf_ProxyDailyLimit cf_ProxyDailyLimit_update dec_uint64),
     (''PROXYDAILYLIMITCHECKER'', dec_at cf_ProxyDailyLimitChecker cf_ProxyDailyLimitChecker_update dec_string),
     (''DEBUG'', dec_at cf_Debug cf_Debug_update dec_bool),
     (''URLFILTER'', dec_at cf_UrlFilter cf_UrlFilter_update dec_string),
     (''URLFILTERMATCHGROUP'', dec_at cf_UrlFilterMatchGroup cf_UrlFilterMatchGroup_update dec_int64),
     (''ALLOWORIGIN'', dec_at cf_AllowOrigin cf_AllowOrigin_update dec_string),
     (''LOGDB'', dec_at cf_LogDB cf_LogDB_update dec_string),
     (''ISURLFILTERED'', dec_at cf_IsUrlFiltered cf_IsUrlFiltered_update dec_bool),
     (''MAXIMUMCONNECTIONS'', dec_at cf_MaximumConnections cf_MaximumConnections_update dec_int64),
     (''READTIMEOUTSECONDS'', dec_at cf_ReadTimeoutSeconds cf_ReadTimeoutSeconds_update dec_int64),
     (''CACHESECONDS'', dec_at cf_CacheSeconds cf_CacheSeconds_update dec_int64),
     (''READHEADERTIMEOUTSECONDS'', dec_at cf_ReadHeaderTimeoutSeconds cf_ReadHeaderTimeoutSeconds_update dec_int64),
     (''WRITETIMEOUTSECONDS'', dec_at cf_WriteTimeoutSeconds cf_WriteTimeoutSeconds_update dec_int64),
     (''IDLETIMEOUTSECONDS'', dec_at cf_IdleTimeoutSeconds cf_IdleTimeoutSeconds_update dec_int64),
     (''MAXHEADERBYTES'', dec_at cf_MaxHeaderBytes cf_MaxHeaderBytes_update dec_int64),
     (''DEFAULTREDIRECT'', dec_at cf_DefaultRedirect cf_DefaultRedirect_update dec_string),
     (''IGNOREQUERYPARAMSKEY'', dec_at cf_IgnoreQueryParamsKey cf_IgnoreQueryParamsKey_update dec_string),
     (''ACCOUNTHASHMIXER'', dec_at cf_AccountHashMixer cf_AccountHashMixer_update dec_string),
     (''TESTMUTEX'', dec_opaque (opaque ''TestMutex'')),
     (''HOSTCACHE'', dec_opaque (opaque ''HostCache'')),
     (''PROXYDAILYLIMITCHECK'', dec_null),
     (''PROXYCACHE'', dec_opaque (opaque ''ProxyCache'')),
     (''PROXIES'', dec_opaque (opaque ''Proxies'')),
     (''PROXYSHAREDBUFFERPOOL'', dec_null)]"

section \<open>Reading the file\<close>

text \<open>\<open>json.NewDecoder(file).Decode\<close>: the first value of the file; what follows it is not looked at.\<close>

definition json_Decode :: "'a decoder \<Rightarrow> bytes \<Rightarrow> 'a \<Rightarrow> 'a \<times> bool" where
  "json_Decode dec data old =
     (let s = bytes_str data in
      case parse_value (2 * length s + 2) s of None \<Rightarrow> (old, False) | Some (v, rest) \<Rightarrow> dec old v)"

text \<open>\<open>open_file\<close> gives the contents of a file that can be read; the error of \<open>os.Open\<close> is noticed by the decoder.\<close>

definition load_config ::
    "(string \<Rightarrow> json \<Rightarrow> bool) \<Rightarrow> string list \<Rightarrow> (string \<Rightarrow> bytes option) \<Rightarrow> config option" where
  "load_config opaque args open_file =
     (let configFile = (if length args > 1 then args ! 1 else ''config.json'') in
      case open_file configFile of
        None \<Rightarrow> None
      | Some data \<Rightarrow>
          (case json_Decode (dec_config opaque) data zero_config of
             (configuration, True) \<Rightarrow> Some configuration
           | (_, False) \<Rightarrow> None))"

section \<open>Values in range\<close>

text \<open>What every field keeps, the structure keeps.\<close>

lemma dec_members_invariant:
  assumes "\<And>k old v. Inv old \<Longrightarrow> Inv (fst (fld k old v))" "Inv old"
  shows "Inv (fst (dec_members fld old kvs))"
  using assms(2)
proof (induction kvs arbitrary: old)
  case (Cons kv kvs)
  obtain k v where "kv = (k, v)" by fastforce
  moreover obtain x ok where x: "fld (fold_name k) old v = (x, ok)" by fastforce
  moreover have "Inv x" using assms(1) [OF Cons.prems, of "fold_name k" v] x by simp
  ultimately show ?case using Cons.IH [of x] by (simp split: prod.split) (metis fst_conv)
qed simp

lemma dec_fields_invariant:
  assumes "Inv old" "\<And>n d old v. (n, d) \<in> set fs \<Longrightarrow> Inv old \<Longrightarrow> Inv (fst (d old v))"
  shows "Inv (fst (dec_fields fs old v))"
proof (cases v)
  case (JObj kvs)
  have "Inv (fst ((case map_of fs k of Some d \<Rightarrow> d | None \<Rightarrow> (\<lambda>old v. (old, True))) old v))"
    if "Inv old" for k old v
    using that assms(2) by (auto split: option.split dest!: map_of_SomeD)
  from dec_members_invariant [of Inv, OF this assms(1)] show ?thesis
    by (simp add: JObj dec_fields_def dec_struct_def)
qed (simp_all add: dec_fields_def dec_struct_def assms(1))

definition in_int64 :: "int \<Rightarrow> bool" where
  "in_int64 i \<longleftrightarrow> - (2 ^ 63) \<le> i \<and> i < 2 ^ 63"

lemma dec_int64_range: "in_int64 old \<Longrightarrow> in_int64 (fst (dec_int64 old v))"
  by (auto simp: dec_int64_def in_int64_def parse_int64_def split: json.split list.splits if_splits)

text \<open>The numbers of a configuration fit into the program's integers.\<close>

definition cluster_ints :: "cluster_config \<Rightarrow> bool" where
  "cluster_ints c \<longleftrightarrow> in_int64 (cc_StartDelaySeconds c)"

definition config_ints :: "config \<Rightarrow> bool" where
  "config_ints c \<longleftrightarrow> list_all in_int64 [cf_SchemaVersion c, cf_ApiVersion c, cf_SwarmRefreshSeconds c, cf_UrlFilterMatchGroup c,
     cf_MaximumConnections c, cf_ReadTimeoutSeconds c, cf_CacheSeconds c, cf_ReadHeaderTimeoutSeconds c, cf_WriteTimeoutSeconds c,
     cf_IdleTimeoutSeconds c, cf_MaxHeaderBytes c] \<and> cluster_ints (cf_Cluster c)"

lemma fst_dec_at: "fst (dec_at get upd dec old v) = upd (\<lambda>_. fst (dec (get old) v)) old"
  by (simp add: dec_at_def dec_field_def split: prod.split)

lemma fst_dec_others [simp]: "fst (dec_null old v) = old" "fst (dec_opaque ok old v) = old"
  by (simp_all add: dec_null_def dec_opaque_def)

lemma dec_cluster_ints: "cluster_ints c \<Longrightarrow> cluster_ints (fst (dec_cluster_config c v))"
  unfolding dec_cluster_config_def
  by (erule dec_fields_invariant) (auto simp: fst_dec_at cluster_ints_def intro: dec_int64_range)

lemma dec_config_ints: "config_ints c \<Longrightarrow> config_ints (fst (dec_config opaque c v))"
  unfolding dec_config_def
  by (erule dec_fields_invariant) (auto simp: fst_dec_at config_ints_def intro: dec_int64_range dec_cluster_ints)

lemma load_config_ints: "load_config opaque args open_file = Some c \<Longrightarrow> config_ints c"
proof -
  assume a: "load_config opaque args open_file = Some c"
  have z: "config_ints zero_config"
    by (simp add: config_ints_def zero_config_def in_int64_def cluster_ints_def zero_cluster_config_def)
  obtain data where "json_Decode (dec_config opaque) data zero_config = (c, True)"
    using a by (auto simp: load_config_def Let_def split: option.splits prod.splits bool.splits)
  then show ?thesis using dec_config_ints [OF z] by (auto simp: json_Decode_def Let_def z split: option.splits) (metis fst_conv)
qed

text \<open>What is marshalled is decoded from a file, whatever follows it there.\<close>

lemma json_Decode_Marshal: "json_ints v \<Longrightarrow> json_Decode dec (json_Marshal v) old = dec old (json_coerce v)"
  using json_parse_print [of v]
  by (auto simp: json_Decode_def json_Marshal_def json_parse_def Let_def split: option.splits if_splits)

end
