(* ===== verification/Api_Routes.thy ===== *)
theory Api_Routes
  imports Api_Replies
begin

text \<open>
  The routes of the API, as \<open>main\<close> (\<open>roo.go\<close>) registers them, and the way of a request through them to
  its handler. The router (gorilla/mux) is not part of the repository: matching a path against a
  template is an argument, and \<open>mux_paths\<close> states what its documentation says of the three kinds of
  templates that occur. Routes are tried in the order of their registration; a path that matches only
  routes of other methods is answered with 405, any other with 404.
\<close>

section \<open>The table\<close>

datatype api_handler =
    Pprof string | Options | Ping | Status | Join | Remove | Rescue | Kvs | GetKv | PutKv
  | PutPerm | PostPerm | DeletePerm | Swarm

record route =
  rt_method :: "string option"
  rt_template :: string
  rt_handler :: api_handler

definition debug_routes :: "route list" where
  "debug_routes = [
     \<lparr>rt_method = None, rt_template = ''/debug/pprof/cmdline'', rt_handler = Pprof ''Cmdline''\<rparr>,
     \<lparr>rt_method = None, rt_template = ''/debug/pprof/profile'', rt_handler = Pprof ''Profile''\<rparr>,
     \<lparr>rt_method = None, rt_template = ''/debug/pprof/symbol'', rt_handler = Pprof ''Symbol''\<rparr>,
     \<lparr>rt_method = None, rt_template = ''/debug/pprof/trace'', rt_handler = Pprof ''Trace''\<rparr>,
     \<lparr>rt_method = None, rt_template = ''/debug/pprof/{page:.*}'', rt_handler = Pprof ''Index''\<rparr>]"

definition api_routes :: "bool \<Rightarrow> string \<Rightarrow> route list" where
  "api_routes debug ver = (if debug then debug_routes else []) @ [
     \<lparr>rt_method = Some ''OPTIONS'', rt_template = ''/roo/'' @ ver, rt_handler = Options\<rparr>,
     \<lparr>rt_method = Some ''GET'', rt_template = ''/roo/ping'', rt_handler = Ping\<rparr>,
     \<lparr>rt_method = Some ''GET'', rt_template = ''/roo/'' @ ver @ ''/status'', rt_handler = Status\<rparr>,
     \<lparr>rt_method = Some ''POST'', rt_template = ''/roo/'' @ ver @ ''/join'', rt_handler = Join\<rparr>,
     \<lparr>rt_method = Some ''POST'', rt_template = ''/roo/'' @ ver @ ''/remove'', rt_handler = Remove\<rparr>,
     \<lparr>rt_method = Some ''POST'', rt_template = ''/roo/'' @ ver @ ''/rescue'', rt_handler = Rescue\<rparr>,
     \<lparr>rt_method = Some ''GET'', rt_template = ''/roo/'' @ ver @ ''/kvs{key:.*}'', rt_handler = Kvs\<rparr>,
     \<lparr>rt_method = Some ''GET'', rt_template = ''/roo/'' @ ver @ ''/kv/{key}'', rt_handler = GetKv\<rparr>,
     \<lparr>rt_method = Some ''PUT'', rt_template = ''/roo/'' @ ver @ ''/kv/{key}'', rt_handler = PutKv\<rparr>,
     \<lparr>rt_method = Some ''PUT'', rt_template = ''/roo/'' @ ver @ ''/perm'', rt_handler = PutPerm\<rparr>,
     \<lparr>rt_method = Some ''POST'', rt_template = ''/roo/'' @ ver @ ''/perm'', rt_handler = PostPerm\<rparr>,
     \<lparr>rt_method = Some ''DELETE'', rt_template = ''/roo/'' @ ver @ ''/perm/{user}'', rt_handler = DeletePerm\<rparr>,
     \<lparr>rt_method = Some ''POST'', rt_template = ''/roo/'' @ ver @ ''/swarm'', rt_handler = Swarm\<rparr>]"

section \<open>Dispatching\<close>

type_synonym path_match = "string \<Rightarrow> string \<Rightarrow> (string \<rightharpoonup> string) option"

datatype dispatched = Found api_handler "string \<rightharpoonup> string" | NotFound | MethodNotAllowed

fun dispatch :: "path_match \<Rightarrow> string \<Rightarrow> string \<Rightarrow> bool \<Rightarrow> route list \<Rightarrow> dispatched" where
  "dispatch match meth path mismatch [] = (if mismatch then MethodNotAllowed else NotFound)"
| "dispatch match meth path mismatch (rt # rts) = (case match (rt_template rt) path of
     None \<Rightarrow> dispatch match meth path mismatch rts
   | Some vars \<Rightarrow>
       if rt_method rt = None \<or> rt_method rt = Some meth then Found (rt_handler rt) vars
       else dispatch match meth path True rts)"

text \<open>Calling the handler of a route; \<open>pprof\<close> stands for the handlers of the standard library.\<close>

definition handle ::
    "('nh, 'a) cluster_host_scheme \<Rightarrow> Configuration \<Rightarrow> Cluster \<Rightarrow> serve_env \<Rightarrow> bool \<Rightarrow> (string \<Rightarrow> response \<Rightarrow> response)
      \<Rightarrow> api_handler \<Rightarrow> (string \<rightharpoonup> string) \<Rightarrow> nat \<Rightarrow> 'nh \<Rightarrow> response \<Rightarrow> http_request \<Rightarrow> 'nh handled" where
  "handle H cfg cl env session pprof h vars connc nh w r = (case h of
     Pprof page \<Rightarrow> (Ok (), connc, pprof page w, [], nh)
   | Options \<Rightarrow> (Ok (), connc, api_options cfg w, [], nh)
   | Ping \<Rightarrow> (Ok (), connc, api_ping cfg w, [], nh)
   | Status \<Rightarrow> (Ok (), connc, api_status cfg cl connc w r, [], nh)
   | Join \<Rightarrow> api_join H cfg env session vars connc nh w r
   | Remove \<Rightarrow> api_remove H cfg env session vars connc nh w r
   | Rescue \<Rightarrow> api_rescue H cfg env session vars connc nh w r
   | Kvs \<Rightarrow> api_kvs H cfg env session vars connc nh w r
   | GetKv \<Rightarrow> api_get_kv H cfg env session vars connc nh w r
   | PutKv \<Rightarrow> api_put_kv H cfg env session vars connc nh w r
   | PutPerm \<Rightarrow> api_put_perm H cfg env session connc nh w r
   | PostPerm \<Rightarrow> api_post_perm H cfg env session connc nh w r
   | DeletePerm \<Rightarrow> api_delete_perm H cfg env session vars connc nh w r
   | Swarm \<Rightarrow> api_swarm H cfg env session connc nh w r)"

definition api_request ::
    "path_match \<Rightarrow> ('nh, 'a) cluster_host_scheme \<Rightarrow> Configuration \<Rightarrow> Cluster \<Rightarrow> serve_env \<Rightarrow> bool \<Rightarrow> bool
      \<Rightarrow> (string \<Rightarrow> response \<Rightarrow> response) \<Rightarrow> string \<Rightarrow> nat \<Rightarrow> 'nh \<Rightarrow> response \<Rightarrow> http_request \<Rightarrow> 'nh handled" where
  "api_request match H cfg cl env session debug pprof path connc nh w r =
     (case dispatch match (rq_Method r) path False (api_routes debug (ApiVersionString cfg)) of
        Found h vars \<Rightarrow> handle H cfg cl env session pprof h vars connc nh w r
      | NotFound \<Rightarrow> (Ok (), connc, http_Error ''404 page not found'' 404 w, [], nh)
      | MethodNotAllowed \<Rightarrow> (Ok (), connc, WriteHeader 405 w, [], nh))"

section \<open>The matching of paths\<close>

definition plain :: "string \<Rightarrow> bool" where
  "plain s \<longleftrightarrow> set s \<inter> {CHR ''{'', CHR ''}'', CHR '':''} = {}"

definition one_segment :: "string \<Rightarrow> bool" where
  "one_segment s \<longleftrightarrow> s \<noteq> [] \<and> CHR ''/'' \<notin> set s"

definition one_line :: "string \<Rightarrow> bool" where
  "one_line s \<longleftrightarrow> CHR 0x0A \<notin> set s"

text \<open>A literal path, a last segment \<open>{v}\<close>, and the rest of the path \<open>{v:.*}\<close>.\<close>

locale mux_paths =
  fixes match :: path_match
  assumes match_literal: "plain t \<Longrightarrow> match t p = (if p = t then Some Map.empty else None)"
    and match_segment: "plain pre \<Longrightarrow> plain v \<Longrightarrow> match (pre @ CHR ''{'' # v @ ''}'') p =
      (case strip_prefix pre p of Some s \<Rightarrow> if one_segment s then Some [v \<mapsto> s] else None | None \<Rightarrow> None)"
    and match_rest: "plain pre \<Longrightarrow> plain v \<Longrightarrow> match (pre @ CHR ''{'' # v @ '':.*}'') p =
      (case strip_prefix pre p of Some s \<Rightarrow> if one_line s then Some [v \<mapsto> s] else None | None \<Rightarrow> None)"
begin

lemma match_page:
  "match ''/debug/pprof/{page:.*}'' p = (case strip_prefix ''/debug/pprof/'' p of
    Some s \<Rightarrow> if one_line s then Some [''page'' \<mapsto> s] else None | None \<Rightarrow> None)"
  using match_rest [of "''/debug/pprof/''" "''page''" p] by (simp add: plain_def)

end

text \<open>Templates with at most one variable, at the end.\<close>

definition mux_match :: path_match where
  "mux_match t p =
     (let pre = takeWhile (\<lambda>c. c \<noteq> CHR ''{'') t; var = drop (length pre + 1) t; name = takeWhile (\<lambda>c. c \<notin> {CHR '':'', CHR ''}''}) var in
      if pre = t then (if p = t then Some Map.empty else None)
      else (case strip_prefix pre p of
          None \<Rightarrow> None
        | Some s \<Rightarrow>
            if drop (length name) var = ''}'' then (if one_segment s then Some [name \<mapsto> s] else None)
            else (if one_line s then Some [name \<mapsto> s] else None)))"

lemma takeWhile_plain:
  "plain s \<Longrightarrow> takeWhile (\<lambda>c. c \<noteq> CHR ''{'') (s @ ''{'' @ r) = s"
  "plain s \<Longrightarrow> takeWhile (\<lambda>c. c \<noteq> CHR ''{'') s = s"
  "plain s \<Longrightarrow> c \<in> {CHR '':'', CHR ''}''} \<Longrightarrow> takeWhile (\<lambda>c. c \<notin> {CHR '':'', CHR ''}''}) (s @ c # r) = s"
  by (induction s) (auto simp: plain_def)

interpretation mux: mux_paths mux_match
proof
  fix t p assume t: "plain t"
  then show "mux_match t p = (if p = t then Some Map.empty else None)" by (simp add: mux_match_def takeWhile_plain(2))
next
  fix pre v p assume p: "plain pre" and v: "plain v"
  show "mux_match (pre @ CHR ''{'' # v @ ''}'') p =
      (case strip_prefix pre p of Some s \<Rightarrow> if one_segment s then Some [v \<mapsto> s] else None | None \<Rightarrow> None)"
    using takeWhile_plain(1) [OF p, of "v @ ''}''"] takeWhile_plain(3) [OF v, of "CHR ''}''" "[]"]
    by (simp add: mux_match_def Let_def split: option.split)
  show "mux_match (pre @ CHR ''{'' # v @ '':.*}'') p =
      (case strip_prefix pre p of Some s \<Rightarrow> if one_line s then Some [v \<mapsto> s] else None | None \<Rightarrow> None)"
    using takeWhile_plain(1) [OF p, of "v @ '':.*}''"] takeWhile_plain(3) [OF v, of "CHR '':''" "''.*}''"]
    by (simp add: mux_match_def Let_def split: option.split)
qed

section \<open>Which request reaches which handler\<close>

text \<open>The table read as a specification, for a path below the version; \<open>by_method\<close> lists the methods of a path.\<close>

fun by_method :: "string \<Rightarrow> (string \<rightharpoonup> string) \<Rightarrow> (string \<times> api_handler) list \<Rightarrow> dispatched" where
  "by_method m vars [] = MethodNotAllowed"
| "by_method m vars ((m', h) # hs) = (if m = m' then Found h vars else by_method m vars hs)"

definition api_literals :: "(string \<times> (string \<times> api_handler) list) list" where
  "api_literals = [([], [(''OPTIONS'', Options)]), (''/status'', [(''GET'', Status)]), (''/join'', [(''POST'', Join)]),
     (''/remove'', [(''POST'', Remove)]), (''/rescue'', [(''POST'', Rescue)]),
     (''/perm'', [(''PUT'', PutPerm), (''POST'', PostPerm)]), (''/swarm'', [(''POST'', Swarm)])]"

definition api_spec :: "string \<Rightarrow> string \<Rightarrow> dispatched" where
  "api_spec m s = (case map_of api_literals s of
     Some hs \<Rightarrow> by_method m Map.empty hs
   | None \<Rightarrow>
       (case (strip_prefix ''/kvs'' s, strip_prefix ''/kv/'' s, strip_prefix ''/perm/'' s) of
          (Some k, _, _) \<Rightarrow> if one_line k then by_method m [''key'' \<mapsto> k] [(''GET'', Kvs)] else NotFound
        | (_, Some k, _) \<Rightarrow> if one_segment k then by_method m [''key'' \<mapsto> k] [(''GET'', GetKv), (''PUT'', PutKv)] else NotFound
        | (_, _, Some u) \<Rightarrow> if one_segment u then by_method m [''user'' \<mapsto> u] [(''DELETE'', DeletePerm)] else NotFound
        | _ \<Rightarrow> NotFound))"

lemma strip_prefix_append [simp]: "strip_prefix (a @ b) (a @ c) = strip_prefix b c"
  by (simp add: strip_prefix_def)

lemma strip_prefix_Cons [simp]:
  "strip_prefix (c # p) (d # s) = (if c = d then strip_prefix p s else None)" "strip_prefix [] s = Some s" "strip_prefix (c # p) [] = None"
  by (simp_all add: strip_prefix_def)

lemma strip_prefix_Some: "strip_prefix p s = Some r \<longleftrightarrow> s = p @ r"
  by (auto simp: strip_prefix_def) (metis append_take_drop_id)

text \<open>At most one of the prefixes applies.\<close>

lemma api_prefixes:
  obtains (kvs) k where "strip_prefix ''/kvs'' s = Some k" "strip_prefix ''/kv/'' s = None" "strip_prefix ''/perm/'' s = None"
    | (kv) k where "strip_prefix ''/kvs'' s = None" "strip_prefix ''/kv/'' s = Some k" "strip_prefix ''/perm/'' s = None"
    | (perm) u where "strip_prefix ''/kvs'' s = None" "strip_prefix ''/kv/'' s = None" "strip_prefix ''/perm/'' s = Some u"
    | (none) "strip_prefix ''/kvs'' s = None" "strip_prefix ''/kv/'' s = None" "strip_prefix ''/perm/'' s = None"
proof (cases "strip_prefix ''/kvs'' s")
  case (Some k)
  then show thesis using kvs by (simp add: strip_prefix_Some)
next
  case 1: None
  show thesis
  proof (cases "strip_prefix ''/kv/'' s")
    case (Some k)
    then show thesis using kv 1 by (simp add: strip_prefix_Some)
  qed (use 1 perm none in \<open>cases "strip_prefix ''/perm/'' s", auto\<close>)
qed

context mux_paths
begin

lemma debug_routes_skipped:
  assumes "strip_prefix ''/debug/pprof/'' p = None"
  shows "dispatch match m p b (debug_routes @ rts) = dispatch match m p b rts"
proof -
  have "strip_prefix ''/debug/pprof/'' ''/debug/pprof/cmdline'' \<noteq> None" "strip_prefix ''/debug/pprof/'' ''/debug/pprof/profile'' \<noteq> None"
    "strip_prefix ''/debug/pprof/'' ''/debug/pprof/symbol'' \<noteq> None" "strip_prefix ''/debug/pprof/'' ''/debug/pprof/trace'' \<noteq> None"
    by simp_all
  with assms have "p \<noteq> ''/debug/pprof/cmdline''" "p \<noteq> ''/debug/pprof/profile''" "p \<noteq> ''/debug/pprof/symbol''" "p \<noteq> ''/debug/pprof/trace''"
    by metis+
  then show ?thesis using assms by (simp add: debug_routes_def match_literal match_page plain_def)
qed

text \<open>The templates below the version, whose characters do not matter any more.\<close>

lemma match_below:
  assumes "plain ver" "base = ''/roo/'' @ ver"
  shows "plain t \<Longrightarrow> match (base @ t) (base @ s) = (if s = t then Some Map.empty else None)"
    "match base (base @ s) = (if s = [] then Some Map.empty else None)"
    "match (base @ ''/kvs{key:.*}'') (base @ s) = (case strip_prefix ''/kvs'' s of
       Some k \<Rightarrow> if one_line k then Some [''key'' \<mapsto> k] else None | None \<Rightarrow> None)"
    "match (base @ ''/kv/{key}'') (base @ s) = (case strip_prefix ''/kv/'' s of
       Some k \<Rightarrow> if one_segment k then Some [''key'' \<mapsto> k] else None | None \<Rightarrow> None)"
    "match (base @ ''/perm/{user}'') (base @ s) = (case strip_prefix ''/perm/'' s of
       Some u \<Rightarrow> if one_segment u then Some [''user'' \<mapsto> u] else None | None \<Rightarrow> None)"
proof -
  have b: "plain base" using assms by (simp add: plain_def)
  have app: "plain t \<Longrightarrow> plain (base @ t)" for t using b by (auto simp: plain_def)
  show "plain t \<Longrightarrow> match (base @ t) (base @ s) = (if s = t then Some Map.empty else None)"
    by (simp add: match_literal app)
  show "match base (base @ s) = (if s = [] then Some Map.empty else None)" by (simp add: match_literal b)
  have v: "plain ''key''" "plain ''user''" "plain ''/kvs''" "plain ''/kv/''" "plain ''/perm/''" by (simp_all add: plain_def)
  show "match (base @ ''/kvs{key:.*}'') (base @ s) = (case strip_prefix ''/kvs'' s of
       Some k \<Rightarrow> if one_line k then Some [''key'' \<mapsto> k] else None | None \<Rightarrow> None)"
    using match_rest [OF app [OF v(3)] v(1), of "base @ s"] by simp
  show "match (base @ ''/kv/{key}'') (base @ s) = (case strip_prefix ''/kv/'' s of
       Some k \<Rightarrow> if one_segment k then Some [''key'' \<mapsto> k] else None | None \<Rightarrow> None)"
    using match_segment [OF app [OF v(4)] v(1), of "base @ s"] by simp
  show "match (base @ ''/perm/{user}'') (base @ s) = (case strip_prefix ''/perm/'' s of
       Some u \<Rightarrow> if one_segment u then Some [''user'' \<mapsto> u] else None | None \<Rightarrow> None)"
    using match_segment [OF app [OF v(5)] v(2), of "base @ s"] by simp
qed

lemma dispatch_spec:
  assumes "plain x" "ver = CHR ''v'' # x"
  shows "dispatch match m (''/roo/'' @ ver @ s) False (api_routes debug ver) = api_spec m s"
proof -
  define base where "base = ''/roo/'' @ ver"
  have ver: "plain ver" using assms by (simp add: plain_def)
  have routes: "api_routes debug ver = (if debug then debug_routes else []) @
    map (\<lambda>(m, t, h). \<lparr>rt_method = Some m, rt_template = t, rt_handler = h\<rparr>)
      [(''OPTIONS'', base, Options), (''GET'', ''/roo/ping'', Ping), (''GET'', base @ ''/status'', Status), (''POST'', base @ ''/join'', Join),
       (''POST'', base @ ''/remove'', Remove), (''POST'', base @ ''/rescue'', Rescue), (''GET'', base @ ''/kvs{key:.*}'', Kvs),
       (''GET'', base @ ''/kv/{key}'', GetKv), (''PUT'', base @ ''/kv/{key}'', PutKv), (''PUT'', base @ ''/perm'', PutPerm),
       (''POST'', base @ ''/perm'', PostPerm), (''DELETE'', base @ ''/perm/{user}'', DeletePerm), (''POST'', base @ ''/swarm'', Swarm)]"
    by (simp add: api_routes_def base_def)
  have skip: "dispatch match m' (base @ t) False (debug_routes @ rts) = dispatch match m' (base @ t) False rts" for m' rts t
    by (rule debug_routes_skipped) (simp add: base_def)
  have ping: "match ''/roo/ping'' (base @ t) = None" for t
    by (subst match_literal) (simp_all add: plain_def base_def assms(2))
  have lits: "plain ''/status''" "plain ''/join''" "plain ''/remove''" "plain ''/rescue''" "plain ''/perm''" "plain ''/swarm''"
    by (simp_all add: plain_def)
  note at_base = match_below [OF ver base_def, where s = "[]", unfolded append_Nil2] ping [of "[]", unfolded append_Nil2]
    skip [where t = "[]", unfolded append_Nil2]
  note matches = match_below [OF ver base_def] ping lits skip at_base
  have "dispatch match m (base @ s) False (api_routes debug ver) = api_spec m s"
  proof (cases "map_of api_literals s")
    case (Some hs)
    then have "s \<in> {[], ''/status'', ''/join'', ''/remove'', ''/rescue'', ''/perm'', ''/swarm''}"
      by (auto simp: api_literals_def split: if_splits)
    then show ?thesis
      unfolding routes by (elim insertE emptyE) (simp_all add: matches api_spec_def api_literals_def)
  next
    case None
    then have ne: "s \<noteq> []" "s \<noteq> ''/status''" "s \<noteq> ''/join''" "s \<noteq> ''/remove''" "s \<noteq> ''/rescue''" "s \<noteq> ''/perm''" "s \<noteq> ''/swarm''"
      by (auto simp: api_literals_def split: if_splits)
    consider (kvs) k where "strip_prefix ''/kvs'' s = Some k" "strip_prefix ''/kv/'' s = None" "strip_prefix ''/perm/'' s = None"
      | (kv) k where "strip_prefix ''/kvs'' s = None" "strip_prefix ''/kv/'' s = Some k" "strip_prefix ''/perm/'' s = None"
      | (perm) u where "strip_prefix ''/kvs'' s = None" "strip_prefix ''/kv/'' s = None" "strip_prefix ''/perm/'' s = Some u"
      | (none) "strip_prefix ''/kvs'' s = None" "strip_prefix ''/kv/'' s = None" "strip_prefix ''/perm/'' s = None"
      by (rule api_prefixes)
    then show ?thesis
      by cases (simp_all add: None ne matches routes api_spec_def)
  qed
  then show ?thesis by (simp add: base_def)
qed

end

lemma plain_show_int: "plain (show_int i)"
proof -
  have "plain (show_nat n)" for n using show_nat_digits [of n] by (auto simp: plain_def list_all_iff is_digit_def)
  then show ?thesis by (simp add: show_int_def plain_def)
qed



section \<open>A value put over the API\<close>

text \<open>A reply that is neither 503 nor 400 is that of the service, and the slot is free again.\<close>

lemma slot_served:
  assumes "with_slot H cfg env True args connc nh new_response r = (Ok (), connc', w, acts, nh')" "status w \<noteq> Some 503" "status w \<noteq> Some 400"
  shows "connc' = connc \<and> serve H (app_config cfg) env nh (SetHeader ''access-control-allow-origin'' (AllowOrigin cfg) new_response) r args = (Ok (), w, acts, nh')"
proof -
  let ?h = "SetHeader ''access-control-allow-origin'' (AllowOrigin cfg) new_response"
  obtain out w1 acts1 nh1 where s: "serve H (app_config cfg) env nh ?h r args = (out, w1, acts1, nh1)" by (rule prod_cases4)
  have "connc > 0" using assms by (auto simp: with_slot_def split: if_splits)
  moreover have "out \<noteq> Err e" for e
  proof
    assume "out = Err e"
    with s have "w1 = ?h" by (auto dest: serve_Err)
    with assms(1,3) s \<open>out = Err e\<close> \<open>connc > 0\<close> show False by (auto simp: with_slot_def serveWithArgs_def)
  qed
  ultimately show ?thesis using assms(1) s by (cases out) (auto simp: with_slot_def serveWithArgs_def)
qed



end
