(* ===== verification/Load_Tests.thy ===== *)
theory Load_Tests
  imports Serve_Effects Disk_Lifecycle
begin

text \<open>
  The load tests that a node runs when its configuration names them (\<open>tests.go\<close>). They work on the
  live store, so what matters is what they leave behind. Each test is defined for any number of
  rounds; the program's own constants are \<open>TEST_KEYS\<close> and \<open>TEST_PERMISSIONS\<close>. Random numbers and the
  clock are arguments, indexed by the round. The results of reads, which the program drops, are part
  of the result here. The mutex makes the tests of one node exclusive; each is one function.
\<close>

definition TEST_KEYS :: nat where
  "TEST_KEYS = 1000000"

definition TEST_PERMISSIONS :: nat where
  "TEST_PERMISSIONS = 999999"

section \<open>The test of the store\<close>

definition test_key :: "nat \<Rightarrow> string" where
  "test_key i = ''_test'' @ show_nat i"

definition test_value :: bytes where
  "test_value = str_bytes ''_test''"

text \<open>
  Writing to a database of its own. \<open>Set\<close> is a batch of one operation, and its error is dropped.
\<close>

fun internal_writes :: "('db, 'a) pebble_scheme \<Rightarrow> 'db \<Rightarrow> nat list \<Rightarrow> 'db" where
  "internal_writes P c [] = c"
| "internal_writes P c (i # is) =
     internal_writes P (case pb_apply P c [BSet (str_bytes (test_key i)) test_value] of Inl e \<Rightarrow> c | Inr c' \<Rightarrow> c') is"

definition testKV_internal ::
    "('db, 'a) pebble_scheme \<Rightarrow> faults \<Rightarrow> (nat \<Rightarrow> nat) \<Rightarrow> nat \<Rightarrow> 'db fs \<Rightarrow> (error + bytes) list outcome \<times> 'db fs" where
  "testKV_internal P F rnd n fs = (case createDB P F fs (testDBDirName @ ''/_testing'') of
     (Ok h, fs1) \<Rightarrow> (case db_content fs1 h of
         None \<Rightarrow> (Panic ''pebble: closed'', fs1)
       | Some c \<Rightarrow>
           (let c' = internal_writes P c [0..<n] in
            (Ok (map (\<lambda>i. pb_get P c' (str_bytes (test_key (rnd i)))) [0..<n]), fs_put (pd_dir h) (FDB c') fs1)))
   | (_, fs1) \<Rightarrow> (Panic ''nil pointer dereference'', fs1))"

text \<open>The batches sent to the replicated store, first with values and at the end without.\<close>

definition test_batch :: "slice \<Rightarrow> nat \<Rightarrow> bytes" where
  "test_batch v n = json_Marshal (KVBatch_json
     \<lparr>kb_Action = [], kb_Batch = Some (map Some (map (\<lambda>i. \<lparr>Key = test_key i, Val = v\<rparr>) [0..<n]))\<rparr>)"

definition testKV_external ::
    "('nh, 'a) nodehost_scheme \<Rightarrow> (nat \<Rightarrow> nat) \<Rightarrow> nat \<Rightarrow> 'nh \<Rightarrow> (error + lookup_result) list \<times> 'nh" where
  "testKV_external H rnd n nh =
     (let nh1 = snd (nh_SyncPropose H nh (test_batch (Some test_value) n));
          reads = map (\<lambda>i. nh_SyncRead H nh1 (QString (test_key (rnd i)))) [0..<n];
          nh2 = snd (nh_SyncPropose H nh1 (test_batch None n))
      in (reads, nh2))"

definition testKV ::
    "('db, 'a) pebble_scheme \<Rightarrow> ('nh, 'b) nodehost_scheme \<Rightarrow> faults \<Rightarrow> (nat \<Rightarrow> nat) \<Rightarrow> (nat \<Rightarrow> nat) \<Rightarrow> 'db fs \<Rightarrow> 'nh
      \<Rightarrow> ((error + bytes) list \<times> (error + lookup_result) list) outcome \<times> 'db fs \<times> 'nh" where
  "testKV P H F rnd1 rnd2 fs nh = (case testKV_internal P F rnd1 TEST_KEYS fs of
     (Ok internal, fs') \<Rightarrow>
       (case testKV_external H rnd2 TEST_KEYS nh of (external, nh') \<Rightarrow> (Ok (internal, external), fs', nh'))
   | (Err e, fs') \<Rightarrow> (Err e, fs', nh)
   | (Panic p, fs') \<Rightarrow> (Panic p, fs', nh))"

section \<open>The test of permissions\<close>

definition test_permission :: Permission where
  "test_permission = \<lparr>p_Entity = \<lparr>ts_Val = ''dioptre'', ts_Rune = 117\<rparr>,
     p_Context = \<lparr>ts_Val = ''/folder'', ts_Rune = 102\<rparr>, p_Action = zero_TypedString,
     p_Right = Some [4], p_Delete = False\<rparr>"

definition test_request :: Request where
  "test_request = \<lparr>r_User = \<lparr>ts_Val = ''dioptre'', ts_Rune = 117\<rparr>,
     r_Entities = [\<lparr>ts_Val = ''admins'', ts_Rune = 103\<rparr>, \<lparr>ts_Val = ''marketing'', ts_Rune = 103\<rparr>],
     r_Resource = \<lparr>ts_Val = ''/folder1/folder2/wb1'', ts_Rune = 102\<rparr>, r_Action = zero_TypedString,
     r_Right = Some [4]\<rparr>"

definition test_cleanup :: "nat \<Rightarrow> Permission" where
  "test_cleanup i = \<lparr>p_Entity = \<lparr>ts_Val = ''dioptre'' @ show_nat i, ts_Rune = 117\<rparr>,
     p_Context = \<lparr>ts_Val = ''/folder'' @ show_nat i, ts_Rune = 102\<rparr>, p_Action = zero_TypedString,
     p_Right = None, p_Delete = True\<rparr>"

fun test_authorize ::
    "('nh, 'a) nodehost_scheme \<Rightarrow> AppConfig \<Rightarrow> (nat \<Rightarrow> int) \<Rightarrow> (nat \<Rightarrow> string) \<Rightarrow> nat list \<Rightarrow> 'nh \<Rightarrow> bool list \<times> 'nh" where
  "test_authorize H cfg now rnd [] nh = ([], nh)"
| "test_authorize H cfg now rnd (i # is) nh = (case authorize H cfg (now i) (rnd i) nh test_request of
     (b, nh1) \<Rightarrow> (case test_authorize H cfg now rnd is nh1 of (bs, nh2) \<Rightarrow> (b # bs, nh2)))"

text \<open>The errors of the two writes, which are only logged, and the answers in between.\<close>

definition testPermissions_n ::
    "('nh, 'a) nodehost_scheme \<Rightarrow> AppConfig \<Rightarrow> (nat \<Rightarrow> int) \<Rightarrow> (nat \<Rightarrow> string) \<Rightarrow> nat \<Rightarrow> 'nh
      \<Rightarrow> (error option \<times> bool list \<times> error option) \<times> 'nh" where
  "testPermissions_n H cfg now rnd n nh =
     (case permiss H nh (map (\<lambda>i. test_permission) [0..<n]) of (e1, nh1) \<Rightarrow>
      (case test_authorize H cfg now rnd [0..<n] nh1 of (bs, nh2) \<Rightarrow>
       (case permiss H nh2 (map test_cleanup [0..<n]) of (e2, nh3) \<Rightarrow> ((e1, bs, e2), nh3))))"

definition testPermissions ::
    "('nh, 'a) nodehost_scheme \<Rightarrow> AppConfig \<Rightarrow> (nat \<Rightarrow> int) \<Rightarrow> (nat \<Rightarrow> string) \<Rightarrow> 'nh
      \<Rightarrow> (error option \<times> bool list \<times> error option) \<times> 'nh" where
  "testPermissions H cfg now rnd nh = testPermissions_n H cfg now rnd TEST_PERMISSIONS nh"

section \<open>Effects of the batches\<close>

lemma is_ascii_show_nat [simp]: "is_ascii (show_nat n)"
  using show_nat_digits [of n] by (auto simp: is_ascii_def list_all_iff is_digit_def)

lemma utf8_test_key [simp]: "utf8_ok (test_key i)"
  using is_ascii_show_nat [of i] by (intro utf8_ok_ascii) (simp add: test_key_def is_ascii_def)

lemma test_key_inj [simp]: "test_key i = test_key j \<longleftrightarrow> i = j"
  by (simp add: test_key_def)

lemma test_key_not_index [simp]: "test_key i \<noteq> appliedIndexKey"
  by (simp add: test_key_def appliedIndexKey_def)

text \<open>A batch whose records all have the same value.\<close>

lemma fold_kv_effect_same:
  assumes "\<forall>kv\<in>set kvs. Val kv = v"
  shows "fold kv_effect kvs m k = (if k \<in> (str_bytes \<circ> Key) ` set kvs then v else m k)"
  using assms by (induction kvs arbitrary: m) (auto simp: kv_effect_def)

lemma cmd_effect_test_batch:
  "cmd_effect (test_batch v n) m (str_bytes k) = (if \<exists>i<n. k = test_key i then v else m (str_bytes k))"
proof -
  let ?kvs = "map (\<lambda>i. \<lparr>Key = test_key i, Val = v\<rparr>) [0..<n]"
  have "map coerce_KVData ?kvs = ?kvs" by (intro coerce_KVDatas_ok) (simp add: list_all_iff)
  then have "cmd_effect (test_batch v n) m = fold kv_effect ?kvs m"
    unfolding test_batch_def cmd_effect_batch by (rule arg_cong)
  moreover have "str_bytes k \<in> (str_bytes \<circ> Key) ` set ?kvs \<longleftrightarrow> (\<exists>i<n. k = test_key i)"
    by (auto simp: image_image)
  ultimately show ?thesis using fold_kv_effect_same [of ?kvs v m "str_bytes k"] by simp
qed

lemma entry_ops_test_batch: "\<exists>ops. entry_ops (test_batch v n) = Ok (Some ops)"
  unfolding test_batch_def entry_ops_batch by blast

section \<open>The store after the test\<close>

lemma contents_internal_writes:
  assumes "pebble_db P" "engine_ok P"
  shows "contents P (internal_writes P c is) (str_bytes k) =
    (if \<exists>i\<in>set is. k = test_key i then Some test_value else contents P c (str_bytes k))"
proof (induction "is" arbitrary: c)
  case (Cons i "is")
  obtain c' where c': "pb_apply P c [BSet (str_bytes (test_key i)) test_value] = Inr c'"
    using assms(2) unfolding engine_ok_def by blast
  have "contents P c' = (contents P c)(str_bytes (test_key i) \<mapsto> test_value)"
    using pebble_db.apply_contents [OF assms(1) c'] by simp
  with Cons.IH [of c'] c' show ?case by auto
qed simp

lemma createDB_content:
  assumes "createDB P F fs p = (Ok h, fs1)"
  obtains c where "db_content fs1 h = Some c" "pd_dir h = p"
proof -
  obtain c fs2 where "h = \<lparr>pd_dir = p, pd_closed = False\<rparr>" "fs1 = fs_put p (FDB c) fs2"
    using assms unfolding createDB_def Let_def by (auto split: option.splits sum.splits)
  with that show thesis by (simp add: db_content_def)
qed

lemma testKV_internal_Ok:
  assumes "pebble_db P" "engine_ok P" "createDB P F fs (testDBDirName @ ''/_testing'') = (Ok h, fs1)" "\<forall>i. rnd i < n"
  shows "\<exists>c. testKV_internal P F rnd n fs = (Ok (map (\<lambda>i. Inr test_value) [0..<n]), fs_put (pd_dir h) (FDB c) fs1)
    \<and> (\<forall>i<n. contents P c (str_bytes (test_key i)) = Some test_value)"
proof -
  obtain c0 where c0: "db_content fs1 h = Some c0" using createDB_content [OF assms(3)] .
  let ?c = "internal_writes P c0 [0..<n]"
  have v: "contents P ?c (str_bytes (test_key i)) = Some test_value" if "i < n" for i
    using that contents_internal_writes [OF assms(1,2)] by auto
  then have "pb_get P ?c (str_bytes (test_key (rnd i))) = Inr test_value" for i
    using assms(4) pebble_db.get_contents [OF assms(1)] by simp
  with v c0 assms(3) show ?thesis by (auto simp: testKV_internal_def Let_def)
qed

context raft_kv
begin

text \<open>A proposal that the host accepts has its effect, and uses up one of the accepted ones.\<close>

lemma accepts_propose:
  assumes "accepts H (Suc n) nh" "entry_ops cmd = Ok (Some ops)"
  shows "\<exists>v nh'. nh_SyncPropose H nh cmd = (Inr v, nh') \<and> accepts H n nh'
    \<and> (\<forall>k. k \<noteq> appliedIndexKey \<longrightarrow> sm nh' (str_bytes k) = cmd_effect cmd (sm nh) (str_bytes k))"
proof -
  obtain v nh' where p: "nh_SyncPropose H nh cmd = (Inr v, nh')" "accepts H n nh'" using assms by auto
  from propose_done [OF p(1)] show ?thesis using p by (auto simp: applied_def with_index_other)
qed

lemma testKV_external_effect:
  assumes "accepts H 2 nh" "\<forall>i. rnd i < n"
  shows "\<exists>reads nh'. testKV_external H rnd n nh = (reads, nh') \<and> set reads \<subseteq> range Inl \<union> {Inr (RBytes (Some test_value))}
    \<and> (\<forall>k. k \<noteq> appliedIndexKey \<longrightarrow> sm nh' (str_bytes k) = (if \<exists>i<n. k = test_key i then None else sm nh (str_bytes k)))"
proof -
  from entry_ops_test_batch obtain o1 o2 where
    o: "entry_ops (test_batch (Some test_value) n) = Ok (Some o1)" "entry_ops (test_batch None n) = Ok (Some o2)"
    by meson
  have a: "accepts H (Suc (Suc 0)) nh" using assms(1) by (simp only: numeral_2_eq_2)
  obtain v1 nh1 where 1: "nh_SyncPropose H nh (test_batch (Some test_value) n) = (Inr v1, nh1)" "accepts H (Suc 0) nh1"
    "\<forall>k. k \<noteq> appliedIndexKey \<longrightarrow> sm nh1 (str_bytes k) = cmd_effect (test_batch (Some test_value) n) (sm nh) (str_bytes k)"
    using accepts_propose [OF a o(1)] by blast
  obtain v2 nh2 where 2: "nh_SyncPropose H nh1 (test_batch None n) = (Inr v2, nh2)"
    "\<forall>k. k \<noteq> appliedIndexKey \<longrightarrow> sm nh2 (str_bytes k) = cmd_effect (test_batch None n) (sm nh1) (str_bytes k)"
    using accepts_propose [OF 1(2) o(2)] by blast
  have r: "nh_SyncRead H nh1 (QString (test_key (rnd i))) \<in> range Inl \<union> {Inr (RBytes (Some test_value))}" for i
  proof (cases "nh_SyncRead H nh1 (QString (test_key (rnd i)))")
    case (Inr v)
    have "sm nh1 (str_bytes (test_key (rnd i))) = Some test_value"
      using 1(3) assms(2) by (auto simp: cmd_effect_test_batch)
    with read_string [OF Inr] Inr show ?thesis by simp
  qed simp
  have "testKV_external H rnd n nh = (map (\<lambda>i. nh_SyncRead H nh1 (QString (test_key (rnd i)))) [0..<n], nh2)"
    using 1(1) 2(1) by (simp add: testKV_external_def Let_def)
  moreover have "set (map (\<lambda>i. nh_SyncRead H nh1 (QString (test_key (rnd i)))) [0..<n]) \<subseteq> range Inl \<union> {Inr (RBytes (Some test_value))}"
    using r by (simp only: set_map) blast
  moreover have "\<forall>k. k \<noteq> appliedIndexKey \<longrightarrow> sm nh2 (str_bytes k) = (if \<exists>i<n. k = test_key i then None else sm nh (str_bytes k))"
    using 1(3) 2(2) unfolding cmd_effect_test_batch by metis
  ultimately show ?thesis by blast
qed

end

text \<open>
  The test of the store cleans up after itself in the cluster: when its database can be created
  and the cluster accepts its two batches, every read that succeeds returns the value written before,
  and afterwards the replicated map is what it was, without the keys \<open>_test0\<close> to \<open>_test999999\<close>, also
  if they were there before. Its own database stays on disk with everything in it.
\<close>

theorem testKV_cleans:
  assumes "pebble_db P" "engine_ok P" "raft_kv H sm" "accepts H 2 nh"
    and "createDB P F fs (testDBDirName @ ''/_testing'') = (Ok h, fs1)"
    and "\<forall>i. rnd1 i < TEST_KEYS" "\<forall>i. rnd2 i < TEST_KEYS"
  shows "\<exists>reads c nh'. testKV P H F rnd1 rnd2 fs nh
      = (Ok (map (\<lambda>i. Inr test_value) [0..<TEST_KEYS], reads), fs_put (pd_dir h) (FDB c) fs1, nh')
    \<and> set reads \<subseteq> range Inl \<union> {Inr (RBytes (Some test_value))}
    \<and> (\<forall>i<TEST_KEYS. contents P c (str_bytes (test_key i)) = Some test_value)
    \<and> (\<forall>k. k \<noteq> appliedIndexKey \<longrightarrow>
         sm nh' (str_bytes k) = (if \<exists>i<TEST_KEYS. k = test_key i then None else sm nh (str_bytes k)))"
proof -
  obtain c where "testKV_internal P F rnd1 TEST_KEYS fs = (Ok (map (\<lambda>i. Inr test_value) [0..<TEST_KEYS]), fs_put (pd_dir h) (FDB c) fs1)"
    "\<forall>i<TEST_KEYS. contents P c (str_bytes (test_key i)) = Some test_value"
    using testKV_internal_Ok [OF assms(1,2,5,6)] by blast
  with raft_kv.testKV_external_effect [OF assms(3,4,7)] show ?thesis
    unfolding testKV_def by (elim exE conjE) (intro exI conjI, simp_all)
qed

theorem testKV_cleans_witness:
  "\<exists>r fs' nh'. testKV ref_pebble (single_host ref_pebble) no_faults (\<lambda>i. 0) (\<lambda>i. 7) [] (example_host [(str_bytes ''_test3'', [1]), (str_bytes ''a'', [2])])
      = (Ok r, fs', nh') \<and> host_map ref_pebble nh' (str_bytes (test_key 3)) = None \<and> host_map ref_pebble nh' (str_bytes ''a'') = Some [2]"
proof -
  let ?c = "[(str_bytes ''_test3'', [1]), (str_bytes ''a'', [2])] :: ref_db"
  have ex: "\<exists>h fs1. createDB ref_pebble no_faults [] (testDBDirName @ ''/_testing'') = (Ok h, fs1)"
    by (simp add: createDB_def fs_mkdir_def)
  have acc: "accepts (single_host ref_pebble) 2 (example_host ?c)" by (rule single_accepts [of _ ?c]) simp_all
  have pos: "\<forall>i::nat. 0 < TEST_KEYS" "\<forall>i::nat. 7 < TEST_KEYS" "3 < TEST_KEYS" by (simp_all add: TEST_KEYS_def)
  obtain h fs1 where h: "createDB ref_pebble no_faults [] (testDBDirName @ ''/_testing'') = (Ok h, fs1)" using ex by blast
  obtain r fs' nh' where t: "testKV ref_pebble (single_host ref_pebble) no_faults (\<lambda>i. 0) (\<lambda>i. 7) [] (example_host ?c) = (Ok r, fs', nh')"
    and m: "\<forall>k. k \<noteq> appliedIndexKey \<longrightarrow> host_map ref_pebble nh' (str_bytes k)
      = (if \<exists>i<TEST_KEYS. k = test_key i then None else host_map ref_pebble (example_host ?c) (str_bytes k))"
    using testKV_cleans [OF refdb.pebble_db_axioms engine_ok_ref refdb.single.raft_kv_axioms acc h pos(1,2)] by blast
  have a: "''a'' \<noteq> appliedIndexKey" "\<nexists>i. ''a'' = test_key i" by (simp_all add: appliedIndexKey_def test_key_def)
  have "host_map ref_pebble nh' (str_bytes (test_key 3)) = None" using m pos(3) test_key_not_index by auto
  moreover have "host_map ref_pebble nh' (str_bytes ''a'') = Some [2]" using spec [OF m, of "''a''"] a by simp
  ultimately show ?thesis using t by blast
qed

section \<open>The permissions after the test\<close>

text \<open>The keys of the permission that is written and of the permissions that are deleted.\<close>

definition test_perm_key :: string where
  "test_perm_key = Key (permission_kv test_permission)"

lemma test_perm_key_eq: "test_perm_key = ''p:e:dioptre:f:/folder''"
  by (simp add: test_perm_key_def permission_kv_def test_permission_def zero_TypedString_def)

lemma cleanup_key: "Key (permission_kv (test_cleanup i)) = ''p:e:dioptre'' @ show_nat i @ '':f:/folder'' @ show_nat i"
  by (simp add: permission_kv_def test_cleanup_def zero_TypedString_def)

lemma cleanup_key_other [simp]: "Key (permission_kv (test_cleanup i)) \<noteq> test_perm_key"
proof
  assume "Key (permission_kv (test_cleanup i)) = test_perm_key"
  then have "length (show_nat i @ '':f:/folder'' @ show_nat i) = length '':f:/folder''"
    by (simp add: cleanup_key test_perm_key_eq)
  then show False by simp
qed

lemma test_perms_utf8 [simp]: "perm_utf8 test_permission" "perm_utf8 (test_cleanup i)"
  using is_ascii_show_nat [of i]
  by (auto simp: perm_utf8_def test_permission_def test_cleanup_def zero_TypedString_def is_ascii_def intro!: utf8_ok_ascii)

lemma test_perm_vals [simp]: "Val (permission_kv test_permission) = Some [4]" "Val (permission_kv (test_cleanup i)) = None"
  by (simp_all add: permission_kv_def test_permission_def test_cleanup_def zero_TypedString_def Let_def)

lemma perm_outside_cache: "outside_cache (Key (permission_kv p))"
  using permission_kv_prefix [of p] perm_key_not_index by (auto simp: outside_cache_def prefix_def permission_kv_key)

context raft_kv
begin

text \<open>One proposal of \<open>permiss\<close>, at most two of \<open>authorize\<close>.\<close>

lemma accepts_permiss:
  assumes "accepts H (Suc n) nh" "list_all perm_utf8 ps" "\<forall>p\<in>set ps. Val (permission_kv p) = v"
  shows "\<exists>nh'. permiss H nh ps = (None, nh') \<and> accepts H n nh' \<and> (\<forall>k. k \<noteq> appliedIndexKey \<longrightarrow>
    sm nh' (str_bytes k) = (if \<exists>p\<in>set ps. k = Key (permission_kv p) then v else sm nh (str_bytes k)))"
proof -
  let ?kvs = "map permission_kv ps"
  let ?cmd = "json_Marshal (KVBatch_json \<lparr>kb_Action = act_PUT, kb_Batch = Some (map Some ?kvs)\<rparr>)"
  obtain x nh' where p: "nh_SyncPropose H nh ?cmd = (Inr x, nh')" "accepts H n nh'"
    and k: "\<forall>k. k \<noteq> appliedIndexKey \<longrightarrow> sm nh' (str_bytes k) = cmd_effect ?cmd (sm nh) (str_bytes k)"
    using accepts_propose [OF assms(1) entry_ops_batch] by blast
  have c: "map coerce_KVData ?kvs = ?kvs" using assms(2) by (simp add: permission_kv_coerce list_all_iff)
  have "cmd_effect ?cmd (sm nh) = fold kv_effect ?kvs (sm nh)" unfolding cmd_effect_batch c ..
  with fold_kv_effect_same [of ?kvs v "sm nh"] assms(3) p k show ?thesis
    by (auto simp: permiss_def image_iff)
qed

lemma accepts_data:
  assumes "accepts H (Suc n) nh" "Key kv \<noteq> []"
  shows "\<exists>v nh'. nh_SyncPropose H nh (json_Marshal (KVData_json kv)) = (Inr v, nh') \<and> accepts H n nh'"
  using accepts_propose [OF assms(1) entry_ops_data [OF assms(2)]] by blast

lemma accepts_cache:
  assumes "accepts H (Suc (Suc n)) nh"
  shows "accepts H n (snd (cache H cfg now rnd nh q e c))"
proof (cases "CacheSeconds cfg \<le> 1")
  case True
  then show ?thesis using assms accepts_mono [of H "Suc (Suc n)" nh n] by (simp add: cache_off)
next
  case False
  let ?v = "''e:'' @ ts_Val e @ '':'' @ show_rune (ts_Rune c) @ '':'' @ ts_Val c"
  have ne: "Key \<lparr>Key = getCacheKey q, Val = Some (str_bytes ?v)\<rparr> \<noteq> []" using getCacheKey_prefix [of q] by auto
  obtain v nh1 where 1: "nh_SyncPropose H nh (json_Marshal (KVData_json \<lparr>Key = getCacheKey q, Val = Some (str_bytes ?v)\<rparr>)) = (Inr v, nh1)"
    "accepts H (Suc n) nh1" using accepts_data [OF assms ne] by blast
  have "accepts H n (snd (ttl H cfg now rnd nh1 (getCacheKey q)))"
    using accepts_data [OF 1(2), of "\<lparr>Key = ''ttl:'' @ show_int_pad 15 (int64 (now + CacheSeconds cfg)) @ '':'' @ rnd,
      Val = Some (str_bytes (getCacheKey q))\<rparr>"] by (auto simp: ttl_def Let_def)
  with 1 False show ?thesis by (simp add: cache_def Let_def)
qed

lemma accepts_authorize:
  assumes "accepts H (Suc (Suc n)) nh" "authorize H cfg now rnd nh q = (b, nh')"
  shows "accepts H n nh'"
  using authorize_cache [OF assms(2)] accepts_cache [OF assms(1)] accepts_mono [OF assms(1), of n] by auto

lemma test_authorize_effect:
  "accepts H (2 * length is + n) nh \<Longrightarrow> test_authorize H cfg now rnd is nh = (bs, nh') \<Longrightarrow>
   accepts H n nh' \<and> (\<forall>k. outside_cache k \<longrightarrow> sm nh' (str_bytes k) = sm nh (str_bytes k))"
proof (induction "is" arbitrary: nh bs)
  case (Cons i "is")
  obtain b nh1 where 1: "authorize H cfg (now i) (rnd i) nh test_request = (b, nh1)" by fastforce
  then obtain bs' where 2: "test_authorize H cfg now rnd is nh1 = (bs', nh')" using Cons.prems(2) by (auto split: prod.splits)
  have "accepts H (Suc (Suc (2 * length is + n))) nh" using Cons.prems(1) by (simp del: accepts.simps)
  from Cons.IH [OF accepts_authorize [OF this 1] 2] authorize_other [OF 1] show ?case by simp
qed simp

end

text \<open>
  C39. The test of permissions does not clean up: when the cluster accepts its proposals, the user
  \<open>dioptre\<close> keeps the right 4 on \<open>/folder\<close>, and the permissions of the users \<open>dioptre0\<close>, \<open>dioptre1\<close>, ...
  that the test deletes are others, which it has not written. All other keys are as before, apart
  from the cache of grants.
\<close>

theorem testPermissions_leaves:
  assumes "raft_kv H sm" "accepts H (2 * TEST_PERMISSIONS + 2) nh" "outside_cache k"
  shows "\<exists>bs nh'. testPermissions H cfg now rnd nh = ((None, bs, None), nh')
    \<and> sm nh' (str_bytes k) = (if k = test_perm_key then Some [4]
        else if \<exists>i<TEST_PERMISSIONS. k = Key (permission_kv (test_cleanup i)) then None else sm nh (str_bytes k))"
proof -
  let ?n = TEST_PERMISSIONS
  have k: "k \<noteq> appliedIndexKey" using assms(3) by (simp add: outside_cache_def)
  have a: "accepts H (Suc (2 * length [0..<?n] + 1)) nh" using assms(2) by (simp del: accepts.simps upt_rec)
  have "0 < ?n" by (simp add: TEST_PERMISSIONS_def)
  then have same: "(\<exists>p\<in>set (map (\<lambda>i. test_permission) [0..<?n]). k = Key (permission_kv p)) \<longleftrightarrow> k = test_perm_key"
    by (auto simp: test_perm_key_def)
  obtain nh1 where 1: "permiss H nh (map (\<lambda>i. test_permission) [0..<?n]) = (None, nh1)" "accepts H (2 * length [0..<?n] + 1) nh1"
    and eff: "\<forall>k. k \<noteq> appliedIndexKey \<longrightarrow> sm nh1 (str_bytes k) =
      (if \<exists>p\<in>set (map (\<lambda>i. test_permission) [0..<?n]). k = Key (permission_kv p) then Some [4] else sm nh (str_bytes k))"
    using raft_kv.accepts_permiss [OF assms(1) a, of "map (\<lambda>i. test_permission) [0..<?n]" "Some [4]"]
    by (auto simp: list_all_iff simp del: accepts.simps)
  have m1: "sm nh1 (str_bytes k) = (if k = test_perm_key then Some [4] else sm nh (str_bytes k))"
    using spec [OF eff, of k] k unfolding same by blast
  obtain bs nh2 where 2: "test_authorize H cfg now rnd [0..<?n] nh1 = (bs, nh2)" by fastforce
  from raft_kv.test_authorize_effect [OF assms(1) 1(2) 2] assms(3)
  have m2: "accepts H (Suc 0) nh2" "sm nh2 (str_bytes k) = sm nh1 (str_bytes k)" by simp_all
  obtain nh3 where 3: "permiss H nh2 (map test_cleanup [0..<?n]) = (None, nh3)"
    "sm nh3 (str_bytes k) = (if \<exists>p\<in>set (map test_cleanup [0..<?n]). k = Key (permission_kv p) then None else sm nh2 (str_bytes k))"
    using raft_kv.accepts_permiss [OF assms(1) m2(1), of "map test_cleanup [0..<?n]" None] k
    by (auto simp: list_all_iff)
  have "testPermissions H cfg now rnd nh = ((None, bs, None), nh3)"
    using 1(1) 2 3(1) by (simp add: testPermissions_def testPermissions_n_def)
  with m1 m2(2) 3(2) cleanup_key_other show ?thesis by (auto simp: Bex_def)
qed

text \<open>On the example host the user of the test is authorized afterwards.\<close>

theorem testPermissions_leaves_witness:
  "\<exists>bs nh'. testPermissions (single_host ref_pebble) example_config (\<lambda>i. 100) (\<lambda>i. ''r'') (example_host []) = ((None, bs, None), nh')
    \<and> host_map ref_pebble nh' (str_bytes ''p:e:dioptre:f:/folder'') = Some [4]"
proof -
  have "accepts (single_host ref_pebble) (2 * TEST_PERMISSIONS + 2) (example_host [])"
    by (rule single_accepts [of _ "[]"]) (simp_all add: TEST_PERMISSIONS_def)
  moreover have "outside_cache test_perm_key" unfolding test_perm_key_def by (rule perm_outside_cache)
  ultimately obtain bs nh' where "testPermissions (single_host ref_pebble) example_config (\<lambda>i. 100) (\<lambda>i. ''r'') (example_host []) = ((None, bs, None), nh')"
    "host_map ref_pebble nh' (str_bytes test_perm_key) = Some [4]"
    using testPermissions_leaves [OF refdb.single.raft_kv_axioms, of "example_host []" test_perm_key example_config "\<lambda>i. 100" "\<lambda>i. ''r''"]
    by (auto simp del: accepts.simps)
  then show ?thesis unfolding test_perm_key_eq by blast
qed

end
