(* ===== verification/Transport.thy ===== *)
theory Transport
  imports Roo_Prelude "HOL-Library.Multiset"
begin

text \<open>
  Support for transfers: the buffers that the reverse proxies of a node share (\<open>bufferpool.go\<close>) and
  the dialer of the watcher and of the swarm worker (\<open>network.go\<close>).

  A buffer has an identity, because what matters is that two transfers never share one. A \<open>sync.Pool\<close>
  hands out any item it holds, or a new one although it holds some, and may drop items at any time;
  which of these happens is an argument of \<open>pool_Get\<close> and a step of its own. The locale \<open>buffer_pool\<close> is
  what a user of \<open>httputil.BufferPool\<close> relies on, and the transfers of the standard library's reverse
  proxy, each of which gets a buffer and puts the same one back, are shown to be exclusive from it.
\<close>

section \<open>Buffers\<close>

record buffer =
  bf_addr :: nat
  bf_len :: nat

text \<open>An \<open>interface{}\<close> value as the pool keeps it.\<close>

datatype item = IBytes buffer | INil

record bufferPool =
  bp_pool :: "item list"
  bp_next :: nat

definition bufferPoolSize :: nat where
  "bufferPoolSize = 32 * 1024"

definition newBufferPool :: "nat \<Rightarrow> bufferPool" where
  "newBufferPool heap = \<lparr>bp_pool = [], bp_next = heap\<rparr>"

text \<open>The function \<open>New\<close> of the pool: a slice of a fresh array.\<close>

definition pool_New :: "bufferPool \<Rightarrow> item \<times> bufferPool" where
  "pool_New p = (IBytes \<lparr>bf_addr = bp_next p, bf_len = bufferPoolSize\<rparr>, p\<lparr>bp_next := bp_next p + 1\<rparr>)"

text \<open>Taking item \<open>i\<close> of the pool, or a new one; the type assertion panics for other values.\<close>

definition pool_take :: "nat option \<Rightarrow> bufferPool \<Rightarrow> item \<times> bufferPool" where
  "pool_take choice p = (case choice of
     None \<Rightarrow> pool_New p
   | Some i \<Rightarrow> if i < length (bp_pool p)
       then (bp_pool p ! i, p\<lparr>bp_pool := take i (bp_pool p) @ drop (Suc i) (bp_pool p)\<rparr>)
       else pool_New p)"

definition pool_Get :: "nat option \<Rightarrow> bufferPool \<Rightarrow> buffer outcome \<times> bufferPool" where
  "pool_Get choice p = (case pool_take choice p of
     (IBytes b, p') \<Rightarrow> (Ok b, p')
   | (INil, p') \<Rightarrow> (Panic ''interface conversion'', p'))"

definition pool_Put :: "buffer \<Rightarrow> bufferPool \<Rightarrow> bufferPool" where
  "pool_Put b p = p\<lparr>bp_pool := IBytes b # bp_pool p\<rparr>"

text \<open>The garbage collector may drop items.\<close>

definition pool_drop :: "nat \<Rightarrow> bufferPool \<Rightarrow> bufferPool" where
  "pool_drop i p = p\<lparr>bp_pool := take i (bp_pool p) @ drop (Suc i) (bp_pool p)\<rparr>"

section \<open>Transfers\<close>

text \<open>
  A pool as its users see it: \<open>get\<close>, \<open>put\<close> and \<open>gc\<close> as relations between its states, the buffers that
  are inside, with their multiplicity, and the buffers that have ever been handed out or put.
\<close>

inductive transfer_step ::
    "('p \<Rightarrow> buffer outcome \<Rightarrow> 'p \<Rightarrow> bool) \<Rightarrow> (buffer \<Rightarrow> 'p \<Rightarrow> 'p) \<Rightarrow> ('p \<Rightarrow> 'p \<Rightarrow> bool)
      \<Rightarrow> 'p \<times> (nat \<rightharpoonup> buffer) \<Rightarrow> 'p \<times> (nat \<rightharpoonup> buffer) \<Rightarrow> bool" for get put gc where
  begin_transfer: "held r = None \<Longrightarrow> get p (Ok b) p' \<Longrightarrow> transfer_step get put gc (p, held) (p', held(r \<mapsto> b))"
| end_transfer: "held r = Some b \<Longrightarrow> transfer_step get put gc (p, held) (put b p, held(r := None))"
| collect: "gc p p' \<Longrightarrow> transfer_step get put gc (p, held) (p', held)"

inductive_cases transfer_stepE: "transfer_step get put gc s s'"

text \<open>Every buffer is known and of the right size, and is inside once or held by one transfer.\<close>

definition exclusive ::
    "('p \<Rightarrow> buffer multiset) \<Rightarrow> ('p \<Rightarrow> nat set) \<Rightarrow> nat \<Rightarrow> 'p \<Rightarrow> (nat \<rightharpoonup> buffer) \<Rightarrow> bool" where
  "exclusive inside known len p held \<longleftrightarrow>
     (\<forall>b. b \<in># inside p \<longrightarrow> bf_addr b \<in> known p \<and> bf_len b = len)
     \<and> (\<forall>r b. held r = Some b \<longrightarrow> bf_addr b \<in> known p \<and> bf_len b = len)
     \<and> (\<forall>a. count (image_mset bf_addr (inside p)) a \<le> 1)
     \<and> (\<forall>r b b'. held r = Some b \<longrightarrow> b' \<in># inside p \<longrightarrow> bf_addr b' \<noteq> bf_addr b)
     \<and> (\<forall>r r' b b'. held r = Some b \<longrightarrow> held r' = Some b' \<longrightarrow> bf_addr b = bf_addr b' \<longrightarrow> r = r')"

lemma exclusiveD:
  assumes "exclusive inside known len p held"
  shows "b \<in># inside p \<Longrightarrow> bf_addr b \<in> known p \<and> bf_len b = len"
    "held r = Some b \<Longrightarrow> bf_addr b \<in> known p \<and> bf_len b = len"
    "count (image_mset bf_addr (inside p)) a \<le> 1"
    "held r = Some b \<Longrightarrow> b' \<in># inside p \<Longrightarrow> bf_addr b' \<noteq> bf_addr b"
    "held r = Some b \<Longrightarrow> held r' = Some b' \<Longrightarrow> bf_addr b = bf_addr b' \<Longrightarrow> r = r'"
  using assms unfolding exclusive_def by blast+

lemma exclusiveI:
  assumes "\<And>b. b \<in># inside p \<Longrightarrow> bf_addr b \<in> known p \<and> bf_len b = len"
    "\<And>r b. held r = Some b \<Longrightarrow> bf_addr b \<in> known p \<and> bf_len b = len"
    "\<And>a. count (image_mset bf_addr (inside p)) a \<le> 1"
    "\<And>r b b'. held r = Some b \<Longrightarrow> b' \<in># inside p \<Longrightarrow> bf_addr b' \<noteq> bf_addr b"
    "\<And>r r' b b'. held r = Some b \<Longrightarrow> held r' = Some b' \<Longrightarrow> bf_addr b = bf_addr b' \<Longrightarrow> r = r'"
  shows "exclusive inside known len p held"
  unfolding exclusive_def using assms by blast

text \<open>The pool may lose buffers, a transfer may take one that nobody has, and give one back.\<close>

lemma exclusive_less:
  assumes "exclusive inside known len p held" "inside p' \<subseteq># inside p" "known p \<subseteq> known p'"
  shows "exclusive inside known len p' held"
proof (rule exclusiveI)
  fix a
  have "count (image_mset bf_addr (inside p')) a \<le> count (image_mset bf_addr (inside p)) a"
    using assms(2) by (simp add: image_mset_subseteq_mono mset_subset_eq_count)
  then show "count (image_mset bf_addr (inside p')) a \<le> 1"
    using exclusiveD(3) [OF assms(1)] by (rule order_trans)
qed (use exclusiveD [OF assms(1)] assms(3) mset_subset_eqD [OF assms(2)] in blast)+

lemma exclusive_take:
  assumes "exclusive inside known len p held" "held r = None" "bf_addr b \<in> known p" "bf_len b = len"
    and "\<And>b'. b' \<in># inside p \<Longrightarrow> bf_addr b' \<noteq> bf_addr b" "\<And>r' b'. held r' = Some b' \<Longrightarrow> bf_addr b' \<noteq> bf_addr b"
  shows "exclusive inside known len p (held(r \<mapsto> b))"
proof (rule exclusiveI)
  fix r1 r2 b1 b2
  assume "(held(r \<mapsto> b)) r1 = Some b1" "(held(r \<mapsto> b)) r2 = Some b2" "bf_addr b1 = bf_addr b2"
  then show "r1 = r2" using exclusiveD(5) [OF assms(1)] assms(6) by (metis fun_upd_apply option.inject)
qed (use exclusiveD(1-4) [OF assms(1)] assms(3-5) in \<open>auto split: if_splits\<close>)

lemma exclusive_return:
  assumes "exclusive inside known len p held" "held r = Some b" "inside p' = add_mset b (inside p)" "known p' = known p"
  shows "exclusive inside known len p' (held(r := None))"
proof (rule exclusiveI)
  fix a
  have "bf_addr b \<notin># image_mset bf_addr (inside p)" using exclusiveD(4) [OF assms(1,2)] by (metis imageE set_image_mset)
  then have "count (image_mset bf_addr (inside p)) (bf_addr b) = 0" by (rule count_eq_zero_iff [THEN iffD2])
  then show "count (image_mset bf_addr (inside p')) a \<le> 1" using exclusiveD(3) [OF assms(1), of a] by (auto simp: assms(3))
qed (use exclusiveD [OF assms(1)] assms(2-4) in \<open>auto split: if_splits\<close>)

locale buffer_pool =
  fixes get :: "'p \<Rightarrow> buffer outcome \<Rightarrow> 'p \<Rightarrow> bool" and put :: "buffer \<Rightarrow> 'p \<Rightarrow> 'p" and gc :: "'p \<Rightarrow> 'p \<Rightarrow> bool"
    and inside :: "'p \<Rightarrow> buffer multiset" and known :: "'p \<Rightarrow> nat set" and len :: nat and wf :: "'p \<Rightarrow> bool"
  assumes get_returns: "wf p \<Longrightarrow> get p x p' \<Longrightarrow> wf p' \<and> (\<exists>b. x = Ok b \<and>
      (inside p = add_mset b (inside p') \<and> known p' = known p
       \<or> inside p' = inside p \<and> bf_addr b \<notin> known p \<and> known p' = insert (bf_addr b) (known p) \<and> bf_len b = len))"
    and put_back: "wf p \<Longrightarrow> wf (put b p) \<and> inside (put b p) = add_mset b (inside p) \<and> known (put b p) = known p"
    and gc_drops: "wf p \<Longrightarrow> gc p p' \<Longrightarrow> wf p' \<and> inside p' \<subseteq># inside p \<and> known p' = known p"
begin

lemma exclusive_get:
  assumes "wf p" "exclusive inside known len p held" "held r = None" "get p (Ok b) p'"
  shows "exclusive inside known len p' (held(r \<mapsto> b))"
proof -
  consider (pool) "inside p = add_mset b (inside p')" "known p' = known p"
    | (new) "inside p' = inside p" "bf_addr b \<notin> known p" "known p' = insert (bf_addr b) (known p)" "bf_len b = len"
    using get_returns [OF assms(1,4)] by blast
  then show ?thesis
  proof cases
    case pool
    have b: "b \<in># inside p" "inside p' \<subseteq># inside p" by (simp_all add: pool(1))
    show ?thesis
    proof (rule exclusive_take [OF exclusive_less [OF assms(2) b(2)] assms(3)])
      fix b' assume "b' \<in># inside p'"
      moreover have "count (image_mset bf_addr (inside p)) (bf_addr b) \<le> 1" by (rule exclusiveD(3) [OF assms(2)])
      then have "count (image_mset bf_addr (inside p')) (bf_addr b) = 0" by (simp add: pool(1))
      ultimately show "bf_addr b' \<noteq> bf_addr b" by (metis count_eq_zero_iff image_eqI set_image_mset)
    next
      fix r' b' assume "held r' = Some b'"
      then show "bf_addr b' \<noteq> bf_addr b" using exclusiveD(4) [OF assms(2) _ b(1)] by metis
    qed (use exclusiveD(1) [OF assms(2) b(1)] pool(2) in simp_all)
  next
    case new
    show ?thesis
    proof (rule exclusive_take [OF exclusive_less [OF assms(2)] assms(3)])
      fix b' assume "b' \<in># inside p'"
      then show "bf_addr b' \<noteq> bf_addr b" using exclusiveD(1) [OF assms(2)] new(1,2) by metis
    next
      fix r' b' assume "held r' = Some b'"
      then show "bf_addr b' \<noteq> bf_addr b" using exclusiveD(2) [OF assms(2)] new(2) by metis
    qed (auto simp: new(1,3,4))
  qed
qed

lemma transfer_step_exclusive:
  assumes "transfer_step get put gc (p, held) (p', held')" "wf p" "exclusive inside known len p held"
  shows "wf p' \<and> exclusive inside known len p' held'"
  using assms(1)
proof (cases rule: transfer_step.cases)
  case (begin_transfer r b)
  then show ?thesis using get_returns [OF assms(2)] exclusive_get [OF assms(2,3)] by blast
next
  case (end_transfer r b)
  then show ?thesis using put_back [OF assms(2)] exclusive_return [OF assms(3)] by blast
next
  case collect
  then show ?thesis using gc_drops [OF assms(2)] exclusive_less [OF assms(3)] by blast
qed

lemma transfers_exclusive:
  assumes "(transfer_step get put gc)\<^sup>*\<^sup>* (p, Map.empty) (p', held)" "wf p" "inside p = {#}"
  shows "wf p' \<and> exclusive inside known len p' held"
proof -
  have "wf (fst s) \<and> exclusive inside known len (fst s) (snd s)" if "(transfer_step get put gc)\<^sup>*\<^sup>* (p, Map.empty) s" for s
    using that
  proof (induction rule: rtranclp_induct)
    case base
    then show ?case using assms(2,3) by (simp add: exclusive_def)
  next
    case (step s1 s2)
    then show ?case using transfer_step_exclusive [of "fst s1" "snd s1" "fst s2" "snd s2"] by simp
  qed
  from this [OF assms(1)] show ?thesis by simp
qed

text \<open>A transfer can always get a buffer if the pool answers, and gets one that no other transfer holds.\<close>

lemma get_never_panics: "wf p \<Longrightarrow> get p x p' \<Longrightarrow> is_Ok x"
  using get_returns by fastforce

end

section \<open>The program's pool\<close>

definition pool_get :: "bufferPool \<Rightarrow> buffer outcome \<Rightarrow> bufferPool \<Rightarrow> bool" where
  "pool_get p x p' \<longleftrightarrow> (\<exists>choice. pool_Get choice p = (x, p'))"

definition pool_gc :: "bufferPool \<Rightarrow> bufferPool \<Rightarrow> bool" where
  "pool_gc p p' \<longleftrightarrow> (\<exists>i. p' = pool_drop i p)"

fun item_buffer :: "item \<Rightarrow> buffer" where
  "item_buffer (IBytes b) = b"
| "item_buffer INil = \<lparr>bf_addr = 0, bf_len = 0\<rparr>"

definition pool_inside :: "bufferPool \<Rightarrow> buffer multiset" where
  "pool_inside p = mset (map item_buffer (bp_pool p))"

definition pool_known :: "bufferPool \<Rightarrow> nat set" where
  "pool_known p = {a. a < bp_next p}"

definition pool_wf :: "bufferPool \<Rightarrow> bool" where
  "pool_wf p \<longleftrightarrow> INil \<notin> set (bp_pool p)"

lemma pool_Get_wf:
  assumes "pool_wf p" "pool_Get choice p = (x, p')"
  shows "pool_wf p' \<and> (\<exists>b. x = Ok b \<and> (pool_inside p = add_mset b (pool_inside p') \<and> pool_known p' = pool_known p
    \<or> pool_inside p' = pool_inside p \<and> bf_addr b \<notin> pool_known p \<and> pool_known p' = insert (bf_addr b) (pool_known p)
      \<and> bf_len b = bufferPoolSize))"
proof (cases "\<exists>i. choice = Some i \<and> i < length (bp_pool p)")
  case True
  then obtain i where i: "choice = Some i" "i < length (bp_pool p)" by blast
  then have split: "bp_pool p = take i (bp_pool p) @ bp_pool p ! i # drop (Suc i) (bp_pool p)" by (simp add: id_take_nth_drop)
  have "bp_pool p ! i \<noteq> INil" using assms(1) i(2) by (metis nth_mem pool_wf_def)
  then obtain b where b: "bp_pool p ! i = IBytes b" by (cases "bp_pool p ! i") auto
  have p': "x = Ok b" "p' = p\<lparr>bp_pool := take i (bp_pool p) @ drop (Suc i) (bp_pool p)\<rparr>"
    using assms(2) i b by (simp_all add: pool_Get_def pool_take_def)
  have "pool_inside p = add_mset b (pool_inside p')"
    unfolding pool_inside_def by (subst split) (simp add: p'(2) b)
  moreover have "pool_wf p'" "pool_known p' = pool_known p"
    using assms(1) by (auto simp: pool_wf_def pool_known_def p'(2) dest: in_set_takeD in_set_dropD)
  ultimately show ?thesis using p'(1) by blast
next
  case False
  then have "pool_take choice p = pool_New p" by (auto simp: pool_take_def split: option.split)
  then show ?thesis using assms by (auto simp: pool_Get_def pool_New_def pool_wf_def pool_inside_def pool_known_def)
qed

lemma pool_drop_wf:
  assumes "pool_wf p"
  shows "pool_wf (pool_drop i p) \<and> pool_inside (pool_drop i p) \<subseteq># pool_inside p \<and> pool_known (pool_drop i p) = pool_known p"
proof -
  have "mset (take i xs @ drop (Suc i) xs) \<subseteq># mset xs" for xs :: "item list"
  proof (cases "i < length xs")
    case True
    then show ?thesis by (subst (3) id_take_nth_drop [OF True]) simp
  qed simp
  from image_mset_subseteq_mono [OF this [of "bp_pool p"], of item_buffer]
  have "pool_inside (pool_drop i p) \<subseteq># pool_inside p" by (simp add: pool_inside_def pool_drop_def)
  then show ?thesis using assms by (auto simp: pool_wf_def pool_drop_def pool_known_def dest: in_set_takeD in_set_dropD)
qed

interpretation shared_pool: buffer_pool pool_get pool_Put pool_gc pool_inside pool_known bufferPoolSize pool_wf
proof
  fix p x p'
  assume "pool_wf p" "pool_get p x p'"
  then show "pool_wf p' \<and> (\<exists>b. x = Ok b \<and> (pool_inside p = add_mset b (pool_inside p') \<and> pool_known p' = pool_known p
    \<or> pool_inside p' = pool_inside p \<and> bf_addr b \<notin> pool_known p \<and> pool_known p' = insert (bf_addr b) (pool_known p)
      \<and> bf_len b = bufferPoolSize))"
    unfolding pool_get_def using pool_Get_wf by blast
next
  fix p b
  assume "pool_wf p"
  then show "pool_wf (pool_Put b p) \<and> pool_inside (pool_Put b p) = add_mset b (pool_inside p) \<and> pool_known (pool_Put b p) = pool_known p"
    by (simp add: pool_Put_def pool_wf_def pool_inside_def pool_known_def)
next
  fix p p'
  assume "pool_wf p" "pool_gc p p'"
  then show "pool_wf p' \<and> pool_inside p' \<subseteq># pool_inside p \<and> pool_known p' = pool_known p"
    unfolding pool_gc_def using pool_drop_wf by blast
qed

text \<open>
  C21. Transfers never share a buffer: however the transfers of a node interleave and whatever the
  pool hands out or drops, getting a buffer does not panic, every buffer in use is in use by one
  transfer and not inside of the pool, and has 32 KiB.
\<close>

theorem buffers_exclusive:
  assumes "(transfer_step pool_get pool_Put pool_gc)\<^sup>*\<^sup>* (newBufferPool heap, Map.empty) (p, held)"
  shows "(\<forall>choice. is_Ok (fst (pool_Get choice p)))
    \<and> (\<forall>r b. held r = Some b \<longrightarrow> bf_len b = bufferPoolSize \<and> IBytes b \<notin> set (bp_pool p) \<and> (\<forall>r'. held r' = Some b \<longrightarrow> r' = r))"
proof -
  have "pool_wf (newBufferPool heap)" "pool_inside (newBufferPool heap) = {#}"
    by (simp_all add: newBufferPool_def pool_wf_def pool_inside_def)
  from shared_pool.transfers_exclusive [OF assms this]
  have wf: "pool_wf p" and ex: "exclusive pool_inside pool_known bufferPoolSize p held" by simp_all
  have "is_Ok (fst (pool_Get choice p))" for choice
    using shared_pool.get_never_panics [OF wf, of "fst (pool_Get choice p)" "snd (pool_Get choice p)"]
    unfolding pool_get_def by auto
  moreover have "IBytes b \<notin> set (bp_pool p)" if "held r = Some b" for r b
  proof
    assume "IBytes b \<in> set (bp_pool p)"
    then have "b \<in># pool_inside p" unfolding pool_inside_def by force
    with exclusiveD(4) [OF ex that] show False by blast
  qed
  moreover have "\<forall>r b. held r = Some b \<longrightarrow> bf_len b = bufferPoolSize" using exclusiveD(2) [OF ex] by blast
  moreover have "r' = r" if "held r = Some b" "held r' = Some b" for r r' b
    using exclusiveD(5) [OF ex that(2,1)] by simp
  ultimately show ?thesis by blast
qed

text \<open>Two transfers, the second of which reuses the buffer of the first.\<close>

theorem buffers_exclusive_witness:
  "\<exists>p held b. (transfer_step pool_get pool_Put pool_gc)\<^sup>*\<^sup>* (newBufferPool 0, Map.empty) (p, held)
     \<and> held 2 = Some b \<and> bf_addr b = 0 \<and> bf_len b = bufferPoolSize"
proof -
  let ?b = "\<lparr>bf_addr = 0, bf_len = bufferPoolSize\<rparr>"
  let ?p1 = "\<lparr>bp_pool = [], bp_next = 1\<rparr>" and ?p2 = "\<lparr>bp_pool = [IBytes ?b], bp_next = 1\<rparr>"
  let ?step = "transfer_step pool_get pool_Put pool_gc"
  have "pool_get (newBufferPool 0) (Ok ?b) ?p1"
    by (auto simp: pool_get_def pool_Get_def pool_take_def pool_New_def newBufferPool_def intro!: exI [of _ None])
  then have "?step\<^sup>*\<^sup>* (newBufferPool 0, Map.empty) (?p1, [1 \<mapsto> ?b])" by (intro r_into_rtranclp begin_transfer) simp_all
  also have "?step (?p1, [1 \<mapsto> ?b]) (pool_Put ?b ?p1, [1 \<mapsto> ?b](1 := None))" by (rule end_transfer) simp
  also (rtranclp.rtrancl_into_rtrancl) have "pool_get (pool_Put ?b ?p1) (Ok ?b) ?p1"
    by (auto simp: pool_get_def pool_Get_def pool_take_def pool_Put_def intro!: exI [of _ "Some 0"])
  then have "?step (pool_Put ?b ?p1, [1 \<mapsto> ?b](1 := None)) (?p1, [1 \<mapsto> ?b](1 := None, 2 \<mapsto> ?b))" by (intro begin_transfer) simp_all
  finally (rtranclp.rtrancl_into_rtrancl)
  have run: "?step\<^sup>*\<^sup>* (newBufferPool 0, Map.empty) (?p1, [1 \<mapsto> ?b](1 := None, 2 \<mapsto> ?b))" .
  from buffers_exclusive [OF run] have "bf_len ?b = bufferPoolSize" by auto
  with run show ?thesis by (intro exI [of _ ?p1] exI [of _ "[1 \<mapsto> ?b](1 := None, 2 \<mapsto> ?b)"] exI [of _ ?b]) simp
qed

section \<open>The dialer\<close>

text \<open>
  A connection with its deadline in nanoseconds. \<open>dial\<close> is \<open>net.DialTimeout\<close> and \<open>now\<close> the clock after
  it; the error of \<open>SetDeadline\<close> is dropped, so \<open>armed\<close> says whether the call succeeded.
\<close>

record 'c net_conn =
  nc_conn :: 'c
  nc_deadline :: "int option"

definition TimeoutDialer ::
    "int \<Rightarrow> int \<Rightarrow> (string \<Rightarrow> string \<Rightarrow> int \<Rightarrow> error + 'c) \<Rightarrow> int \<Rightarrow> bool \<Rightarrow> string \<Rightarrow> string \<Rightarrow> error + 'c net_conn" where
  "TimeoutDialer cTimeout rwTimeout dial now armed netw addr = (case dial netw addr cTimeout of
     Inl err \<Rightarrow> Inl err
   | Inr conn \<Rightarrow> Inr \<lparr>nc_conn = conn, nc_deadline = (if armed then Some (now + rwTimeout) else None)\<rparr>)"

text \<open>
  The deadline is set once, for the whole life of the connection: a request that starts later on it
  has only what is left of \<open>rwTimeout\<close>, and none after it.
\<close>

definition io_left :: "'c net_conn \<Rightarrow> int \<Rightarrow> int option" where
  "io_left c t = map_option (\<lambda>d. max 0 (d - t)) (nc_deadline c)"

lemma dialer_deadline:
  assumes "TimeoutDialer cTimeout rwTimeout dial now True netw addr = Inr c" "now \<le> t" "0 \<le> rwTimeout"
  shows "io_left c t = Some (max 0 (rwTimeout - (t - now)))"
  using assms by (auto simp: TimeoutDialer_def io_left_def algebra_simps split: sum.splits)

end
