(* ===== verification/Node_Main.thy ===== *)
theory Node_Main
  imports Node_Setup Raft_Setup Config_File Api_Routes Load_Tests Transport
begin

text \<open>
  The program as a whole: \<open>main\<close> (\<open>roo.go\<close>) from its configuration file to the running servers. What the
  process does to the outside, and in which order, is a list of events; the end is that it serves, has
  ended itself, has panicked or waits for ever. The file system, the environment, the DNS, the
  network, the clock and the libraries are the fields of \<open>machine\<close>.
\<close>

section \<open>Levels of the loggers\<close>

datatype LogLevel = CRITICAL | ERROR | WARNING | INFO | DEBUG

fun level_number :: "LogLevel \<Rightarrow> int" where
  "level_number CRITICAL = -1"
| "level_number ERROR = 0"
| "level_number WARNING = 1"
| "level_number INFO = 2"
| "level_number DEBUG = 3"

lemma level_number_inj: "level_number a = level_number b \<Longrightarrow> a = b"
  by (cases a; cases b) simp_all

instantiation LogLevel :: linorder
begin

definition less_eq_LogLevel :: "LogLevel \<Rightarrow> LogLevel \<Rightarrow> bool" where
  "less_eq_LogLevel a b \<longleftrightarrow> level_number a \<le> level_number b"

definition less_LogLevel :: "LogLevel \<Rightarrow> LogLevel \<Rightarrow> bool" where
  "less_LogLevel a b \<longleftrightarrow> level_number a < level_number b"

instance
  by standard (auto simp: less_eq_LogLevel_def less_LogLevel_def dest: level_number_inj)

end

text \<open>The calls of \<open>SetLevel\<close>, in order.\<close>

definition set_levels :: "bool \<Rightarrow> bool \<Rightarrow> (string \<times> LogLevel) list" where
  "set_levels debug tests =
     (if \<not> debug then
        [(''logdb'', ERROR), (''raftpb'', ERROR), (''raft'', ERROR), (''rsm'', ERROR), (''transport'', ERROR), (''grpc'', ERROR),
         (''dragonboat'', ERROR), (''roo'', INFO), (''config'', ERROR)]
      else
        [(''raft'', DEBUG), (''rsm'', DEBUG), (''transport'', DEBUG), (''grpc'', DEBUG), (''dragonboat'', DEBUG), (''roo'', DEBUG),
         (''config'', DEBUG)])
     @ (if debug \<or> tests then [(''roo'', DEBUG)] else [])
     @ (if tests then [(''tests'', DEBUG)] else [])"

definition level_of :: "(string \<times> LogLevel) list \<Rightarrow> string \<Rightarrow> LogLevel option" where
  "level_of calls l = map_of (rev calls) l"

section \<open>Parts of the configuration\<close>

abbreviation hosts_of :: "string list option \<Rightarrow> string list" where
  "hosts_of hs \<equiv> (case hs of None \<Rightarrow> [] | Some xs \<Rightarrow> xs)"

abbreviation listed :: "'a list option \<Rightarrow> 'a list" where
  "listed xs \<equiv> (case xs of None \<Rightarrow> [] | Some ys \<Rightarrow> ys)"

definition boot_of :: "config \<Rightarrow> boot_config" where
  "boot_of c = \<lparr>su_DNS = cc_DNS (cf_Cluster c), su_Resolver = cc_Resolver (cf_Cluster c),
     su_BootstrapHosts = cc_BootstrapHosts (cf_Cluster c), su_StartDelaySeconds = cc_StartDelaySeconds (cf_Cluster c),
     su_Hosts = (case cc_Service (cf_Cluster c) of None \<Rightarrow> [] | Some s \<Rightarrow> hosts_of (sc_Hosts s)),
     su_ApiVersion = cf_ApiVersion c, su_ApiVersionString = cf_ApiVersionString c, su_AllowOrigin = cf_AllowOrigin c,
     su_SwarmRefreshSeconds = cf_SwarmRefreshSeconds c\<rparr>"

definition nats_of :: "service_config \<Rightarrow> Service" where
  "nats_of s = \<lparr>sv_Service = sc_Service s, sv_Hosts = hosts_of (sc_Hosts s), sv_Critical = sc_Critical s, sv_Context = sc_Context s,
     sv_Filter = map (\<lambda>f. (fl_Id f, fl_Alias f)) (listed (sc_Filter s)), sv_Session = False\<rparr>"

text \<open>The tokens of \<open>connc\<close>: making a channel of negative size panics.\<close>

definition make_connc :: "int \<Rightarrow> nat run" where
  "make_connc n = (if n < 0 then Crash ''makechan: size out of range'' else Run (nat n))"

text \<open>Whether the counter of the daily limit is installed.\<close>

definition limiter_installed :: "config \<Rightarrow> bool" where
  "limiter_installed c \<longleftrightarrow> cf_ProxyDailyLimit c > 0 \<and> cf_ProxyDailyLimitChecker c = ''memory''"

definition api_endpoint :: "string \<Rightarrow> string" where
  "api_endpoint binding = (if binding \<noteq> [] then binding @ API_PORT else API_PORT)"

text \<open>The tests that are started once the cluster is connected.\<close>

definition tests_to_run :: "string list \<Rightarrow> string list" where
  "tests_to_run tests = (if ''kv'' \<in> set tests then [''kv''] else []) @ (if ''perms'' \<in> set tests then [''perms''] else [])"

definition acme_url :: "bool \<Rightarrow> (string \<Rightarrow> string) \<Rightarrow> string" where
  "acme_url staging getenv =
     (if staging \<or> getenv ''ROO_ACME_STAGING'' = ''true'' then ''https://acme-staging-v02.api.letsencrypt.org/directory''
      else ''https://acme-v02.api.letsencrypt.org/directory'')"

text \<open>The public server; durations are in nanoseconds, at 64 bits, and 0 means that there is no limit.\<close>

record http_server =
  hs_Addr :: string
  hs_ReadTimeout :: int
  hs_ReadHeaderTimeout :: int
  hs_WriteTimeout :: int
  hs_IdleTimeout :: int
  hs_MaxHeaderBytes :: int
  hs_PreferServerCipherSuites :: bool
  hs_CipherSuites :: "string list"

definition seconds :: "int \<Rightarrow> int" where
  "seconds n = int64 (n * 10 ^ 9)"

definition public_server :: "config \<Rightarrow> string \<Rightarrow> http_server" where
  "public_server c binding = \<lparr>hs_Addr = binding @ '':https'', hs_ReadTimeout = seconds (cf_ReadTimeoutSeconds c),
     hs_ReadHeaderTimeout = seconds (cf_ReadHeaderTimeoutSeconds c), hs_WriteTimeout = seconds (cf_WriteTimeoutSeconds c),
     hs_IdleTimeout = seconds (cf_IdleTimeoutSeconds c), hs_MaxHeaderBytes = cf_MaxHeaderBytes c, hs_PreferServerCipherSuites = True,
     hs_CipherSuites = [''TLS_ECDHE_ECDSA_WITH_CHACHA20_POLY1305'', ''TLS_ECDHE_ECDSA_WITH_AES_128_GCM_SHA256'',
       ''TLS_ECDHE_ECDSA_WITH_AES_256_GCM_SHA384'', ''TLS_ECDHE_RSA_WITH_AES_128_GCM_SHA256'', ''TLS_ECDHE_ECDSA_WITH_AES_128_CBC_SHA'']\<rparr>"

section \<open>The program\<close>

record ('n, 'h) machine =
  mc_args :: "string list"
  mc_open :: "string \<Rightarrow> bytes option"
  mc_opaque :: "string \<Rightarrow> json \<Rightarrow> bool"
  mc_getenv :: "string \<Rightarrow> string"
  mc_dns :: "string option \<Rightarrow> string \<Rightarrow> error + string list"
  mc_now :: int
  mc_peers :: "'n peers"
  mc_net :: 'n
  mc_ips :: "error + ip list"
  mc_rand :: nat
  mc_nodehost :: "nodehost_config \<Rightarrow> error + 'h"
  mc_start :: "raft_config \<Rightarrow> 'h starter"
  mc_nats :: "Service \<Rightarrow> (error option \<times> Service) run"

datatype boot_event =
    SetLevel string LogLevel
  | Sleep int
  | ListenApi string nat
  | Connected string uint64
  | StartPrune
  | StartTests "string list"
  | Subscribe string string
  | ListenHttp string
  | ListenHttps http_server string bool

datatype main_end = Serving | Ended string | Panicked string | Waiting

text \<open>From the environment to the hosts of the cluster.\<close>

definition main_prepare :: "('n, 'h, 'a) machine_scheme \<Rightarrow> config \<Rightarrow> boot_event list \<times> boot_config run" where
  "main_prepare M c = (case start_delay (mc_getenv M) (config_overrides (mc_getenv M) (boot_of c)) of
     (s, nap) \<Rightarrow> ((case nap of None \<Rightarrow> [] | Some d \<Rightarrow> [Sleep d]), lookup_hosts (mc_dns M) s))"

text \<open>The node host and the replica are made from the binding and the identifier that \<open>connect\<close> chooses.\<close>

definition main_connect ::
    "('n, 'h, 'a) machine_scheme \<Rightarrow> config \<Rightarrow> boot_config \<Rightarrow> (connection \<times> string list \<times> 'n boot \<times> 'h) run option" where
  "main_connect M c s =
     (let cl = cf_Cluster c; replica = of_nat (mc_rand M + 1);
          binding = choose_binding (case mc_ips M of Inl e \<Rightarrow> [] | Inr xs \<Rightarrow> xs) (su_Hosts s) (cc_Binding cl) in
      connect (mc_peers M) (mc_start M (connect_rc (cc_ShardID cl) replica)) (mc_ips M) (mc_rand M)
        (mc_nodehost M (connect_nhc (cf_DataDirectoryRoot c) (cf_LogDB c) binding replica))
        \<lparr>kc_Binding = cc_Binding cl, kc_Hosts = su_Hosts s, kc_ShardID = cc_ShardID cl,
         kc_Instantiated = mc_now M, kc_ver = su_ApiVersionString s\<rparr> (mc_net M))"

text \<open>
  The services that are notified and consumed, and the public side. Subscriptions made before a later
  service ends the process are not listed.
\<close>

definition main_services :: "('n, 'h, 'a) machine_scheme \<Rightarrow> config \<Rightarrow> boot_event list \<times> unit run" where
  "main_services M c = (case load_services False (mc_nats M) (map nats_of (listed (cf_Notify c))) of
     Exit m \<Rightarrow> ([], Exit m)
   | Crash p \<Rightarrow> ([], Crash p)
   | Run _ \<Rightarrow> (case load_services True (mc_nats M) (map nats_of (listed (cf_Consume c))) of
       Exit m \<Rightarrow> ([], Exit m)
     | Crash p \<Rightarrow> ([], Crash p)
     | Run (_, subs) \<Rightarrow> (map (\<lambda>(i, g). Subscribe i g) subs, Run ())))"

definition main_public :: "('n, 'h, 'a) machine_scheme \<Rightarrow> config \<Rightarrow> string \<Rightarrow> boot_event list" where
  "main_public M c binding =
     [ListenHttp (binding @ '':http''),
      ListenHttps (public_server c binding) (acme_url (cf_AcmeStaging c) (mc_getenv M)) (limiter_installed c)]"

definition main_cluster ::
    "('n, 'h, 'a) machine_scheme \<Rightarrow> config \<Rightarrow> service_config \<Rightarrow> boot_config \<Rightarrow> boot_event list \<times> main_end" where
  "main_cluster M c sc s =
     (case load_cluster (sc_Service sc) (sc_Critical sc) (connect_returned (main_connect M c s)) of
        None \<Rightarrow> ([], Waiting)
      | Some (Exit m) \<Rightarrow> ([], Ended m)
      | Some (Crash p) \<Rightarrow> ([], Panicked p)
      | Some (Run session) \<Rightarrow>
          (case main_connect M c s of
             Some (Run (cn, _)) \<Rightarrow>
               (let ev = [Connected (cn_Binding cn) (cn_ReplicaID cn), StartPrune, StartTests (tests_to_run (listed (cf_Tests c)))] in
                case main_services M c of
                  (subs, Exit m) \<Rightarrow> (ev @ subs, Ended m)
                | (subs, Crash p) \<Rightarrow> (ev @ subs, Panicked p)
                | (subs, Run _) \<Rightarrow> (ev @ subs @ main_public M c (cn_Binding cn), Serving))
           | _ \<Rightarrow> ([], Waiting)))"

definition main :: "('n, 'h, 'a) machine_scheme \<Rightarrow> boot_event list \<times> main_end" where
  "main M = (case load_config (mc_opaque M) (mc_args M) (mc_open M) of
     None \<Rightarrow> ([], Ended ''[ERROR] Configuration file has errors or file missing'')
   | Some c \<Rightarrow>
       (let levels = map (\<lambda>(l, v). SetLevel l v) (set_levels (cf_Debug c) (listed (cf_Tests c) \<noteq> [])) in
        case main_prepare M c of
          (nap, Exit m) \<Rightarrow> (levels @ nap, Ended m)
        | (nap, Crash p) \<Rightarrow> (levels @ nap, Panicked p)
        | (nap, Run s) \<Rightarrow>
            (case (cc_Service (cf_Cluster c), make_connc (cf_MaximumConnections c)) of
               (None, _) \<Rightarrow> (levels @ nap, Panicked ''nil pointer dereference'')
             | (Some sc, Crash p) \<Rightarrow> (levels @ nap, Panicked p)
             | (Some sc, Exit m) \<Rightarrow> (levels @ nap, Ended m)
             | (Some sc, Run connc) \<Rightarrow>
                 (case main_cluster M c sc s of
                    (ev, e) \<Rightarrow> (levels @ nap @ ListenApi (api_endpoint (cc_Binding (cf_Cluster c))) connc # ev, e)))))"

section \<open>Levels\<close>

text \<open>Without debugging and tests only the program's own logger is more talkative than errors.\<close>

lemma quiet_levels: "level_of (set_levels False False) l = Some v \<Longrightarrow> ERROR < v \<longleftrightarrow> l = ''roo''"
  by (auto simp: level_of_def set_levels_def less_LogLevel_def split: if_splits)

lemma roo_level: "level_of (set_levels debug tests) ''roo'' = Some (if debug \<or> tests then DEBUG else INFO)"
  by (simp add: level_of_def set_levels_def)

section \<open>The order of the start\<close>

text \<open>Everything that is visible to others, apart from the API itself.\<close>

fun in_service :: "boot_event \<Rightarrow> bool" where
  "in_service (SetLevel _ _) = False"
| "in_service (Sleep _) = False"
| "in_service (ListenApi _ _) = False"
| "in_service _ = True"

lemma after_first:
  assumes "xs @ a # ys = pre @ x # post" "\<forall>y\<in>set xs. \<not> Q y" "\<not> Q a" "Q x"
  shows "a \<in> set pre"
  using assms
proof (induction xs arbitrary: pre)
  case Nil
  then show ?case by (cases pre) auto
next
  case (Cons z xs)
  then obtain pre' where "pre = z # pre'" by (cases pre) auto
  with Cons show ?case by auto
qed

text \<open>The start in its three possible forms.\<close>

lemma main_cases:
  assumes "main M = (evs, e)"
  obtains (early) "\<forall>x\<in>set evs. \<not> in_service x"
    | (late) xs ep connc ev where "evs = xs @ ListenApi ep connc # ev" "\<forall>x\<in>set xs. \<not> in_service x"
proof (cases "load_config (mc_opaque M) (mc_args M) (mc_open M)")
  case None
  then show thesis using early assms by (simp add: main_def)
next
  case (Some c)
  define levels where "levels = map (\<lambda>(l, v). SetLevel l v) (set_levels (cf_Debug c) (listed (cf_Tests c) \<noteq> []))"
  obtain nap r where p: "main_prepare M c = (nap, r)" by fastforce
  have quiet: "\<forall>x\<in>set (levels @ nap). \<not> in_service x"
    using p by (auto simp: levels_def main_prepare_def split: prod.splits option.splits)
  note m = assms [unfolded main_def Some option.case Let_def p prod.case, folded levels_def]
  show thesis
  proof (cases "\<exists>s sc connc. r = Run s \<and> cc_Service (cf_Cluster c) = Some sc \<and> make_connc (cf_MaximumConnections c) = Run connc")
    case True
    then obtain s sc connc where r: "r = Run s" "cc_Service (cf_Cluster c) = Some sc" "make_connc (cf_MaximumConnections c) = Run connc" by blast
    obtain ev e' where "main_cluster M c sc s = (ev, e')" by fastforce
    then have "evs = (levels @ nap) @ ListenApi (api_endpoint (cc_Binding (cf_Cluster c))) connc # ev" using m r by auto
    then show thesis using quiet by (rule late)
  next
    case False
    then have "evs = levels @ nap" using m by (auto split: run.splits option.splits prod.splits)
    then show thesis using quiet early by simp
  qed
qed


section \<open>How the start ends\<close>


text \<open>A configuration file, and a machine on which a node starts alone.\<close>

definition example_file :: json where
  "example_file = JObj [(''ApiVersion'', JNum (show_int 1)), (''MaximumConnections'', JNum (show_int 10)), (''X_Consume'', JArr []),
     (''Cluster'', JObj [(''Binding'', JStr ''10.0.0.2''), (''ShardID'', JNum (show_uint64 1)), (''Service'', JObj [(''Service'', JStr ''kv'')])])]"

definition example_conf :: config where
  "example_conf = zero_config\<lparr>cf_ApiVersion := 1, cf_MaximumConnections := 10,
     cf_Cluster := zero_cluster_config\<lparr>cc_Binding := ''10.0.0.2'', cc_ShardID := 1,
       cc_Service := Some (zero_service_config\<lparr>sc_Service := ''kv''\<rparr>)\<rparr>\<rparr>"

definition example_machine :: "(unit, unit) machine" where
  "example_machine = \<lparr>mc_args = [''roo''], mc_open = [''config.json'' \<mapsto> json_Marshal example_file], mc_opaque = (\<lambda>_ _. True),
     mc_getenv = (\<lambda>_. []), mc_dns = (\<lambda>_ _. Inr []), mc_now = 5, mc_peers = fixed_peers Map.empty (\<lambda>url. None), mc_net = (),
     mc_ips = Inr [IPv4 [10, 0, 0, 2]], mc_rand = 41, mc_nodehost = (\<lambda>nhc. Inr ()), mc_start = (\<lambda>rc h members join. (None, h)),
     mc_nats = (\<lambda>s. Run (None, s))\<rparr>"

lemma example_file_coerce: "json_coerce example_file = example_file"
  by (simp add: example_file_def utf8_ok_ascii [unfolded utf8_ok_def is_ascii_def])

lemma example_names: "fold_name ''ApiVersion'' = ''APIVERSION''" "fold_name ''MaximumConnections'' = ''MAXIMUMCONNECTIONS''"
  "fold_name ''X_Consume'' = ''X_CONSUME''" "fold_name ''Cluster'' = ''CLUSTER''" "fold_name ''Service'' = ''SERVICE''"
  by code_simp+

lemma example_file_decodes: "dec_config (\<lambda>_ _. True) zero_config example_file = (example_conf, True)"
  by (simp add: example_file_def example_conf_def dec_config_def dec_fields_def dec_struct_def example_names dec_at_def dec_field_def
      dec_int64_def parse_int64_show dec_cluster_config_def dec_string_def dec_uint64_def dec_ptr_def dec_service_config_def zero_config_def zero_cluster_config_def)

lemma example_loads: "load_config (mc_opaque example_machine) (mc_args example_machine) (mc_open example_machine) = Some example_conf"
proof -
  have "json_ints example_file" by (auto simp: example_file_def show_uint64_int)
  then show ?thesis
    by (simp add: load_config_def example_machine_def json_Decode_Marshal example_file_coerce example_file_decodes)
qed

lemma example_prepared: "main_prepare example_machine example_conf = ([], Run (config_overrides (\<lambda>_. []) (boot_of example_conf)))"
proof -
  have "ParseInt_value [] = 0" by (simp add: ParseInt_value_def)
  then show ?thesis
    by (simp add: main_prepare_def example_machine_def example_conf_def boot_of_def config_overrides_def start_delay_def lookup_hosts_def
        zero_config_def zero_cluster_config_def zero_service_config_def Let_def)
qed

lemma example_connected:
  "\<exists>cn x. main_connect example_machine example_conf (config_overrides (\<lambda>_. []) (boot_of example_conf)) = Some (Run (cn, x)) \<and> cn_Binding cn = ''10.0.0.2''"
  using lone_connect [of 5 "''v'' @ show_int 1"]
  by (simp add: main_connect_def example_machine_def example_conf_def boot_of_def config_overrides_def
      zero_config_def zero_cluster_config_def zero_service_config_def Let_def)


lemma example_main:
  "\<exists>pre srv url. main example_machine = (pre @ ListenHttp ''10.0.0.2:http'' # [ListenHttps srv url False], Serving)"
proof -
  obtain cn x where cn: "main_connect example_machine example_conf (config_overrides (\<lambda>_. []) (boot_of example_conf)) = Some (Run (cn, x))"
    "cn_Binding cn = ''10.0.0.2''" using example_connected by blast
  have "main_services example_machine example_conf = ([], Run ())"
    by (simp add: main_services_def example_conf_def zero_config_def)
  moreover have "limiter_installed example_conf = False" by (simp add: example_conf_def limiter_installed_def zero_config_def)
  ultimately show ?thesis
    using cn example_loads example_prepared
    by (simp add: main_def make_connc_def main_cluster_def load_cluster_connected main_public_def example_conf_def Let_def)
qed


text \<open>What keeps a node from serving although its file decodes.\<close>

lemma main_no_service:
  assumes "load_config (mc_opaque M) (mc_args M) (mc_open M) = Some c" "main_prepare M c = (nap, Run s)" "cc_Service (cf_Cluster c) = None"
  shows "snd (main M) = Panicked ''nil pointer dereference''"
  using assms by (simp add: main_def Let_def)

lemma main_negative_connections:
  assumes "load_config (mc_opaque M) (mc_args M) (mc_open M) = Some c" "main_prepare M c = (nap, Run s)" "cc_Service (cf_Cluster c) = Some sc"
    and "cf_MaximumConnections c < 0"
  shows "snd (main M) = Panicked ''makechan: size out of range''"
  using assms by (simp add: main_def make_connc_def Let_def)

lemma main_unknown_service:
  assumes "load_config (mc_opaque M) (mc_args M) (mc_open M) = Some c" "main_prepare M c = (nap, Run s)" "cc_Service (cf_Cluster c) = Some sc"
    and "0 \<le> cf_MaximumConnections c" "sc_Service sc \<noteq> ''kv''"
  shows "snd (main M) = Panicked ''[ERROR] Cluster not implemented''"
  using assms by (simp add: main_def make_connc_def main_cluster_def load_cluster_def Let_def)

text \<open>Timeouts of the public server are exact below 9223372037 seconds.\<close>

lemma seconds_exact: "0 \<le> n \<Longrightarrow> n \<le> 9223372036 \<Longrightarrow> seconds n = n * 10 ^ 9"
  by (simp add: seconds_def int64_def)

end
