(* ===== verification/Spec2Isabelle.thy ===== *)
theory Spec2Isabelle
  imports Disk_Replication Conn_Slots Cert_Cache Node_Main
begin

text \<open>
  \<^bold>\<open>roo\<close>: a transparent reverse proxy for clusters and Docker swarms, whose nodes keep routes,
  certificates and permissions in a key-value store replicated by Raft.

  \<^bold>\<open>The program.\<close> Every node runs one process (\<open>src/roo\<close>). \<open>kvdisk.go\<close> is the state machine the Raft
  library drives: it applies committed commands to an on-disk store, answers queries, takes and
  recovers snapshots, and finds its database again after a restart. \<open>kv.go\<close> starts a node
  (\<open>connect\<close>), reads and writes the store (\<open>execute\<close>) and serves the requests of the API (\<open>serve\<close>).
  \<open>permissions.go\<close> decides on access, with a cache kept in the store itself. \<open>docker.go\<close> and
  \<open>kvdocker.go\<close> turn labels of containers into routes; \<open>kvwatcher.go\<close> removes replicas that do not
  answer; \<open>kvcache.go\<close> keeps certificates. \<open>roo.go\<close> has \<open>main\<close>, and in it the handlers of the API and of
  the proxy with their shared connection slots, and \<open>proxy.go\<close> sends requests to the destination
  stored for their host, through the buffers of \<open>bufferpool.go\<close>. \<open>tests.go\<close> has load tests that run on
  the live store. All parts meet in the store: routes written from the labels are read by the proxy, and the
  records by which nodes find each other are written and read through the same service.

  \<^bold>\<open>Conventions.\<close> Go structures are records, errors and panics are values (\<open>outcome\<close>: \<open>Ok\<close>, \<open>Err\<close>,
  \<open>Panic\<close>; \<open>run\<close> for steps that may end the process), state is passed explicitly, a nil slice is
  \<open>None\<close>, strings and slices are byte sequences, 64-bit integers are words or integers with the wrap
  written out. Go's JSON package is modelled with its coercions (\<open>Go_Json\<close>, \<open>Roo_Types\<close>), as are the
  parts of \<open>strings\<close>, \<open>strconv\<close>, \<open>net\<close>, \<open>net/url\<close>, \<open>net/http\<close>, \<open>crypto/md5\<close> the program uses
  (\<open>Roo_Prelude\<close>, \<open>Go_Text\<close>, \<open>Go_Net\<close>, \<open>Go_Http\<close>, \<open>Go_Md5\<close>).

  \<^bold>\<open>Interfaces.\<close> Packages outside of the repository are records of operations with a locale that
  states what their documentation promises, and an instance that shows the promise can be kept:
  \<^item> \<open>pebble_db\<close> (\<open>Pebble_Store\<close>), the storage engine: an ordered map, atomic batches, iterators.
  \<^item> \<open>raft_kv\<close> and \<open>cluster_kv\<close> (\<open>Raft_KV\<close>, \<open>Kv_Serve\<close>), the Raft library: reads answer from the map of
    the replicated state machine, a proposal that succeeds has been applied, one that fails may have
    been. Both are interpreted on a cluster of one node that runs the modelled \<open>kvdisk.go\<close> on any
    \<open>pebble_db\<close> (\<open>sublocale\<close>), so the promises are laws of the program's own state machine.
  \<^item> \<open>go_cache\<close> (\<open>Go_Cache\<close>), the memory cache: an entry is found until its lifetime is over.
  \<^item> \<open>on_disk_sm\<close> (\<open>Disk_Replication\<close>), what Raft needs of a state machine on disk: every way to get at a
    state gives the state that the log determines. It is a sublocale of \<open>pebble_db\<close>: \<open>kvdisk.go\<close> keeps
    the contract on every storage engine.
  \<^item> \<open>mux_paths\<close> (\<open>Api_Routes\<close>), the router: which paths the kinds of templates match that occur.
  \<^item> \<open>buffer_pool\<close> (\<open>Transport\<close>), a pool of buffers as the reverse proxy uses it, interpreted on the
    pool of \<open>bufferpool.go\<close>.
  The Docker and NATS clients, the answers of peers, the clock, random numbers and the network
  interfaces are arguments of the definitions.

  \<^bold>\<open>Theories, by the part of the program.\<close>
  \<^item> \<open>kvdisk.go\<close>: \<open>Disk_KV\<close> has the operations. \<open>Disk_Query\<close>: what lookups and scans return.
    \<open>Disk_Update\<close>: \<open>Update\<close> refines the abstract commands, and replicas that apply the same log agree
    however it is cut into batches. \<open>Disk_Directory\<close>: the current file is replaced atomically.
    \<open>Disk_Lifecycle\<close>: first start, restart, and the start that was interrupted. \<open>Disk_Snapshot\<close>: round
    trip of snapshots, and recovery that fails or is cut off at any point. \<open>Disk_Node\<close>: the node as a
    step relation with its invariant, and that it can always be started again. \<open>Disk_Replication\<close>: state
    machine safety, over batches, snapshots, crashes and restarts of all replicas together.
  \<^item> \<open>permissions.go\<close>: \<open>Permissions\<close> (authorization is sound, and exact without the cache; what the
    cache and the inexact comparison let through) and \<open>Perm_Cache\<close> (pruning, lifetimes, revoking).
  \<^item> \<open>kv.go\<close>: \<open>Kv_Execute\<close> (\<open>execute\<close> refines an abstract store), \<open>Kv_Serve\<close> (the cases of \<open>serve\<close>),
    \<open>Serve_Effects\<close> (which request can change which key, joining), \<open>Bootstrap\<close> (\<open>connect\<close>),
    \<open>Raft_Setup\<close> (the configuration of the Raft library and its directories),
    \<open>Cluster_Start\<close> (which node creates the cluster, how another joins, when there are two).
  \<^item> \<open>docker.go\<close>, \<open>kvdocker.go\<close>: \<open>Swarm_Routes\<close>. \<open>kvwatcher.go\<close>: \<open>Raft_Watcher\<close>. \<open>kvcache.go\<close>:
    \<open>Cert_Cache\<close>. \<open>nats.go\<close>: \<open>Nats_Service\<close>.
  \<^item> \<open>roo.go\<close>, \<open>proxy.go\<close>, \<open>utils.go\<close>: \<open>Client_Address\<close> (addresses of clients and of the node),
    \<open>Api_Server\<close> and \<open>Api_Replies\<close> (handlers and their replies), \<open>Api_Routes\<close> (the table of routes, and a
    value put and got through router, slots and service), \<open>Proxy_Server\<close>, \<open>Proxy_Routes\<close> (where
    requests go, from the label to the proxy), \<open>Proxy_Limits\<close> (daily limit, host policy), \<open>Conn_Slots\<close>
    (the slots under interleaving, as a step relation), \<open>Node_Setup\<close> (the steps of \<open>main\<close>), \<open>Node_Main\<close>
    (\<open>main\<close> as a whole, from its arguments to the running servers: in which order it does what, and when
    it serves).
  \<^item> \<open>typedefs.go\<close>: \<open>Roo_Types\<close> (what is stored and sent) and \<open>Config_File\<close> (the configuration and how the
    file is decoded). \<open>tests.go\<close>: \<open>Load_Tests\<close> (what the load tests leave in the store).
    \<open>bufferpool.go\<close>, \<open>network.go\<close>: \<open>Transport\<close> (transfers never share a buffer; deadlines).

  \<^bold>\<open>Loops and bounds.\<close> The JSON scanner runs with fuel, and \<open>parse_fuel_enough\<close> in \<open>Go_Json\<close> shows that
  the length of the text is enough. The rounds of \<open>connect\<close> are functions with a termination proof:
  every round and every unanswered request increases \<open>waited\<close>, which is bounded by
  \<open>BOOTSTRAP_WAIT_S\<close>. Loops that the program repeats until a library call succeeds (\<open>rejoin\<close>,
  \<open>put_until\<close>) are partial functions, whose \<open>None\<close> means that they do not return. Indices and
  replica identifiers are 64-bit words; theorems that need the absence of an overflow say so.

  \<^bold>\<open>Not modelled.\<close> What happens inside of the libraries: Raft itself, the ACME protocol, TLS, the
  transfer of proxied requests, the profiler. Log output. Timeouts of contexts, other than as calls
  that fail. \<open>sha\<close>, \<open>cleanString\<close> and \<open>cleanInterfaceString\<close> of \<open>utils.go\<close>, which nothing calls, and the
  types \<open>KeyValue\<close> and the fields of \<open>WriteArgs\<close> and \<open>ServiceArgs\<close> that nothing reads.
  Data races: handlers run concurrently in \<open>Conn_Slots\<close> only as far as their slots are concerned;
  the shared variable \<open>err\<close> of the API handlers, the unsynchronised map of proxies and the assignment
  of the node host after its goroutine has started are treated as if each access were atomic.
\<close>

end
